(* ===== verification/Frp_Prelude.thy ===== *)
theory Frp_Prelude
  imports Main "HOL-Library.Word" "HOL-Library.Sublist" "HOL-Library.Char_ord"
    "HOL-Library.List_Lexorder"
begin

text \<open>
  Shared material of the development: the part of the Go and JavaScript standard
  libraries that the modelled code calls (splitting, joining, trimming and searching
  of byte strings, decimal parsing and printing of machine integers, removal from a
  slice), with the generic lemmas on lists, options and maps that the component
  theories use. A Go string is a sequence of bytes, so it is a \<^typ>\<open>string\<close>.
  Nothing here models code of the repository itself.
\<close>

named_theorems go_lib \<open>rewrite rules for the modelled library functions\<close>
named_theorems inv_intros \<open>preservation lemmas of the component invariants\<close>

type_synonym i64 = "64 word"
type_synonym i32 = "32 word"

abbreviation max_int64 :: int where "max_int64 \<equiv> 9223372036854775807"
abbreviation min_int64 :: int where "min_int64 \<equiv> - 9223372036854775808"

section \<open>Strings\<close>

text \<open>\<open>strings.HasPrefix(s, p)\<close>; the first argument is the string.\<close>

fun has_prefix :: "string \<Rightarrow> string \<Rightarrow> bool" where
  "has_prefix s [] = True"
| "has_prefix [] (c # p) = False"
| "has_prefix (d # s) (c # p) = (d = c \<and> has_prefix s p)"

text \<open>\<open>strings.Contains(s, sub)\<close>.\<close>

fun go_contains :: "string \<Rightarrow> string \<Rightarrow> bool" where
  "go_contains [] sub = (sub = [])"
| "go_contains (c # s) sub = (has_prefix (c # s) sub \<or> go_contains s sub)"

text \<open>\<open>strings.Split(s, sep)\<close> for a separator of one byte: never an empty slice.\<close>

fun go_split :: "char \<Rightarrow> string \<Rightarrow> string list" where
  "go_split sep [] = [[]]"
| "go_split sep (c # s) =
     (if c = sep then [] # go_split sep s
      else (case go_split sep s of [] \<Rightarrow> [[c]] | w # ws \<Rightarrow> (c # w) # ws))"

text \<open>\<open>strings.Join(ws, sep)\<close>.\<close>

fun go_join :: "string \<Rightarrow> string list \<Rightarrow> string" where
  "go_join sep [] = []"
| "go_join sep [w] = w"
| "go_join sep (w # v # ws) = w @ sep @ go_join sep (v # ws)"

text \<open>
  \<open>strings.TrimSpace\<close>: the white space of \<open>unicode.IsSpace\<close>, each rune as its UTF-8
  encoding, so that trimming a byte string is stripping these encodings at both ends.
\<close>

definition space_runes :: "string list" where
  "space_runes =
     [[CHR 0x09], [CHR 0x0A], [CHR 0x0B], [CHR 0x0C], [CHR 0x0D], [CHR 0x20],
      [CHR 0xC2, CHR 0x85], [CHR 0xC2, CHR 0xA0], [CHR 0xE1, CHR 0x9A, CHR 0x80],
      [CHR 0xE2, CHR 0x80, CHR 0x80], [CHR 0xE2, CHR 0x80, CHR 0x81],
      [CHR 0xE2, CHR 0x80, CHR 0x82], [CHR 0xE2, CHR 0x80, CHR 0x83],
      [CHR 0xE2, CHR 0x80, CHR 0x84], [CHR 0xE2, CHR 0x80, CHR 0x85],
      [CHR 0xE2, CHR 0x80, CHR 0x86], [CHR 0xE2, CHR 0x80, CHR 0x87],
      [CHR 0xE2, CHR 0x80, CHR 0x88], [CHR 0xE2, CHR 0x80, CHR 0x89],
      [CHR 0xE2, CHR 0x80, CHR 0x8A], [CHR 0xE2, CHR 0x80, CHR 0xA8],
      [CHR 0xE2, CHR 0x80, CHR 0xA9], [CHR 0xE2, CHR 0x80, CHR 0xAF],
      [CHR 0xE2, CHR 0x81, CHR 0x9F], [CHR 0xE3, CHR 0x80, CHR 0x80]]"

fun strip_runes :: "nat \<Rightarrow> string list \<Rightarrow> string \<Rightarrow> string" where
  "strip_runes 0 rs s = s"
| "strip_runes (Suc n) rs s =
     (case find (has_prefix s) rs of None \<Rightarrow> s | Some r \<Rightarrow> strip_runes n rs (drop (length r) s))"

definition trim_left_space :: "string \<Rightarrow> string" where
  "trim_left_space s = strip_runes (length s) space_runes s"

definition trim_right_space :: "string \<Rightarrow> string" where
  "trim_right_space s = rev (strip_runes (length s) (map rev space_runes) (rev s))"

definition trim_space :: "string \<Rightarrow> string" where
  "trim_space s = trim_right_space (trim_left_space s)"

section \<open>Decimal integers\<close>

definition digit_val :: "char \<Rightarrow> nat option" where
  "digit_val c =
     (let n = (of_char c :: nat) in if 48 \<le> n \<and> n \<le> 57 then Some (n - 48) else None)"

datatype num_error = ErrSyntax | ErrRange

text \<open>
  \<open>strconv.ParseUint(s, 10, 64)\<close> on a non-empty digit string: the range error is
  raised at the byte where the value leaves 64 bits, before later bytes are read.
\<close>

fun parse_digits :: "nat \<Rightarrow> string \<Rightarrow> num_error + nat" where
  "parse_digits n [] = Inr n"
| "parse_digits n (c # s) =
     (case digit_val c of
        None \<Rightarrow> Inl ErrSyntax
      | Some d \<Rightarrow> if n * 10 + d > 2 ^ 64 - 1 then Inl ErrRange else parse_digits (n * 10 + d) s)"

text \<open>
  \<open>strconv.ParseInt(s, 10, 64)\<close>: the value it returns (0 on a syntax error, the
  nearest bound on a range error) and the error, if any.
\<close>

definition parse_sign :: "string \<Rightarrow> bool \<times> string" where
  "parse_sign s = (case s of
      [] \<Rightarrow> (False, [])
    | c # r \<Rightarrow> if c = CHR ''+'' then (False, r) else if c = CHR ''-'' then (True, r) else (False, s))"

definition parse_int :: "string \<Rightarrow> int \<times> num_error option" where
  "parse_int s =
     (let (neg, r) = parse_sign s in
      if r = [] then (0, Some ErrSyntax)
      else case parse_digits 0 r of
        Inl ErrSyntax \<Rightarrow> (0, Some ErrSyntax)
      | Inl ErrRange \<Rightarrow> (if neg then min_int64 else max_int64, Some ErrRange)
      | Inr n \<Rightarrow>
          if \<not> neg \<and> n \<ge> 2 ^ 63 then (max_int64, Some ErrRange)
          else if neg \<and> n > 2 ^ 63 then (min_int64, Some ErrRange)
          else (if neg then - int n else int n, None))"

text \<open>\<open>strconv.Itoa\<close> and \<open>strconv.FormatInt(_, 10)\<close>.\<close>

definition digit_char :: "nat \<Rightarrow> char" where
  "digit_char d = char_of (48 + d)"

fun show_nat :: "nat \<Rightarrow> string" where
  "show_nat n = (if n < 10 then [digit_char n] else show_nat (n div 10) @ [digit_char (n mod 10)])"

declare show_nat.simps [simp del]

definition show_int :: "int \<Rightarrow> string" where
  "show_int i = (if i < 0 then CHR ''-'' # show_nat (nat (- i)) else show_nat (nat i))"

section \<open>Slices\<close>

text \<open>Removal of the first equal element: \<open>append(xs[:i], xs[i+1:]...)\<close> and \<open>break\<close>.\<close>

abbreviation slice_remove :: "'a \<Rightarrow> 'a list \<Rightarrow> 'a list" where
  "slice_remove \<equiv> remove1"

section \<open>Lemmas on the string functions\<close>

lemma has_prefix_iff [go_lib]: "has_prefix s p \<longleftrightarrow> prefix p s"
  by (induction s p rule: has_prefix.induct) auto

lemma has_prefix_append [simp]: "has_prefix (p @ s) p"
  by (simp add: has_prefix_iff)

lemma go_contains_iff [go_lib]: "go_contains s sub \<longleftrightarrow> (\<exists>a b. s = a @ sub @ b)"
proof (induction s)
  case Nil
  show ?case by auto
next
  case (Cons c s)
  show ?case
  proof
    assume "go_contains (c # s) sub"
    then consider "prefix sub (c # s)" | "go_contains s sub"
      by (auto simp: has_prefix_iff simp del: has_prefix.simps)
    then show "\<exists>a b. c # s = a @ sub @ b"
    proof cases
      case 1
      then show ?thesis by (metis append_Nil prefix_def)
    next
      case 2
      with Cons.IH obtain a b where "s = a @ sub @ b" by blast
      then have "c # s = (c # a) @ sub @ b" by simp
      then show ?thesis by blast
    qed
  next
    assume "\<exists>a b. c # s = a @ sub @ b"
    then obtain a b where eq: "c # s = a @ sub @ b" by blast
    show "go_contains (c # s) sub"
    proof (cases a)
      case Nil
      with eq have "has_prefix (c # s) sub" by (simp add: has_prefix_iff prefix_def)
      then show ?thesis by simp
    next
      case (Cons d a')
      with eq have "s = a' @ sub @ b" by simp
      with Cons.IH have "go_contains s sub" by blast
      then show ?thesis by simp
    qed
  qed
qed

lemma go_split_not_Nil [simp]: "go_split sep s \<noteq> []"
  by (induction s) (auto split: list.splits)

lemma go_split_no_sep [go_lib]: "sep \<notin> set s \<Longrightarrow> go_split sep s = [s]"
  by (induction s) auto

lemma go_split_append_sep [go_lib]:
  "sep \<notin> set w \<Longrightarrow> go_split sep (w @ sep # s) = w # go_split sep s"
  by (induction w) auto

text \<open>\<open>Split\<close> after \<open>Join\<close> gives the parts back, if no part holds the separator.\<close>

lemma go_split_join [go_lib]:
  "ws \<noteq> [] \<Longrightarrow> (\<And>w. w \<in> set ws \<Longrightarrow> sep \<notin> set w) \<Longrightarrow> go_split sep (go_join [sep] ws) = ws"
proof (induction ws rule: induct_list012)
  case (3 w v ws)
  then have "go_split sep (go_join [sep] (v # ws)) = v # ws" by simp
  with 3 show ?case by (simp add: go_split_append_sep)
qed (auto simp: go_split_no_sep)

lemma go_join_split [go_lib]: "go_join [sep] (go_split sep s) = s"
proof (induction s)
  case (Cons c s)
  then show ?case
    by (cases "go_split sep s"; cases "tl (go_split sep s)") (auto simp: neq_Nil_conv)
qed simp

lemma go_split_parts: "w \<in> set (go_split sep s) \<Longrightarrow> sep \<notin> set w"
  by (induction s arbitrary: w) (auto split: list.splits if_splits)

section \<open>Lemmas on decimal integers\<close>

lemma of_char_digit [simp]: "d < 10 \<Longrightarrow> of_char (digit_char d) = (48 + d :: nat)"
  by (simp add: digit_char_def of_char_of)

lemma digit_val_digit_char [simp]: "d < 10 \<Longrightarrow> digit_val (digit_char d) = Some d"
  by (simp add: digit_val_def)

lemma show_nat_not_Nil [simp]: "show_nat n \<noteq> []"
  by (subst show_nat.simps) simp

lemma set_show_nat: "c \<in> set (show_nat n) \<Longrightarrow> \<exists>d<10. c = digit_char d"
proof (induction n rule: show_nat.induct)
  case (1 n)
  show ?case
  proof (cases "n < 10")
    case True
    with "1.prems" show ?thesis by (subst (asm) show_nat.simps) auto
  next
    case False
    with "1.prems" have "c \<in> set (show_nat (n div 10)) \<or> c = digit_char (n mod 10)"
      by (subst (asm) show_nat.simps) auto
    with False "1.IH" show ?thesis by (auto intro: exI [of _ "n mod 10"])
  qed
qed

lemma parse_digits_append:
  "parse_digits n (s @ t) = (case parse_digits n s of Inl e \<Rightarrow> Inl e | Inr m \<Rightarrow> parse_digits m t)"
  by (induction n s rule: parse_digits.induct) (auto split: option.splits)

lemma parse_digits_show_nat: "n < 2 ^ 64 \<Longrightarrow> parse_digits 0 (show_nat n) = Inr n"
proof (induction n rule: show_nat.induct)
  case (1 n)
  show ?case
  proof (cases "n < 10")
    case True
    then show ?thesis by (subst show_nat.simps) simp
  next
    case False
    with "1" have "parse_digits 0 (show_nat (n div 10)) = Inr (n div 10)" by simp
    with False "1.prems" show ?thesis
      by (subst show_nat.simps) (simp add: parse_digits_append)
  qed
qed

lemma hd_show_nat_not_sign: "show_nat n = c # r \<Longrightarrow> c \<noteq> CHR ''+'' \<and> c \<noteq> CHR ''-''"
proof -
  assume "show_nat n = c # r"
  then have "\<exists>d<10. c = digit_char d" by (intro set_show_nat [of _ n]) simp
  then obtain d where "d < 10" and c: "c = digit_char d" by blast
  then have "of_char c = (48 + d :: nat)" by simp
  then show ?thesis by auto
qed

lemma parse_sign_show_nat [simp]: "parse_sign (show_nat n) = (False, show_nat n)"
  by (cases "show_nat n") (auto simp: parse_sign_def dest: hd_show_nat_not_sign)

text \<open>Printing an \<open>int64\<close> and parsing it gives it back, without an error.\<close>

lemma parse_int_show_int [go_lib]:
  assumes "min_int64 \<le> i" and "i \<le> max_int64"
  shows "parse_int (show_int i) = (i, None)"
proof (cases "i < 0")
  case True
  with assms(1) have "nat (- i) \<le> 2 ^ 63" by simp
  with True show ?thesis
    by (simp add: show_int_def parse_int_def parse_sign_def parse_digits_show_nat)
next
  case False
  with assms(2) have "nat i < 2 ^ 63" by simp
  with False show ?thesis
    by (simp add: show_int_def parse_int_def parse_digits_show_nat)
qed

text \<open>Whatever the input, \<open>ParseInt\<close> returns an \<open>int64\<close>.\<close>

lemma parse_int_range: "parse_int s = (i, e) \<Longrightarrow> min_int64 \<le> i \<and> i \<le> max_int64"
  by (auto simp: parse_int_def Let_def split: prod.splits sum.splits num_error.splits if_splits)

end
