(* ===== verification/Frp_Router.thy ===== *)
theory Frp_Router
  imports Frp_Prelude "HOL-Library.Multiset"
begin

text \<open>
  The virtual host router of frps: \<open>pkg/util/vhost/router.go\<close> (the two-level index of
  routes), the host lookup of the HTTP reverse proxy (\<open>pkg/util/vhost/http.go\<close>,
  \<open>getVhost\<close> and its callers) and of the HTTPS and TCP multiplexers
  (\<open>pkg/util/vhost/vhost.go\<close>, \<open>getListener\<close>). The locale \<open>route_table\<close> is the
  contract the lookups and the group controllers rely on; it is interpreted on the
  modelled \<open>Routers\<close> at the end of the second section.
\<close>

section \<open>The route index\<close>

record 'p router =
  rt_domain :: string
  rt_location :: string
  rt_httpUser :: string
  rt_payload :: 'p

type_synonym 'p routerByHTTPUser = "string \<rightharpoonup> 'p router list"
type_synonym 'p routers = "string \<rightharpoonup> 'p routerByHTTPUser"

datatype router_error = ErrRouterConfigConflict

definition NewRouters :: "'p routers" where
  "NewRouters = Map.empty"

text \<open>
  \<open>ByLocation\<close> under \<open>sort.Reverse\<close>: descending by the byte order of the locations.
  \<open>sort.Sort\<close> leaves the order of equal elements open; there are none (see
  \<open>sort_by_location_unique\<close>).
\<close>

definition sort_by_location :: "'p router list \<Rightarrow> 'p router list" where
  "sort_by_location vrs = rev (sort_key rt_location vrs)"

text \<open>
  The search loop of \<open>exist\<close>. The named result \<open>route\<close> is the loop variable, so a
  search without success returns the last router it looked at, with \<open>False\<close>.
\<close>

fun exist_loop :: "string \<Rightarrow> 'p router option \<Rightarrow> 'p router list \<Rightarrow> 'p router option \<times> bool" where
  "exist_loop path route [] = (route, False)"
| "exist_loop path route (vr # vrs) =
     (if path = rt_location vr then (Some vr, True) else exist_loop path (Some vr) vrs)"

definition routers_exist ::
    "'p routers \<Rightarrow> string \<Rightarrow> string \<Rightarrow> string \<Rightarrow> 'p router option \<times> bool" where
  "routers_exist r host path httpUser =
     (case r host of
        None \<Rightarrow> (None, False)
      | Some byUser \<Rightarrow> (case byUser httpUser of
            None \<Rightarrow> (None, False)
          | Some routers \<Rightarrow> exist_loop path None routers))"

definition routers_Add ::
    "'p routers \<Rightarrow> string \<Rightarrow> string \<Rightarrow> string \<Rightarrow> 'p \<Rightarrow> 'p routers \<times> router_error option" where
  "routers_Add r domain location httpUser payload =
     (if snd (routers_exist r domain location httpUser) then (r, Some ErrRouterConfigConflict)
      else
        let byUser = (case r domain of None \<Rightarrow> Map.empty | Some m \<Rightarrow> m);
            vrs = (case byUser httpUser of None \<Rightarrow> [] | Some l \<Rightarrow> l);
            vr = \<lparr>rt_domain = domain, rt_location = location, rt_httpUser = httpUser,
                  rt_payload = payload\<rparr>;
            vrs' = sort_by_location (vrs @ [vr])
        in (r(domain \<mapsto> byUser(httpUser \<mapsto> vrs')), None))"

definition routers_Del :: "'p routers \<Rightarrow> string \<Rightarrow> string \<Rightarrow> string \<Rightarrow> 'p routers" where
  "routers_Del r domain location httpUser =
     (case r domain of
        None \<Rightarrow> r
      | Some byUser \<Rightarrow> (case byUser httpUser of
            None \<Rightarrow> r
          | Some vrs \<Rightarrow>
              r(domain \<mapsto> byUser(httpUser \<mapsto> filter (\<lambda>vr. rt_location vr \<noteq> location) vrs))))"

fun get_loop :: "string \<Rightarrow> 'p router option \<Rightarrow> 'p router list \<Rightarrow> 'p router option \<times> bool" where
  "get_loop path vr [] = (vr, False)"
| "get_loop path vr (v # vs) =
     (if has_prefix path (rt_location v) then (Some v, True) else get_loop path (Some v) vs)"

definition routers_Get ::
    "'p routers \<Rightarrow> string \<Rightarrow> string \<Rightarrow> string \<Rightarrow> 'p router option \<times> bool" where
  "routers_Get r host path httpUser =
     (case r host of
        None \<Rightarrow> (None, False)
      | Some byUser \<Rightarrow> (case byUser httpUser of
            None \<Rightarrow> (None, False)
          | Some vrs \<Rightarrow> get_loop path None vrs))"

text \<open>The routes registered for a domain and user, and the abstract table.\<close>

definition routes_of :: "'p routers \<Rightarrow> string \<Rightarrow> string \<Rightarrow> 'p router list" where
  "routes_of r d u = (case r d of None \<Rightarrow> [] | Some byUser \<Rightarrow>
     (case byUser u of None \<Rightarrow> [] | Some vrs \<Rightarrow> vrs))"

definition route_at :: "'p routers \<Rightarrow> string \<times> string \<times> string \<Rightarrow> 'p option" where
  "route_at r = (\<lambda>(d, l, u).
     map_option rt_payload (find (\<lambda>vr. rt_location vr = l) (routes_of r d u)))"

text \<open>
  Invariant: the routes of a domain and user carry that domain and user, and their
  locations descend strictly.
\<close>

definition routers_inv :: "'p routers \<Rightarrow> bool" where
  "routers_inv r \<longleftrightarrow> (\<forall>d u.
     sorted_wrt (\<lambda>a b. rt_location a > rt_location b) (routes_of r d u) \<and>
     (\<forall>vr \<in> set (routes_of r d u). rt_domain vr = d \<and> rt_httpUser vr = u))"

section \<open>The contract of a route table\<close>

locale route_table =
  fixes add :: "'r \<Rightarrow> string \<Rightarrow> string \<Rightarrow> string \<Rightarrow> 'p \<Rightarrow> 'r \<times> router_error option"
    and del :: "'r \<Rightarrow> string \<Rightarrow> string \<Rightarrow> string \<Rightarrow> 'r"
    and get :: "'r \<Rightarrow> string \<Rightarrow> string \<Rightarrow> string \<Rightarrow> 'p router option \<times> bool"
    and at :: "'r \<Rightarrow> string \<times> string \<times> string \<Rightarrow> 'p option"
    and inv :: "'r \<Rightarrow> bool"
  assumes add_free: "inv r \<Longrightarrow> at r (d, l, u) = None \<Longrightarrow>
      snd (add r d l u p) = None \<and> at (fst (add r d l u p)) = (at r)((d, l, u) \<mapsto> p)"
    and add_taken: "inv r \<Longrightarrow> at r (d, l, u) \<noteq> None \<Longrightarrow>
      add r d l u p = (r, Some ErrRouterConfigConflict)"
    and del_at: "inv r \<Longrightarrow> at (del r d l u) = (at r)((d, l, u) := None)"
    and get_found: "inv r \<Longrightarrow> get r d path u = (Some vr, True) \<Longrightarrow>
      at r (d, rt_location vr, u) = Some (rt_payload vr) \<and> prefix (rt_location vr) path \<and>
      (\<forall>l. prefix l path \<longrightarrow> at r (d, l, u) \<noteq> None \<longrightarrow> length l \<le> length (rt_location vr))"
    and get_none: "inv r \<Longrightarrow>
      snd (get r d path u) \<longleftrightarrow> (\<exists>l. prefix l path \<and> at r (d, l, u) \<noteq> None)"
    and get_some: "inv r \<Longrightarrow> snd (get r d path u) \<Longrightarrow> fst (get r d path u) \<noteq> None"
    and inv_add: "inv r \<Longrightarrow> inv (fst (add r d l u p))"
    and inv_del: "inv r \<Longrightarrow> inv (del r d l u)"
begin

lemma add_then_taken:
  assumes "inv r" and "snd (add r d l u p) = None"
  shows "add (fst (add r d l u p)) d l u q = (fst (add r d l u p), Some ErrRouterConfigConflict)"
proof -
  have free: "at r (d, l, u) = None"
    using assms add_taken [of r d l u p] by (cases "at r (d, l, u)") auto
  then have "at (fst (add r d l u p)) (d, l, u) \<noteq> None"
    using add_free [OF assms(1) free] by simp
  then show ?thesis by (rule add_taken [OF inv_add [OF assms(1)]])
qed

lemma del_after_add:
  assumes "inv r" and "snd (add r d l u p) = None"
  shows "at (del (fst (add r d l u p)) d l u) = at r"
proof -
  have free: "at r (d, l, u) = None"
    using assms add_taken [of r d l u p] by (cases "at r (d, l, u)") auto
  have "at (del (fst (add r d l u p)) d l u) = (at (fst (add r d l u p)))((d, l, u) := None)"
    by (rule del_at [OF inv_add [OF assms(1)]])
  also have "\<dots> = (at r)((d, l, u) := None)"
    using add_free [OF assms(1) free] by simp
  also have "\<dots> = at r"
    using free by (simp add: fun_upd_idem)
  finally show ?thesis .
qed

lemma get_after_add:
  assumes "inv r" and "snd (add r d l u p) = None" and "prefix l path"
  shows "snd (get (fst (add r d l u p)) d path u)"
proof -
  have free: "at r (d, l, u) = None"
    using assms(1,2) add_taken [of r d l u p] by (cases "at r (d, l, u)") auto
  show ?thesis
    using add_free [OF assms(1) free] assms(3)
    by (auto simp: get_none [OF inv_add [OF assms(1)]] intro!: exI [of _ l])
qed

end

section \<open>The index fulfils the contract\<close>

subsection \<open>Sorting\<close>

lemma sort_by_location_set [simp]: "set (sort_by_location vrs) = set vrs"
  by (simp add: sort_by_location_def)

lemma sorted_wrt_strict_distinct:
  "sorted_wrt (\<lambda>a b. f a > (f b :: 'b :: linorder)) xs \<Longrightarrow> distinct (map f xs)"
  by (induction xs) auto

lemma sort_by_location_strict:
  assumes "distinct (map rt_location vrs)"
  shows "sorted_wrt (\<lambda>a b. rt_location a > rt_location b) (sort_by_location vrs)"
proof -
  let ?s = "sort_key rt_location vrs"
  have "distinct (map rt_location ?s)"
    using assms by (simp add: distinct_map)
  then have "sorted_wrt (<) (map rt_location ?s)"
    by (simp add: strict_sorted_iff)
  then show ?thesis
    by (simp add: sort_by_location_def sorted_wrt_rev sorted_wrt_map)
qed

text \<open>
  Any sorting algorithm gives this result: a descending rearrangement of routers with
  pairwise different locations is unique.
\<close>

lemma sort_by_location_unique:
  assumes "distinct (map rt_location vrs)" and "mset ws = mset vrs"
    and "sorted_wrt (\<lambda>a b. rt_location a \<ge> rt_location b) ws"
  shows "ws = sort_by_location vrs"
proof -
  let ?s = "sort_key rt_location vrs"
  have set_eq: "set (rev ws) = set ?s" using mset_eq_setD [OF assms(2)] by simp
  have "mset (map rt_location ws) = mset (map rt_location vrs)" using assms(2) by simp
  with assms(1) have dist: "distinct (map rt_location (rev ws))"
    by (metis mset_eq_imp_distinct_iff distinct_rev rev_map)
  have "rev ws = ?s"
  proof (rule map_sorted_distinct_set_unique [where f = rt_location])
    show "inj_on rt_location (set (rev ws) \<union> set ?s)"
      using assms(1) set_eq by (simp add: distinct_map)
    show "sorted (map rt_location (rev ws))"
      using assms(3) by (simp add: sorted_wrt_rev sorted_wrt_map)
    show "distinct (map rt_location ?s)"
      using assms(1) by (simp add: distinct_map)
  qed (use dist set_eq in simp_all)
  then show ?thesis by (simp add: sort_by_location_def flip: rev_swap)
qed

subsection \<open>Searching\<close>

lemma exist_loop_snd [simp]:
  "snd (exist_loop path v vrs) \<longleftrightarrow> (\<exists>vr \<in> set vrs. rt_location vr = path)"
  by (induction vrs arbitrary: v) auto

lemma get_loop_snd [simp]:
  "snd (get_loop path v vrs) \<longleftrightarrow> (\<exists>vr \<in> set vrs. prefix (rt_location vr) path)"
  by (induction vrs arbitrary: v) (auto simp: has_prefix_iff)

lemma get_loop_found:
  "get_loop path v vrs = (Some vr, True) \<Longrightarrow>
     \<exists>as bs. vrs = as @ vr # bs \<and> prefix (rt_location vr) path \<and>
       (\<forall>a \<in> set as. \<not> prefix (rt_location a) path)"
proof (induction vrs arbitrary: v)
  case (Cons x xs)
  show ?case
  proof (cases "prefix (rt_location x) path")
    case True
    with Cons.prems show ?thesis
      by (intro exI [of _ "[]"] exI [of _ xs]) (auto simp: has_prefix_iff)
  next
    case False
    with Cons.prems have "get_loop path (Some x) xs = (Some vr, True)"
      by (simp add: has_prefix_iff)
    from Cons.IH [OF this] obtain as bs where
      "xs = as @ vr # bs" "prefix (rt_location vr) path" "\<forall>a \<in> set as. \<not> prefix (rt_location a) path"
      by blast
    with False show ?thesis by (intro exI [of _ "x # as"] exI [of _ bs]) auto
  qed
qed simp

lemma prefix_less: "prefix a b \<Longrightarrow> a \<noteq> b \<Longrightarrow> a < (b :: 'a :: linorder list)"
proof -
  assume "prefix a b" "a \<noteq> b"
  then obtain c cs where "b = a @ c # cs" by (metis prefix_def self_append_conv neq_Nil_conv)
  then show "a < b" by (simp add: list_less_def lexord_append_rightI)
qed

text \<open>
  Two prefixes of one path are comparable, and the longer one is the greater in byte
  order: a descending list has the longest matching location first.
\<close>

lemma prefix_length_less:
  assumes "prefix a path" and "prefix b path" and "(b :: string) < a"
  shows "length b \<le> length a"
proof (rule ccontr)
  assume "\<not> ?thesis"
  with prefix_length_prefix [OF assms(1,2)] have "prefix a b" "a \<noteq> b" by auto
  then have "a < b" by (rule prefix_less)
  with assms(3) show False by simp
qed

lemma get_loop_longest:
  assumes "sorted_wrt (\<lambda>a b. rt_location a > rt_location b) vrs"
    and "get_loop path v vrs = (Some vr, True)"
    and "x \<in> set vrs" and "prefix (rt_location x) path"
  shows "length (rt_location x) \<le> length (rt_location vr)"
proof -
  from get_loop_found [OF assms(2)] obtain as bs where
    vrs: "vrs = as @ vr # bs" and p: "prefix (rt_location vr) path"
    and as: "\<forall>a \<in> set as. \<not> prefix (rt_location a) path" by blast
  from as assms(3,4) vrs have "x = vr \<or> x \<in> set bs" by auto
  moreover from assms(1) vrs have "\<forall>y \<in> set bs. rt_location vr > rt_location y"
    by (simp add: sorted_wrt_append)
  ultimately show ?thesis using prefix_length_less [OF p assms(4)] by auto
qed

lemma get_loop_some: "snd (get_loop path v vrs) \<Longrightarrow> fst (get_loop path v vrs) \<noteq> None"
  by (induction vrs arbitrary: v) (auto simp: has_prefix_iff)

lemma routers_exist_eq:
  "snd (routers_exist r d l u) \<longleftrightarrow> (\<exists>vr \<in> set (routes_of r d u). rt_location vr = l)"
  by (auto simp: routers_exist_def routes_of_def split: option.splits)

lemma routers_Get_eq: "routers_Get r d p u = get_loop p None (routes_of r d u)"
  by (auto simp: routers_Get_def routes_of_def split: option.splits)

subsection \<open>The abstract table\<close>

lemma find_none_iff: "find P xs = None \<longleftrightarrow> (\<forall>x \<in> set xs. \<not> P x)"
  by (induction xs) auto

lemma find_location:
  assumes "distinct (map rt_location vrs)" and "vr \<in> set vrs"
  shows "find (\<lambda>v. rt_location v = rt_location vr) vrs = Some vr"
  using assms by (induction vrs) (auto simp: image_iff)

lemma route_at_none: "route_at r (d, l, u) = None \<longleftrightarrow> \<not> snd (routers_exist r d l u)"
  by (auto simp: route_at_def routers_exist_eq find_none_iff)

lemma routers_inv_distinct: "routers_inv r \<Longrightarrow> distinct (map rt_location (routes_of r d u))"
  by (auto simp: routers_inv_def intro: sorted_wrt_strict_distinct)

lemma route_at_member:
  assumes "routers_inv r" and "vr \<in> set (routes_of r d u)"
  shows "route_at r (d, rt_location vr, u) = Some (rt_payload vr)"
  using find_location [OF routers_inv_distinct [OF assms(1)] assms(2)]
  by (simp add: route_at_def)

lemma routes_of_Add:
  assumes "\<not> snd (routers_exist r d l u)"
  shows "routes_of (fst (routers_Add r d l u p)) d' u' =
    (if d' = d \<and> u' = u then sort_by_location (routes_of r d u @
       [\<lparr>rt_domain = d, rt_location = l, rt_httpUser = u, rt_payload = p\<rparr>])
     else routes_of r d' u')"
  using assms by (auto simp: routers_Add_def routes_of_def Let_def split: option.splits)

lemma routes_of_Del:
  "routes_of (routers_Del r d l u) d' u' =
    (if d' = d \<and> u' = u then filter (\<lambda>vr. rt_location vr \<noteq> l) (routes_of r d u)
     else routes_of r d' u')"
  by (auto simp: routers_Del_def routes_of_def split: option.splits)

lemma routers_inv_new [inv_intros]: "routers_inv NewRouters"
  by (simp add: routers_inv_def NewRouters_def routes_of_def)

lemma routers_inv_Add [inv_intros]:
  assumes "routers_inv r"
  shows "routers_inv (fst (routers_Add r d l u p))"
proof (cases "snd (routers_exist r d l u)")
  case True
  with assms show ?thesis by (simp add: routers_Add_def)
next
  case False
  then have "distinct (map rt_location (routes_of r d u @
      [\<lparr>rt_domain = d, rt_location = l, rt_httpUser = u, rt_payload = p\<rparr>]))"
    using routers_inv_distinct [OF assms] by (auto simp: routers_exist_eq)
  from sort_by_location_strict [OF this] assms False show ?thesis
    by (auto simp: routers_inv_def routes_of_Add)
qed

lemma routers_inv_Del [inv_intros]: "routers_inv r \<Longrightarrow> routers_inv (routers_Del r d l u)"
  by (auto simp: routers_inv_def routes_of_Del intro: sorted_wrt_filter)

lemma find_location_append:
  assumes "distinct (map rt_location vrs)" and "\<forall>x \<in> set vrs. rt_location x \<noteq> rt_location v"
  shows "find (\<lambda>x. rt_location x = l) (sort_by_location (vrs @ [v])) =
    (if l = rt_location v then Some v else find (\<lambda>x. rt_location x = l) vrs)"
proof -
  let ?ws = "sort_by_location (vrs @ [v])"
  have "distinct (map rt_location (vrs @ [v]))" using assms by (auto simp: image_iff)
  then have d: "distinct (map rt_location ?ws)"
    by (rule sorted_wrt_strict_distinct [OF sort_by_location_strict])
  show ?thesis
  proof (cases "\<exists>x \<in> set (vrs @ [v]). rt_location x = l")
    case True
    then obtain x where x: "x \<in> set (vrs @ [v])" "rt_location x = l" by blast
    then have "find (\<lambda>y. rt_location y = l) ?ws = Some x"
      using find_location [OF d, of x] by simp
    moreover have "x \<noteq> v \<Longrightarrow> find (\<lambda>y. rt_location y = l) vrs = Some x"
      using find_location [OF assms(1), of x] x by simp
    ultimately show ?thesis using x assms(2) by (cases "x = v") auto
  next
    case False
    then have "find (\<lambda>x. rt_location x = l) ?ws = None"
      "find (\<lambda>x. rt_location x = l) vrs = None" by (simp_all add: find_none_iff)
    with False show ?thesis by auto
  qed
qed

lemma route_at_Add:
  assumes inv: "routers_inv r" and free: "\<not> snd (routers_exist r d l u)"
  shows "route_at (fst (routers_Add r d l u p)) = (route_at r)((d, l, u) \<mapsto> p)"
proof (rule ext)
  fix k :: "string \<times> string \<times> string"
  obtain d' l' u' where k: "k = (d', l', u')" by (metis prod_cases3)
  let ?v = "\<lparr>rt_domain = d, rt_location = l, rt_httpUser = u, rt_payload = p\<rparr>"
  have "\<forall>x \<in> set (routes_of r d u). rt_location x \<noteq> rt_location ?v"
    using free by (simp add: routers_exist_eq)
  then have "find (\<lambda>x. rt_location x = l') (sort_by_location (routes_of r d u @ [?v])) =
      (if l' = l then Some ?v else find (\<lambda>x. rt_location x = l') (routes_of r d u))"
    using find_location_append [OF routers_inv_distinct [OF inv]] by simp
  then show "route_at (fst (routers_Add r d l u p)) k = ((route_at r)((d, l, u) \<mapsto> p)) k"
    by (cases "l' = l") (auto simp: k route_at_def routes_of_Add [OF free])
qed

lemma find_filter_location:
  "find (\<lambda>v. rt_location v = l') (filter (\<lambda>v. rt_location v \<noteq> l) vrs) =
     (if l' = l then None else find (\<lambda>v. rt_location v = l') vrs)"
  by (induction vrs) auto

lemma route_at_Del: "route_at (routers_Del r d l u) = (route_at r)((d, l, u) := None)"
  by (rule ext) (auto simp: route_at_def routes_of_Del find_filter_location split: prod.splits)

lemma route_at_exists:
  assumes "routers_inv r"
  shows "(\<exists>vr \<in> set (routes_of r d u). rt_location vr = l) \<longleftrightarrow> route_at r (d, l, u) \<noteq> None"
  by (simp add: route_at_none routers_exist_eq)

lemma routers_Get_longest:
  assumes "routers_inv r" and "routers_Get r d path u = (Some vr, True)"
  shows "route_at r (d, rt_location vr, u) = Some (rt_payload vr) \<and> prefix (rt_location vr) path \<and>
    (\<forall>l. prefix l path \<longrightarrow> route_at r (d, l, u) \<noteq> None \<longrightarrow> length l \<le> length (rt_location vr))"
proof (intro conjI allI impI)
  note g = assms(2) [unfolded routers_Get_eq]
  from get_loop_found [OF g] obtain as bs where
    s: "routes_of r d u = as @ vr # bs" and p: "prefix (rt_location vr) path" by blast
  show "route_at r (d, rt_location vr, u) = Some (rt_payload vr)"
    by (rule route_at_member [OF assms(1)]) (simp add: s)
  show "prefix (rt_location vr) path" by (rule p)
  fix l assume l: "prefix l path" "route_at r (d, l, u) \<noteq> None"
  then obtain x where "x \<in> set (routes_of r d u)" "rt_location x = l"
    using route_at_exists [OF assms(1)] by blast
  with l(1) show "length l \<le> length (rt_location vr)"
    using get_loop_longest [OF _ g, of x] assms(1) by (auto simp: routers_inv_def)
qed

interpretation vr: route_table routers_Add routers_Del routers_Get route_at routers_inv
proof (unfold_locales, goal_cases)
  case (1 r d l u p)
  then show ?case by (simp add: route_at_none route_at_Add) (simp add: routers_Add_def Let_def)
next
  case (2 r d l u p)
  then show ?case by (simp add: route_at_none routers_Add_def)
next
  case (3 r d l u)
  show ?case by (rule route_at_Del)
next
  case (4 r d path u vr)
  then show ?case by (rule routers_Get_longest)
next
  case (5 r d path u)
  then show ?case by (auto simp only: routers_Get_eq get_loop_snd simp flip: route_at_exists)
next
  case (6 r d path u)
  then show ?case by (simp add: routers_Get_eq get_loop_some)
next
  case (7 r d l u p)
  then show ?case by (rule routers_inv_Add)
next
  case (8 r d l u)
  then show ?case by (rule routers_inv_Del)
qed

section \<open>Properties\<close>

text \<open>Any sequence of registrations and removals, on the index and on its abstract table.\<close>

datatype 'p router_op = OpAdd string string string 'p | OpDel string string string

fun router_step :: "'p routers \<Rightarrow> 'p router_op \<Rightarrow> 'p routers" where
  "router_step r (OpAdd d l u p) = fst (routers_Add r d l u p)"
| "router_step r (OpDel d l u) = routers_Del r d l u"

definition router_run :: "'p router_op list \<Rightarrow> 'p routers" where
  "router_run ops = fold (\<lambda>op r. router_step r op) ops NewRouters"

type_synonym 'p table = "string \<times> string \<times> string \<Rightarrow> 'p option"

fun table_step :: "'p table \<Rightarrow> 'p router_op \<Rightarrow> 'p table" where
  "table_step t (OpAdd d l u p) = (if t (d, l, u) = None then t((d, l, u) \<mapsto> p) else t)"
| "table_step t (OpDel d l u) = t((d, l, u) := None)"

lemma router_step_inv [inv_intros]: "routers_inv r \<Longrightarrow> routers_inv (router_step r op)"
  by (cases op) (simp_all add: routers_inv_Add routers_inv_Del)

lemma router_step_table: "routers_inv r \<Longrightarrow> route_at (router_step r op) = table_step (route_at r) op"
proof (cases op)
  case (OpAdd d l u p)
  assume "routers_inv r"
  with OpAdd show ?thesis
    using vr.add_free [of r d l u p] vr.add_taken [of r d l u p] by auto
qed (simp add: route_at_Del)

lemma router_fold_table:
  "routers_inv r \<Longrightarrow> routers_inv (fold (\<lambda>op r. router_step r op) ops r) \<and>
     route_at (fold (\<lambda>op r. router_step r op) ops r) = fold (\<lambda>op t. table_step t op) ops (route_at r)"
  by (induction ops arbitrary: r) (simp_all add: router_step_inv router_step_table)

lemma router_run_inv: "routers_inv (router_run ops)"
  using router_fold_table [OF routers_inv_new, of ops] by (simp add: router_run_def)

lemma route_at_new: "route_at NewRouters = Map.empty"
  by (rule ext) (simp add: route_at_def NewRouters_def routes_of_def split: prod.splits)

text \<open>
  (C1) Refinement: after any sequence of \<open>Add\<close> and \<open>Del\<close> calls the two-level index of
  sorted slices holds exactly the routes of the abstract table, in which an \<open>Add\<close> of a
  registered (domain, location, user) changes nothing and a \<open>Del\<close> removes that entry only.
\<close>

theorem router_refines_table:
  "route_at (router_run ops) = fold (\<lambda>op t. table_step t op) ops Map.empty"
  using router_fold_table [OF routers_inv_new, of ops] by (simp add: router_run_def route_at_new)


definition demo_routes :: "nat router_op list" where
  "demo_routes = [OpAdd ''a.b'' ''/'' [] 1, OpAdd ''a.b'' ''/x'' [] 2, OpAdd ''a.b'' ''/y'' [] 3]"


text \<open>
  After any sequence of calls, a lookup succeeds exactly if some registered location
  of the host and user is a prefix of the path: no route is hidden by another.
\<close>

theorem router_get_complete:
  "snd (routers_Get (router_run ops) host path user) \<longleftrightarrow>
     (\<exists>l. prefix l path \<and> route_at (router_run ops) (host, l, user) \<noteq> None)"
  by (rule vr.get_none [OF router_run_inv])

end
