(* ===== verification/Frp_Util.thy ===== *)
theory Frp_Util
  imports Frp_Prelude
begin

text \<open>
  The utility packages: \<open>pkg/util/util/util.go\<close> (random identifiers, addresses, ranges
  of numbers), \<open>pkg/util/util/http.go\<close> (canonical host names) and
  \<open>pkg/util/version/version.go\<close> (comparison of versions). The host and port functions
  of Go's \<open>net\<close> package that they call are modelled first.
\<close>

section \<open>Host and port strings of Go's net package\<close>

datatype addr_error = MissingPort | TooManyColons | MissingBracket | UnexpectedBracket

fun index_of :: "char \<Rightarrow> string \<Rightarrow> nat option" where
  "index_of c [] = None"
| "index_of c (d # s) = (if d = c then Some 0 else map_option Suc (index_of c s))"

definition last_index_of :: "char \<Rightarrow> string \<Rightarrow> nat option" where
  "last_index_of c s = map_option (\<lambda>i. length s - 1 - i) (index_of c (rev s))"

definition join_host_port :: "string \<Rightarrow> string \<Rightarrow> string" where
  "join_host_port host port =
     (if CHR '':'' \<in> set host then ''['' @ host @ '']:'' @ port else host @ '':'' @ port)"

definition split_host_port :: "string \<Rightarrow> addr_error + string \<times> string" where
  "split_host_port hp =
     (case last_index_of (CHR '':'') hp of
        None \<Rightarrow> Inl MissingPort
      | Some i \<Rightarrow>
          (let checked = (\<lambda>host j k.
                 if CHR ''['' \<in> set (drop j hp) then Inl UnexpectedBracket
                 else if CHR '']'' \<in> set (drop k hp) then Inl UnexpectedBracket
                 else Inr (host, drop (i + 1) hp))
           in if has_prefix hp ''['' then
                (case index_of (CHR '']'') hp of
                   None \<Rightarrow> Inl MissingBracket
                 | Some e \<Rightarrow>
                     if e + 1 = length hp then Inl MissingPort
                     else if e + 1 = i then checked (drop 1 (take e hp)) 1 (e + 1)
                     else if hp ! (e + 1) = CHR '':'' then Inl TooManyColons
                     else Inl MissingPort)
              else if CHR '':'' \<in> set (take i hp) then Inl TooManyColons
              else checked (take i hp) 0 0))"

text \<open>\<open>strings.ToLower\<close> and \<open>strings.TrimSuffix\<close>; host names are ASCII.\<close>

definition lower_char :: "char \<Rightarrow> char" where
  "lower_char c = (let n = (of_char c :: nat) in if 65 \<le> n \<and> n \<le> 90 then char_of (n + 32) else c)"

definition to_lower :: "string \<Rightarrow> string" where
  "to_lower s = map lower_char s"

definition trim_suffix :: "string \<Rightarrow> string \<Rightarrow> string" where
  "trim_suffix s suf = (if has_prefix (rev s) (rev suf) then take (length s - length suf) s else s)"

section \<open>Addresses and host names\<close>

definition CanonicalAddr :: "string \<Rightarrow> int \<Rightarrow> string" where
  "CanonicalAddr host port =
     (if port = 80 \<or> port = 443 then host else join_host_port host (show_int port))"

definition hasPort :: "string \<Rightarrow> bool" where
  "hasPort host =
     (let colons = count_list host (CHR '':'') in
      if colons = 0 then False
      else if colons = 1 then True
      else has_prefix host ''['' \<and> go_contains host '']:'')"

definition CanonicalHost :: "string \<Rightarrow> addr_error + string" where
  "CanonicalHost host =
     (let host = to_lower host in
      if hasPort host then
        (case split_host_port host of
           Inl e \<Rightarrow> Inl e
         | Inr (h, _) \<Rightarrow> Inr (trim_suffix h ''.''))
      else Inr (trim_suffix host ''.''))"

section \<open>Random identifiers\<close>

definition hex_digit :: "nat \<Rightarrow> char" where
  "hex_digit d = (if d < 10 then char_of (48 + d) else char_of (87 + d))"

fun hex_encode :: "nat list \<Rightarrow> string" where
  "hex_encode [] = []"
| "hex_encode (b # bs) = hex_digit (b div 16) # hex_digit (b mod 16) # hex_encode bs"

text \<open>
  \<open>rand n\<close> is what the system's random source answers when asked for \<open>n\<close> bytes:
  \<open>None\<close> for an error, else the bytes.
\<close>

definition RandIDWithLen :: "(nat \<Rightarrow> nat list option) \<Rightarrow> int \<Rightarrow> string option" where
  "RandIDWithLen rand idLen =
     (if idLen \<le> 0 then Some []
      else case rand (nat (idLen div 2 + 1)) of
        None \<Rightarrow> None
      | Some b \<Rightarrow> Some (take (nat idLen) (hex_encode b)))"

definition RandID :: "(nat \<Rightarrow> nat list option) \<Rightarrow> string option" where
  "RandID rand = RandIDWithLen rand 16"

text \<open>\<open>intn n\<close> is the answer of \<open>mathrand.Intn(n)\<close>.\<close>

definition RandIDWithRandLen ::
    "(nat \<Rightarrow> nat list option) \<Rightarrow> (int \<Rightarrow> int) \<Rightarrow> int \<Rightarrow> int \<Rightarrow> string option" where
  "RandIDWithRandLen rand intn start stop =
     (if start \<ge> stop then None else RandIDWithLen rand (intn (stop - start) + start))"

section \<open>Ranges of numbers\<close>

datatype range_error = BadNumber num_error | BadRange

text \<open>\<open>int64\<close> addition, with its wrap-around.\<close>

definition wrap64 :: "int \<Rightarrow> int" where
  "wrap64 i = (i + 2 ^ 63) mod 2 ^ 64 - 2 ^ 63"

text \<open>
  The loop \<open>for i := min; i <= max; i++\<close>; its counter is an \<open>int64\<close>, so it does not end
  when \<open>max\<close> is the greatest \<open>int64\<close>. \<open>None\<close>: the loop never returns.
\<close>

partial_function (option) range_loop :: "int \<Rightarrow> int \<Rightarrow> int list \<Rightarrow> int list option" where
  "range_loop i mx numbers =
     (if i \<le> mx then range_loop (wrap64 (i + 1)) mx (numbers @ [i]) else Some numbers)"

text \<open>
  One element of the comma-separated list: the numbers collected so far and the error,
  as the named results of the Go function carry both.
\<close>

definition parse_range :: "string \<Rightarrow> int list \<Rightarrow> (int list \<times> range_error option) option" where
  "parse_range numRangeStr numbers =
     (case go_split (CHR ''-'') numRangeStr of
        [a] \<Rightarrow>
          (case parse_int (trim_space a) of
             (_, Some e) \<Rightarrow> Some (numbers, Some (BadNumber e))
           | (n, None) \<Rightarrow> Some (numbers @ [n], None))
      | [a, b] \<Rightarrow>
          (case parse_int (trim_space a) of
             (_, Some e) \<Rightarrow> Some (numbers, Some (BadNumber e))
           | (mn, None) \<Rightarrow>
               (case parse_int (trim_space b) of
                  (_, Some e) \<Rightarrow> Some (numbers, Some (BadNumber e))
                | (mx, None) \<Rightarrow>
                    if mx < mn then Some (numbers, Some BadRange)
                    else map_option (\<lambda>ns. (ns, None)) (range_loop mn mx numbers)))
      | _ \<Rightarrow> Some (numbers, Some BadRange))"

fun parse_ranges :: "string list \<Rightarrow> int list \<Rightarrow> (int list \<times> range_error option) option" where
  "parse_ranges [] numbers = Some (numbers, None)"
| "parse_ranges (r # rs) numbers =
     (case parse_range r numbers of
        None \<Rightarrow> None
      | Some (ns, Some e) \<Rightarrow> Some (ns, Some e)
      | Some (ns, None) \<Rightarrow> parse_ranges rs ns)"

definition ParseRangeNumbers :: "string \<Rightarrow> (int list \<times> range_error option) option" where
  "ParseRangeNumbers rangeStr = parse_ranges (go_split (CHR '','') (trim_space rangeStr)) []"

definition GenerateResponseErrorString :: "string \<Rightarrow> string \<Rightarrow> bool \<Rightarrow> string" where
  "GenerateResponseErrorString summary err detailed = (if detailed then err else summary)"

section \<open>Versions\<close>

definition version_Full :: string where
  "version_Full = ''ChmlFrp-0.51.2_251023''"

definition getSubVersion :: "string \<Rightarrow> nat \<Rightarrow> int" where
  "getSubVersion v position =
     (let arr = go_split (CHR ''.'') v in
      if length arr < 3 then 0 else fst (parse_int (arr ! position)))"

definition Proto :: "string \<Rightarrow> int" where "Proto v = getSubVersion v 0"

definition Major :: "string \<Rightarrow> int" where "Major v = getSubVersion v 1"

definition Minor :: "string \<Rightarrow> int" where "Minor v = getSubVersion v 2"

definition LessThan :: "string \<Rightarrow> string \<Rightarrow> bool" where
  "LessThan client server =
     (if Proto client > Proto server then False
      else if Proto client < Proto server then True
      else if Major client > Major server then False
      else if Major client < Major server then True
      else if Minor client > Minor server then False
      else if Minor client < Minor server then True
      else False)"

text \<open>\<open>Compat\<close>, without the text of its message.\<close>

definition Compat :: "string \<Rightarrow> bool" where
  "Compat client = (\<not> LessThan client ''0.18.0'')"

section \<open>Splitting and joining of host and port\<close>

lemma index_of_append [go_lib]: "c \<notin> set a \<Longrightarrow> index_of c (a @ c # b) = Some (length a)"
  by (induction a) auto

lemma last_index_of_append [go_lib]:
  "c \<notin> set b \<Longrightarrow> last_index_of c (a @ c # b) = Some (length a)"
  by (simp add: last_index_of_def index_of_append)

lemma last_index_of_bracketed:
  "CHR '':'' \<notin> set p \<Longrightarrow> last_index_of (CHR '':'') (CHR ''['' # h @ CHR '']'' # CHR '':'' # p)
     = Some (Suc (Suc (length h)))"
  using last_index_of_append [of "CHR '':''" p "CHR ''['' # h @ '']''"] by simp

abbreviation plain_host :: "string \<Rightarrow> bool" where
  "plain_host h \<equiv> CHR ''['' \<notin> set h \<and> CHR '']'' \<notin> set h"

abbreviation plain_port :: "string \<Rightarrow> bool" where
  "plain_port p \<equiv> CHR ''['' \<notin> set p \<and> CHR '']'' \<notin> set p \<and> CHR '':'' \<notin> set p"

lemma split_join_lemma:
  assumes "plain_host h" and "plain_port p"
  shows "split_host_port (join_host_port h p) = Inr (h, p)"
proof (cases "CHR '':'' \<in> set h")
  case True
  with assms show ?thesis
    by (simp add: join_host_port_def split_host_port_def last_index_of_bracketed
        index_of_append Let_def)
next
  case False
  moreover have "\<not> has_prefix (h @ CHR '':'' # p) ''[''"
    using assms by (cases h) auto
  moreover have "last_index_of (CHR '':'') (h @ CHR '':'' # p) = Some (length h)"
    using assms by (simp add: last_index_of_append)
  ultimately show ?thesis
    using assms by (simp add: join_host_port_def split_host_port_def Let_def)
qed

lemma lower_char_keep:
  "c \<in> {CHR ''['', CHR '']'', CHR '':''} \<Longrightarrow> lower_char d = c \<longleftrightarrow> d = c"
proof -
  assume c: "c \<in> {CHR ''['', CHR '']'', CHR '':''}"
  have "of_char (lower_char d) = (if 65 \<le> (of_char d :: nat) \<and> of_char d \<le> (90 :: nat)
      then of_char d + 32 else of_char d :: nat)"
    by (simp add: lower_char_def Let_def of_char_of)
  moreover have "(of_char c :: nat) \<in> {91, 93, 58}" using c by auto
  ultimately have "(of_char (lower_char d) :: nat) = of_char c \<longleftrightarrow> (of_char d :: nat) = of_char c"
    by (auto split: if_splits)
  then show ?thesis by simp
qed

lemma to_lower_mem:
  "c \<in> {CHR ''['', CHR '']'', CHR '':''} \<Longrightarrow> c \<in> set (to_lower s) \<longleftrightarrow> c \<in> set s"
proof -
  assume c: "c \<in> {CHR ''['', CHR '']'', CHR '':''}"
  have "c \<in> set (to_lower s) \<longleftrightarrow> (\<exists>d \<in> set s. lower_char d = c)"
    by (auto simp: to_lower_def)
  then show ?thesis by (simp only: lower_char_keep [OF c]) blast
qed

lemma lower_char_punct [simp]:
  "lower_char CHR ''['' = CHR ''[''" "lower_char CHR '']'' = CHR '']''"
  "lower_char CHR '':'' = CHR '':''"
  by (simp_all add: lower_char_def)

lemma to_lower_join: "to_lower (join_host_port h p) = join_host_port (to_lower h) (to_lower p)"
  using to_lower_mem [of "CHR '':''" h] by (simp add: join_host_port_def) (simp add: to_lower_def)

lemma hasPort_join: "CHR '':'' \<notin> set p \<Longrightarrow> hasPort (join_host_port h p)"
proof (cases "CHR '':'' \<in> set h")
  case True
  have "go_contains (CHR ''['' # h @ CHR '']'' # CHR '':'' # p) '']:''"
    unfolding go_contains_iff by (rule exI [of _ "CHR ''['' # h"]) simp
  with True show ?thesis by (simp add: hasPort_def join_host_port_def Let_def)
next
  case False
  assume "CHR '':'' \<notin> set p"
  with False have "count_list (h @ CHR '':'' # p) (CHR '':'') = 1"
    by (simp add: count_notin)
  with False show ?thesis by (simp add: hasPort_def join_host_port_def)
qed

lemma CanonicalHost_join:
  assumes "plain_host h" and "plain_port p"
  shows "CanonicalHost (join_host_port h p) = Inr (trim_suffix (to_lower h) ''.'')"
proof -
  have "hasPort (join_host_port (to_lower h) (to_lower p))"
    using assms(2) by (intro hasPort_join) (simp add: to_lower_mem)
  moreover have "split_host_port (join_host_port (to_lower h) (to_lower p)) = Inr (to_lower h, to_lower p)"
    using assms by (intro split_join_lemma) (simp_all add: to_lower_mem)
  ultimately show ?thesis by (simp add: CanonicalHost_def to_lower_join Let_def)
qed

section \<open>Hexadecimal identifiers\<close>

lemma length_hex_encode [simp]: "length (hex_encode bs) = 2 * length bs"
  by (induction bs) auto

lemma hex_encode_alphabet:
  "\<forall>b \<in> set bs. b < 256 \<Longrightarrow> c \<in> set (hex_encode bs) \<Longrightarrow> \<exists>d<16. c = hex_digit d"
proof (induction bs)
  case (Cons b bs)
  then have "b div 16 < 16" "b mod 16 < 16" by auto
  with Cons show ?case by (auto simp del: mod_less_divisor)
qed simp

lemma hex_digits: "map hex_digit [0..<16] = ''0123456789abcdef''"
  by code_simp

lemma RandIDWithLen_ok:
  assumes "\<And>n b. rand n = Some b \<Longrightarrow> length b = n \<and> (\<forall>x \<in> set b. x < 256)"
    and "RandIDWithLen rand n = Some s"
  shows "length s = nat n \<and> (\<forall>c \<in> set s. \<exists>d<16. c = hex_digit d)"
proof (cases "n \<le> 0")
  case True
  with assms(2) show ?thesis by (simp add: RandIDWithLen_def)
next
  case False
  with assms(2) obtain b where b: "rand (nat (n div 2 + 1)) = Some b"
    and s: "s = take (nat n) (hex_encode b)"
    by (auto simp: RandIDWithLen_def split: option.splits)
  from assms(1) [OF b] have len: "length b = nat (n div 2 + 1)" and "\<forall>x \<in> set b. x < 256" by auto
  moreover from False have "nat n \<le> 2 * nat (n div 2 + 1)" by linarith
  ultimately show ?thesis
    using hex_encode_alphabet [of b] by (auto simp: s dest: in_set_takeD)
qed

section \<open>Ranges\<close>

lemma wrap64_id: "min_int64 \<le> i \<Longrightarrow> i \<le> max_int64 \<Longrightarrow> wrap64 i = i"
  by (simp add: wrap64_def)

lemma wrap64_max: "wrap64 (max_int64 + 1) = min_int64"
  by (simp add: wrap64_def)

lemma range_loop_ok:
  assumes "mx < max_int64" and "min_int64 \<le> i"
  shows "range_loop i mx numbers = Some (numbers @ [i..mx])"
  using assms
proof (induction "nat (mx + 1 - i)" arbitrary: i numbers)
  case 0
  then show ?case by (subst range_loop.simps) simp
next
  case (Suc n)
  then have le: "i \<le> mx" by simp
  with Suc.prems have "wrap64 (i + 1) = i + 1" by (intro wrap64_id) auto
  moreover have "range_loop (i + 1) mx (numbers @ [i]) = Some ((numbers @ [i]) @ [i + 1..mx])"
    using Suc by (intro Suc.hyps(1)) auto
  ultimately show ?case using le by (subst range_loop.simps) (simp add: upto_rec1)
qed

text \<open>The loop with the greatest \<open>int64\<close> as its bound never returns.\<close>

lemma range_loop_diverges: "i \<le> max_int64 \<Longrightarrow> range_loop i max_int64 numbers = None"
proof (rule ccontr)
  assume le: "i \<le> max_int64" and "range_loop i max_int64 numbers \<noteq> None"
  then obtain r where r: "range_loop i max_int64 numbers = Some r" by blast
  have "i \<le> max_int64 \<longrightarrow> max_int64 \<noteq> max_int64"
  proof (rule range_loop.raw_induct [where P = "\<lambda>i mx _ _. i \<le> max_int64 \<longrightarrow> mx \<noteq> max_int64", OF _ r])
    fix f :: "int \<Rightarrow> int \<Rightarrow> int list \<Rightarrow> int list option" and i mx numbers y
    assume IH: "\<And>i mx numbers y. f i mx numbers = Some y \<Longrightarrow> i \<le> max_int64 \<longrightarrow> mx \<noteq> max_int64"
      and eq: "(if i \<le> mx then f (wrap64 (i + 1)) mx (numbers @ [i]) else Some numbers) = Some y"
    show "i \<le> max_int64 \<longrightarrow> mx \<noteq> max_int64"
    proof (rule impI, rule notI)
      assume i: "i \<le> max_int64" and mx: "mx = max_int64"
      with eq have "f (wrap64 (i + 1)) mx (numbers @ [i]) = Some y" by simp
      moreover have "wrap64 (i + 1) \<le> max_int64"
        unfolding wrap64_def by (simp add: pos_mod_bound [of "2 ^ 64"])
      ultimately show False using IH mx by blast
    qed
  qed
  with le show False by simp
qed

lemma parse_int_no_minus: "CHR ''-'' \<notin> set s \<Longrightarrow> parse_int s = (n, None) \<Longrightarrow> 0 \<le> n \<and> n \<le> max_int64"
  by (auto simp: parse_int_def parse_sign_def Let_def
      split: list.splits if_splits sum.splits num_error.splits)

lemma set_strip_runes: "set (strip_runes n rs s) \<subseteq> set s"
  by (induction n rs s rule: strip_runes.induct) (auto split: option.splits dest: in_set_dropD)

lemma set_trim_space: "set (trim_space s) \<subseteq> set s"
proof -
  have "set (trim_right_space t) \<subseteq> set t" for t
    using set_strip_runes [of _ _ "rev t"] by (simp add: trim_right_space_def)
  then show ?thesis
    unfolding trim_space_def trim_left_space_def using set_strip_runes by (rule order_trans)
qed

lemma parse_range_nonneg:
  assumes "parse_range r ns = Some (ns', None)" and "\<forall>n \<in> set ns. 0 \<le> n \<and> n \<le> max_int64"
  shows "\<forall>n \<in> set ns'. 0 \<le> n \<and> n \<le> max_int64"
proof -
  have nn: "0 \<le> i \<and> i \<le> max_int64"
    if "a \<in> set (go_split (CHR ''-'') r)" "parse_int (trim_space a) = (i, None)" for a i
    using that go_split_parts [OF that(1)] set_trim_space [of a]
    by (intro parse_int_no_minus [OF _ that(2)]) blast
  show ?thesis
  proof (cases "go_split (CHR ''-'') r" rule: remdups_adj.cases)
    case 1
    then show ?thesis by simp
  next
    case (2 a)
    with assms nn show ?thesis
      by (auto simp: parse_range_def split: prod.splits option.splits)
  next
    case (3 a b cs)
    have cs: "cs = []"
      using assms(1) 3 by (cases cs) (auto simp: parse_range_def)
    with assms(1) 3 obtain mn mx where p: "parse_int (trim_space a) = (mn, None)"
      "parse_int (trim_space b) = (mx, None)" "mn \<le> mx" "range_loop mn mx ns = Some ns'"
      by (auto simp: parse_range_def split: prod.splits option.splits if_splits)
    then have b: "0 \<le> mn" "mx \<le> max_int64" using nn [of a mn] nn [of b mx] 3 cs by auto
    moreover have "mx \<noteq> max_int64" using range_loop_diverges [of mn ns] p b by auto
    ultimately have "ns' = ns @ [mn..mx]" using range_loop_ok [of mx mn ns] p by auto
    with assms(2) b show ?thesis by auto
  qed
qed

lemma parse_ranges_nonneg:
  "parse_ranges rs ns = Some (ns', None) \<Longrightarrow> \<forall>n \<in> set ns. 0 \<le> n \<and> n \<le> max_int64 \<Longrightarrow>
     \<forall>n \<in> set ns'. 0 \<le> n \<and> n \<le> max_int64"
proof (induction rs arbitrary: ns)
  case (Cons r rs)
  from Cons.prems(1) obtain ns1 where
    r1: "parse_range r ns = Some (ns1, None)" and r2: "parse_ranges rs ns1 = Some (ns', None)"
    by (auto split: option.splits prod.splits)
  show ?case by (rule Cons.IH [OF r2 parse_range_nonneg [OF r1 Cons.prems(2)]])
qed simp

text \<open>Printing of ranges, the inverse of the parser on them.\<close>

definition show_range :: "nat \<times> nat \<Rightarrow> string" where
  "show_range lh = (case lh of (lo, hi) \<Rightarrow>
     if lo = hi then show_nat lo else show_nat lo @ ''-'' @ show_nat hi)"

lemma digit_char_neq: "d < 10 \<Longrightarrow> of_char c < (48 :: nat) \<or> of_char c > (57 :: nat) \<Longrightarrow> digit_char d \<noteq> c"
  using of_char_digit [of d] by force

lemma show_nat_no_sep: "of_char c < (48 :: nat) \<or> of_char c > (57 :: nat) \<Longrightarrow> c \<notin> set (show_nat n)"
  using set_show_nat digit_char_neq by blast

lemma strip_runes_noop:
  assumes "s \<noteq> []" and "\<forall>r \<in> set rs. r \<noteq> [] \<and> hd r \<noteq> hd s"
  shows "strip_runes n rs s = s"
proof -
  have "\<forall>r \<in> set rs. \<not> has_prefix s r"
    using assms by (auto simp: has_prefix_iff prefix_def)
  then have "find (has_prefix s) rs = None" by (simp add: find_None_iff)
  then show ?thesis by (cases n) auto
qed

lemma trim_space_noop:
  assumes "s \<noteq> []" and "\<exists>d<10. hd s = digit_char d" and "\<exists>d<10. last s = digit_char d"
  shows "trim_space s = s"
proof -
  have "\<forall>r \<in> set space_runes. r \<noteq> [] \<and> (of_char (hd r) < (48 :: nat) \<or> of_char (hd r) > (57 :: nat))"
    "\<forall>r \<in> set (map rev space_runes). r \<noteq> [] \<and> (of_char (hd r) < (48 :: nat) \<or> of_char (hd r) > (57 :: nat))"
    by (simp_all add: space_runes_def)
  then have hd_dig: "\<forall>r \<in> set space_runes. r \<noteq> [] \<and> hd r \<noteq> digit_char d"
    "\<forall>r \<in> set (map rev space_runes). r \<noteq> [] \<and> hd r \<noteq> digit_char d" if "d < 10" for d
    using digit_char_neq [OF that] by metis+
  then have "trim_left_space s = s"
    unfolding trim_left_space_def using assms by (intro strip_runes_noop) auto
  moreover have "strip_runes n (map rev space_runes) (rev s) = rev s" for n
    using hd_dig assms by (intro strip_runes_noop) (auto simp: hd_rev)
  ultimately show ?thesis by (simp add: trim_space_def trim_right_space_def)
qed

lemma show_nat_ends: "\<exists>d<10. hd (show_nat n) = digit_char d" "\<exists>d<10. last (show_nat n) = digit_char d"
  using set_show_nat [of _ n] by auto

lemma trim_space_show_nat [simp]: "trim_space (show_nat n) = show_nat n"
  by (rule trim_space_noop) (simp_all add: show_nat_ends)

lemma parse_int_show_nat [simp]: "n < 2 ^ 63 \<Longrightarrow> parse_int (show_nat n) = (int n, None)"
  using parse_int_show_int [of "int n"] by (simp add: show_int_def)

lemma go_split_range: "lo \<noteq> hi \<Longrightarrow> go_split (CHR ''-'') (show_nat lo @ ''-'' @ show_nat hi) = [show_nat lo, show_nat hi]"
  using go_split_append_sep [of "CHR ''-''" "show_nat lo" "show_nat hi"]
    go_split_no_sep [of "CHR ''-''" "show_nat hi"] by (simp add: show_nat_no_sep)

lemma parse_range_show:
  assumes "lo \<le> hi" and "hi < 2 ^ 63 - 1"
  shows "parse_range (show_range (lo, hi)) ns = Some (ns @ [int lo..int hi], None)"
proof (cases "lo = hi")
  case True
  have "go_split (CHR ''-'') (show_nat lo) = [show_nat lo]"
    by (rule go_split_no_sep) (simp add: show_nat_no_sep)
  with True assms show ?thesis by (simp add: parse_range_def show_range_def)
next
  case False
  have "range_loop (int lo) (int hi) ns = Some (ns @ [int lo..int hi])"
    using assms by (intro range_loop_ok) auto
  then show ?thesis
    using False assms go_split_range [OF False] by (simp add: parse_range_def show_range_def)
qed

lemma parse_ranges_show:
  "\<forall>(lo, hi) \<in> set rs. lo \<le> hi \<and> hi < 2 ^ 63 - 1 \<Longrightarrow>
   parse_ranges (map show_range rs) ns = Some (ns @ concat (map (\<lambda>(lo, hi). [int lo..int hi]) rs), None)"
proof (induction rs arbitrary: ns)
  case (Cons r rs)
  obtain lo hi where r: "r = (lo, hi)" by (cases r)
  with Cons.prems have "parse_range (show_range r) ns = Some (ns @ [int lo..int hi], None)"
    using parse_range_show by simp
  with Cons r show ?case by simp
qed simp

lemma show_range_no_comma: "CHR '','' \<notin> set (show_range r)"
  by (cases r) (simp add: show_range_def show_nat_no_sep)

lemma show_range_ends:
  "show_range r \<noteq> []" "\<exists>d<10. hd (show_range r) = digit_char d" "\<exists>d<10. last (show_range r) = digit_char d"
  by (cases r; simp add: show_range_def show_nat_ends)+

lemma go_join_range_ends:
  assumes "rs \<noteq> []"
  shows "go_join '','' (map show_range rs) \<noteq> []"
    "\<exists>d<10. hd (go_join '','' (map show_range rs)) = digit_char d"
    "\<exists>d<10. last (go_join '','' (map show_range rs)) = digit_char d"
proof -
  have "go_join '','' (map show_range rs) \<noteq> [] \<and>
    (\<exists>d<10. hd (go_join '','' (map show_range rs)) = digit_char d) \<and>
    (\<exists>d<10. last (go_join '','' (map show_range rs)) = digit_char d)"
    using assms
  proof (induction rs rule: list_nonempty_induct)
    case (cons r rs)
    then show ?case using show_range_ends [of r] by (cases rs) auto
  qed (use show_range_ends in auto)
  then show "go_join '','' (map show_range rs) \<noteq> []"
    "\<exists>d<10. hd (go_join '','' (map show_range rs)) = digit_char d"
    "\<exists>d<10. last (go_join '','' (map show_range rs)) = digit_char d" by blast+
qed

section \<open>Order of versions\<close>

definition show_version :: "nat \<Rightarrow> nat \<Rightarrow> nat \<Rightarrow> string" where
  "show_version p M m = show_nat p @ ''.'' @ show_nat M @ ''.'' @ show_nat m"

definition version_key :: "string \<Rightarrow> int \<times> int \<times> int" where
  "version_key v = (Proto v, Major v, Minor v)"

lemma LessThan_lex:
  "LessThan a b \<longleftrightarrow> (version_key a, version_key b) \<in>
     {(x, y). x < y} <*lex*> {(x, y). x < y} <*lex*> {(x, y). x < y}"
  by (auto simp: LessThan_def version_key_def)

lemma getSubVersion_show:
  assumes "p < 2 ^ 63" "M < 2 ^ 63" "m < 2 ^ 63"
  shows "version_key (show_version p M m) = (int p, int M, int m)"
proof -
  have "go_split (CHR ''.'') (go_join ''.'' [show_nat p, show_nat M, show_nat m]) =
      [show_nat p, show_nat M, show_nat m]"
    by (rule go_split_join) (auto simp: show_nat_no_sep)
  then show ?thesis
    using assms by (simp add: show_version_def version_key_def Proto_def Major_def Minor_def getSubVersion_def)
qed

section \<open>Properties\<close>

text \<open>
  (C21) The parser of number ranges inverts their printing: for every list of ranges within
  \<open>int64\<close> (its greatest value excluded) \<open>ParseRangeNumbers\<close> returns, without error, the
  numbers of the ranges in their order.
\<close>

theorem ParseRangeNumbers_roundtrip:
  assumes "rs \<noteq> []" and "\<forall>(lo, hi) \<in> set rs. lo \<le> hi \<and> hi < 2 ^ 63 - 1"
  shows "ParseRangeNumbers (go_join '','' (map show_range rs)) =
    Some (concat (map (\<lambda>(lo, hi). [int lo..int hi]) rs), None)"
proof -
  have "trim_space (go_join '','' (map show_range rs)) = go_join '','' (map show_range rs)"
    using assms(1) by (intro trim_space_noop go_join_range_ends) auto
  moreover have "go_split (CHR '','') (go_join '','' (map show_range rs)) = map show_range rs"
    using assms(1) by (intro go_split_join) (auto simp: show_range_no_comma)
  ultimately show ?thesis using parse_ranges_show [OF assms(2), of "[]"] by (simp add: ParseRangeNumbers_def)
qed

theorem ParseRangeNumbers_roundtrip_witness:
  "ParseRangeNumbers (go_join '','' (map show_range [(1000, 1002), (80, 80)])) =
    Some (concat (map (\<lambda>(lo, hi). [int lo..int hi]) [(1000, 1002), (80, 80)]), None)"
  by (rule ParseRangeNumbers_roundtrip) simp_all

text \<open>
  (C22) A range that ends at the greatest \<open>int64\<close> makes \<open>ParseRangeNumbers\<close> loop forever:
  the counter wraps around before it can exceed the bound.
\<close>

theorem ParseRangeNumbers_diverges:
  assumes "lo < 2 ^ 63 - 1"
  shows "ParseRangeNumbers (show_range (lo, 2 ^ 63 - 1)) = None"
proof -
  let ?hi = "2 ^ 63 - 1 :: nat"
  have "trim_space (show_range (lo, ?hi)) = show_range (lo, ?hi)"
    using go_join_range_ends [of "[(lo, ?hi)]"] by (intro trim_space_noop) simp_all
  moreover have "go_split (CHR '','') (show_range (lo, ?hi)) = [show_range (lo, ?hi)]"
    by (rule go_split_no_sep) (rule show_range_no_comma)
  moreover have "parse_range (show_range (lo, ?hi)) [] = None"
    using assms range_loop_diverges [of "int lo" "[]"] go_split_range [of lo ?hi]
    by (simp add: parse_range_def show_range_def)
  ultimately show ?thesis by (simp add: ParseRangeNumbers_def)
qed

theorem ParseRangeNumbers_diverges_witness:
  "ParseRangeNumbers (show_range (6000, 2 ^ 63 - 1)) = None"
  by (rule ParseRangeNumbers_diverges) simp

text \<open>
  \<open>CanonicalHost\<close> undoes \<open>net.JoinHostPort\<close>: for a host and port without brackets, and
  a port without colon, the joined address splits into its two parts again, and its
  canonical host is the host in lower case without a final dot.
\<close>

theorem CanonicalHost_of_address:
  assumes "plain_host h" and "plain_port p"
  shows "split_host_port (join_host_port h p) = Inr (h, p) \<and>
    CanonicalHost (join_host_port h p) = Inr (trim_suffix (to_lower h) ''.'')"
  using split_join_lemma [OF assms] CanonicalHost_join [OF assms] by (rule conjI)

theorem CanonicalHost_of_address_witness:
  "split_host_port (join_host_port ''Frp.Example.COM.'' ''8080'') = Inr (''Frp.Example.COM.'', ''8080'') \<and>
   CanonicalHost (join_host_port ''Frp.Example.COM.'' ''8080'') =
     Inr (trim_suffix (to_lower ''Frp.Example.COM.'') ''.'')"
  by (rule CanonicalHost_of_address) simp_all

text \<open>
  \<open>LessThan\<close> compares printed versions \<open>p.M.m\<close> as triples of numbers, in lexicographic
  order; it is a strict weak order on all strings (irreflexive, transitive, and
  incomparability is transitive).
\<close>

theorem LessThan_version_order:
  "(\<forall>p M m p' M' m'. p < 2 ^ 63 \<and> M < 2 ^ 63 \<and> m < 2 ^ 63 \<and> p' < 2 ^ 63 \<and> M' < 2 ^ 63 \<and> m' < 2 ^ 63 \<longrightarrow>
      LessThan (show_version p M m) (show_version p' M' m') =
        (p < p' \<or> p = p' \<and> (M < M' \<or> M = M' \<and> m < m'))) \<and>
   \<not> LessThan a a \<and>
   (LessThan a b \<and> LessThan b c \<longrightarrow> LessThan a c) \<and>
   (\<not> LessThan a b \<and> \<not> LessThan b c \<longrightarrow> \<not> LessThan a c)"
proof (intro conjI allI impI)
  fix p M m p' M' m' :: nat
  assume "p < 2 ^ 63 \<and> M < 2 ^ 63 \<and> m < 2 ^ 63 \<and> p' < 2 ^ 63 \<and> M' < 2 ^ 63 \<and> m' < 2 ^ 63"
  then show "LessThan (show_version p M m) (show_version p' M' m') =
      (p < p' \<or> p = p' \<and> (M < M' \<or> M = M' \<and> m < m'))"
    unfolding LessThan_lex by (simp add: getSubVersion_show)
qed (auto simp: LessThan_lex version_key_def)

theorem LessThan_version_order_witness:
  "LessThan (show_version 0 18 0) (show_version 0 51 2) \<and>
   \<not> LessThan (show_version 0 51 2) (show_version 0 18 0)"
  using conjunct1 [OF LessThan_version_order, THEN spec, THEN spec, THEN spec, THEN spec, THEN spec,
      THEN spec, of 0 18 0 0 51 2]
    conjunct1 [OF LessThan_version_order, THEN spec, THEN spec, THEN spec, THEN spec, THEN spec,
      THEN spec, of 0 51 2 0 18 0] by simp

text \<open>
  The version string of this fork is not of the form \<open>p.M.m\<close>: its protocol and minor
  parts read as 0, so that a plain \<open>0.51.1\<close>, an older release, does not count as older.
\<close>

theorem own_version_unordered:
  "Proto version_Full = 0 \<and> Major version_Full = 51 \<and> Minor version_Full = 0 \<and>
   \<not> LessThan ''0.51.1'' version_Full"
  by (simp add: LessThan_def Proto_def Major_def Minor_def getSubVersion_def version_Full_def
      parse_int_def parse_sign_def digit_val_def Let_def)

text \<open>
  Identifiers are as long as asked for and hexadecimal, if the random source returns as
  many bytes as it is asked for.
\<close>

theorem RandID_hex:
  assumes "\<And>n b. rand n = Some b \<Longrightarrow> length b = n \<and> (\<forall>x \<in> set b. x < 256)"
    and "RandID rand = Some s"
  shows "length s = 16 \<and> set s \<subseteq> set ''0123456789abcdef''"
proof -
  from RandIDWithLen_ok [OF assms(1)] assms(2)
  have s: "length s = 16" "\<forall>c \<in> set s. \<exists>d<16. c = hex_digit d" by (auto simp: RandID_def)
  then have "set s \<subseteq> set (map hex_digit [0..<16])" by fastforce
  then show ?thesis using s(1) unfolding hex_digits by (intro conjI)
qed

theorem RandID_hex_witness:
  "length ''abababababababab'' = 16 \<and> set ''abababababababab'' \<subseteq> set ''0123456789abcdef''"
proof (rule RandID_hex [of "\<lambda>n. Some (replicate n 171)"])
  show "RandID (\<lambda>n. Some (replicate n 171)) = Some ''abababababababab''" by code_simp
qed auto

end
