(* ===== verification/Frp_Vhost.thy ===== *)
theory Frp_Vhost
  imports Frp_Router Frp_Util
begin

text \<open>
  The users of the route index: the HTTP reverse proxy of \<open>pkg/util/vhost/http.go\<close>
  (registration, host lookup with wildcards, access check, choice of the connection
  function, the URL host that keys the connection pool, the request handler) and the
  listener lookup of the HTTPS and TCP multiplexers of \<open>pkg/util/vhost/vhost.go\<close>.
  The network transport, the copying of bytes and the logging are not modelled.
\<close>

section \<open>Route configurations\<close>

text \<open>
  The connection functions of a route are closures of a proxy or of a group; they are
  represented by what they close over: the name of the proxy, or the reference of the
  group.
\<close>

datatype create_conn_fn = ProxyRealConn string | GroupCreateConn nat
datatype choose_endpoint_fn = GroupChooseEndpoint nat
datatype create_conn_by_endpoint_fn = GroupCreateConnByEndpoint nat

record route_config =
  rc_Domain :: string
  rc_Location :: string
  rc_RewriteHost :: string
  rc_Username :: string
  rc_Password :: string
  rc_Headers :: "(string \<times> string) list"
  rc_RouteByHTTPUser :: string
  rc_CreateConnFn :: "create_conn_fn option"
  rc_ChooseEndpointFn :: "choose_endpoint_fn option"
  rc_CreateConnByEndpointFn :: "create_conn_by_endpoint_fn option"

record request_route_info =
  ri_URL :: string
  ri_Host :: string
  ri_HTTPUser :: string
  ri_RemoteAddr :: string
  ri_URLHost :: string
  ri_Endpoint :: string

type_synonym vhost_router = "route_config routers"

definition rp_Register :: "vhost_router \<Rightarrow> route_config \<Rightarrow> vhost_router \<times> router_error option" where
  "rp_Register r cfg = routers_Add r (rc_Domain cfg) (rc_Location cfg) (rc_RouteByHTTPUser cfg) cfg"

definition rp_UnRegister :: "vhost_router \<Rightarrow> route_config \<Rightarrow> vhost_router" where
  "rp_UnRegister r cfg = routers_Del r (rc_Domain cfg) (rc_Location cfg) (rc_RouteByHTTPUser cfg)"

section \<open>Lookup by host name\<close>

text \<open>
  The local function \<open>findRouter\<close>: the route of the user, else the route that names no
  user. A result \<open>(vr, true)\<close> is \<open>Some vr\<close>.
\<close>

definition found :: "'p router option \<times> bool \<Rightarrow> 'p router option" where
  "found res = (if snd res then fst res else None)"

definition findRouter :: "'p routers \<Rightarrow> string \<Rightarrow> string \<Rightarrow> string \<Rightarrow> 'p router option" where
  "findRouter r inDomain inLocation inUser =
     (case found (routers_Get r inDomain inLocation inUser) of
        Some vr \<Rightarrow> Some vr
      | None \<Rightarrow> found (routers_Get r inDomain inLocation ''''))"

text \<open>The \<open>for\<close> loop over the labels of the domain.\<close>

function wildcard_loop :: "(string \<Rightarrow> 'a option) \<Rightarrow> string list \<Rightarrow> 'a option" where
  "wildcard_loop findR domainSplit =
     (if length domainSplit < 3 then None
      else let domainSplit = ''*'' # tl domainSplit in
        (case findR (go_join ''.'' domainSplit) of
           Some vr \<Rightarrow> Some vr
         | None \<Rightarrow> wildcard_loop findR (tl domainSplit)))"
  by pat_completeness auto
termination
  by (relation "measure (\<lambda>(_, ds). length ds)") auto

declare wildcard_loop.simps [simp del]

definition getVhost :: "'p routers \<Rightarrow> string \<Rightarrow> string \<Rightarrow> string \<Rightarrow> 'p router option" where
  "getVhost r domain location routeByHTTPUser =
     (case findRouter r domain location routeByHTTPUser of
        Some vr \<Rightarrow> Some vr
      | None \<Rightarrow>
          (case wildcard_loop (\<lambda>d. findRouter r d location routeByHTTPUser)
                  (go_split (CHR ''.'') domain) of
             Some vr \<Rightarrow> Some vr
           | None \<Rightarrow> findRouter r ''*'' location routeByHTTPUser))"

text \<open>
  \<open>Muxer.getListener\<close>: the same search, written out a second time, over payloads.
\<close>

definition muxerFindRouter :: "'l routers \<Rightarrow> string \<Rightarrow> string \<Rightarrow> string \<Rightarrow> 'l option" where
  "muxerFindRouter r inName inPath inHTTPUser =
     (case found (routers_Get r inName inPath inHTTPUser) of
        Some vr \<Rightarrow> Some (rt_payload vr)
      | None \<Rightarrow>
          (case found (routers_Get r inName inPath '''') of
             Some vr \<Rightarrow> Some (rt_payload vr)
           | None \<Rightarrow> None))"

definition getListener :: "'l routers \<Rightarrow> string \<Rightarrow> string \<Rightarrow> string \<Rightarrow> 'l option" where
  "getListener r name path httpUser =
     (case muxerFindRouter r name path httpUser of
        Some l \<Rightarrow> Some l
      | None \<Rightarrow>
          (case wildcard_loop (\<lambda>n. muxerFindRouter r n path httpUser) (go_split (CHR ''.'') name) of
             Some l \<Rightarrow> Some l
           | None \<Rightarrow> muxerFindRouter r ''*'' path httpUser))"

section \<open>The reverse proxy\<close>

definition GetRouteConfig :: "vhost_router \<Rightarrow> string \<Rightarrow> string \<Rightarrow> string \<Rightarrow> route_config option" where
  "GetRouteConfig r domain location routeByHTTPUser =
     map_option rt_payload (getVhost r domain location routeByHTTPUser)"

definition GetHeaders :: "vhost_router \<Rightarrow> string \<Rightarrow> string \<Rightarrow> string \<Rightarrow> (string \<times> string) list" where
  "GetHeaders r domain location routeByHTTPUser =
     (case getVhost r domain location routeByHTTPUser of
        Some vr \<Rightarrow> rc_Headers (rt_payload vr)
      | None \<Rightarrow> [])"

text \<open>The host of a request as the callers use it: they ignore the error.\<close>

definition canonical :: "string \<Rightarrow> string" where
  "canonical host = (case CanonicalHost host of Inl _ \<Rightarrow> '''' | Inr h \<Rightarrow> h)"

datatype connection_call =
    CallByEndpoint create_conn_by_endpoint_fn string string
  | CallCreate create_conn_fn string
  | ErrNoRouteFound

definition CreateConnection :: "vhost_router \<Rightarrow> request_route_info \<Rightarrow> bool \<Rightarrow> connection_call" where
  "CreateConnection r info byEndpoint =
     (case getVhost r (canonical (ri_Host info)) (ri_URL info) (ri_HTTPUser info) of
        None \<Rightarrow> ErrNoRouteFound
      | Some vr \<Rightarrow>
          let cfg = rt_payload vr in
          (case (if byEndpoint then rc_CreateConnByEndpointFn cfg else None) of
             Some fn \<Rightarrow> CallByEndpoint fn (ri_Endpoint info) (ri_RemoteAddr info)
           | None \<Rightarrow>
               (case rc_CreateConnFn cfg of
                  Some fn \<Rightarrow> CallCreate fn (ri_RemoteAddr info)
                | None \<Rightarrow> ErrNoRouteFound)))"

definition CheckAuth ::
    "vhost_router \<Rightarrow> string \<Rightarrow> string \<Rightarrow> string \<Rightarrow> string \<Rightarrow> string \<Rightarrow> bool" where
  "CheckAuth r domain location routeByHTTPUser user passwd =
     (case getVhost r domain location routeByHTTPUser of
        Some vr \<Rightarrow>
          let checkUser = rc_Username (rt_payload vr);
              checkPasswd = rc_Password (rt_payload vr)
          in \<not> ((checkUser \<noteq> '''' \<or> checkPasswd \<noteq> '''') \<and>
                (checkUser \<noteq> user \<or> checkPasswd \<noteq> passwd))
      | None \<Rightarrow> True)"

text \<open>\<open>base64.StdEncoding.EncodeToString\<close>.\<close>

definition b64_alphabet :: string where
  "b64_alphabet = ''ABCDEFGHIJKLMNOPQRSTUVWXYZabcdefghijklmnopqrstuvwxyz0123456789+/''"

abbreviation b64_char :: "nat \<Rightarrow> char" where
  "b64_char n \<equiv> b64_alphabet ! n"

fun b64_encode :: "nat list \<Rightarrow> string" where
  "b64_encode [] = []"
| "b64_encode [a] = [b64_char (a div 4), b64_char ((a mod 4) * 16), CHR ''='', CHR ''='']"
| "b64_encode [a, b] =
     [b64_char (a div 4), b64_char ((a mod 4) * 16 + b div 16), b64_char ((b mod 16) * 4), CHR ''='']"
| "b64_encode (a # b # c # r) =
     b64_char (a div 4) # b64_char ((a mod 4) * 16 + b div 16) #
     b64_char ((b mod 16) * 4 + c div 64) # b64_char (c mod 64) # b64_encode r"

definition b64 :: "string \<Rightarrow> string" where
  "b64 s = b64_encode (map of_char s)"

text \<open>The URL host set by the \<open>Director\<close>: the key under which connections are reused.\<close>

definition director_url_host :: "route_config \<Rightarrow> string \<Rightarrow> string" where
  "director_url_host cfg endpoint =
     rc_Domain cfg @ ''.'' @ b64 (rc_Location cfg) @ ''.'' @ b64 (rc_RouteByHTTPUser cfg) @ ''.'' @
     b64 endpoint"

text \<open>
  A request as the handler reads it: \<open>rq_proxyAuth\<close> and \<open>rq_basicAuth\<close> are the user and
  password decoded from the headers \<open>Proxy-Authorization\<close> and \<open>Authorization\<close>, if they
  are present and well formed.
\<close>

record http_request =
  rq_Method :: string
  rq_Host :: string
  rq_URLPath :: string
  rq_URLHost :: string
  rq_RemoteAddr :: string
  rq_proxyAuth :: "(string \<times> string) option"
  rq_basicAuth :: "(string \<times> string) option"

definition auth_user :: "(string \<times> string) option \<Rightarrow> string" where
  "auth_user a = (case a of None \<Rightarrow> '''' | Some up \<Rightarrow> fst up)"

definition auth_passwd :: "(string \<times> string) option \<Rightarrow> string" where
  "auth_passwd a = (case a of None \<Rightarrow> '''' | Some up \<Rightarrow> snd up)"

definition injectRequestInfoToCtx :: "http_request \<Rightarrow> request_route_info" where
  "injectRequestInfoToCtx rq =
     (let user = (if rq_URLHost rq \<noteq> '''' then auth_user (rq_proxyAuth rq) else '''');
          user = (if user = '''' then auth_user (rq_basicAuth rq) else user)
      in \<lparr>ri_URL = rq_URLPath rq, ri_Host = rq_Host rq, ri_HTTPUser = user,
          ri_RemoteAddr = rq_RemoteAddr rq, ri_URLHost = rq_URLHost rq, ri_Endpoint = ''''\<rparr>)"

datatype serve_result =
    StatusUnauthorized
  | ServeConnect request_route_info
  | ServeProxy request_route_info

definition ServeHTTP :: "vhost_router \<Rightarrow> http_request \<Rightarrow> serve_result" where
  "ServeHTTP r rq =
     (let domain = canonical (rq_Host rq);
          location = rq_URLPath rq;
          user = auth_user (rq_basicAuth rq);
          passwd = auth_passwd (rq_basicAuth rq)
      in if \<not> CheckAuth r domain location user user passwd then StatusUnauthorized
         else
           let info = injectRequestInfoToCtx rq in
           if rq_Method rq = ''CONNECT'' then ServeConnect info else ServeProxy info)"

text \<open>The route whose backend a passed request reaches (\<open>Director\<close>, \<open>CreateConnection\<close>).\<close>

definition routed_to :: "vhost_router \<Rightarrow> request_route_info \<Rightarrow> route_config option" where
  "routed_to r info = GetRouteConfig r (canonical (ri_Host info)) (ri_URL info) (ri_HTTPUser info)"

fun passed_info :: "serve_result \<Rightarrow> request_route_info option" where
  "passed_info StatusUnauthorized = None"
| "passed_info (ServeConnect info) = Some info"
| "passed_info (ServeProxy info) = Some info"

section \<open>Specification of the lookup\<close>

text \<open>
  The hosts under which a route may be registered to serve a domain, best match first:
  the domain, the domain with its first labels replaced by one star as long as two
  labels remain after the star, and the star alone.
\<close>

definition vhost_candidates :: "string \<Rightarrow> string list" where
  "vhost_candidates domain =
     (let labels = go_split (CHR ''.'') domain in
      domain # map (\<lambda>i. go_join ''.'' (''*'' # drop (Suc i) labels)) [0..<length labels - 2] @ [''*''])"

fun first_some :: "('a \<Rightarrow> 'b option) \<Rightarrow> 'a list \<Rightarrow> 'b option" where
  "first_some f [] = None"
| "first_some f (x # xs) = (case f x of Some y \<Rightarrow> Some y | None \<Rightarrow> first_some f xs)"

lemma first_some_append:
  "first_some f (xs @ ys) = (case first_some f xs of Some y \<Rightarrow> Some y | None \<Rightarrow> first_some f ys)"
  by (induction xs) (auto split: option.splits)

lemma first_some_map: "first_some f (map g xs) = first_some (\<lambda>x. f (g x)) xs"
  by (induction xs) (auto split: option.splits)

lemma first_some_cong: "(\<And>x. x \<in> set xs \<Longrightarrow> f x = g x) \<Longrightarrow> first_some f xs = first_some g xs"
  by (induction xs) (auto split: option.splits)

lemma first_some_SomeD: "first_some f xs = Some y \<Longrightarrow> \<exists>x \<in> set xs. f x = Some y"
  by (induction xs) (auto split: option.splits)

lemma first_some_None: "first_some f xs = None \<longleftrightarrow> (\<forall>x \<in> set xs. f x = None)"
  by (induction xs) (auto split: option.splits)

lemma wildcard_loop_eq:
  "wildcard_loop f ds = first_some (\<lambda>i. f (go_join ''.'' (''*'' # drop (Suc i) ds))) [0..<length ds - 2]"
proof (induction ds rule: length_induct)
  case (1 ds)
  show ?case
  proof (cases "length ds < 3")
    case True
    then show ?thesis by (subst wildcard_loop.simps) simp
  next
    case False
    then obtain d ds' where ds: "ds = d # ds'" by (cases ds) auto
    have up: "[0..<length ds - 2] = 0 # map Suc [0..<length ds' - 2]"
    proof -
      have "length ds - 2 = Suc (length ds' - 2)" using False ds by simp
      then show ?thesis by (simp add: upt_conv_Cons map_Suc_upt del: upt_Suc)
    qed
    have "wildcard_loop f ds' =
        first_some (\<lambda>i. f (go_join ''.'' (''*'' # drop (Suc i) ds'))) [0..<length ds' - 2]"
      using 1 ds by simp
    then show ?thesis
      unfolding up using False ds
      by (subst wildcard_loop.simps) (simp add: first_some_map Let_def split: option.splits)
  qed
qed

lemma getVhost_candidates:
  "getVhost r d l u = first_some (\<lambda>c. findRouter r c l u) (vhost_candidates d)"
  by (simp add: getVhost_def vhost_candidates_def Let_def wildcard_loop_eq first_some_append
      first_some_map split: option.splits)

lemma muxerFindRouter_eq: "muxerFindRouter r n p u = map_option rt_payload (findRouter r n p u)"
  by (simp add: muxerFindRouter_def findRouter_def split: option.splits)

lemma first_some_map_option: "first_some (\<lambda>x. map_option g (f x)) xs = map_option g (first_some f xs)"
  by (induction xs) (auto split: option.splits)

lemma getListener_eq_getVhost: "getListener r n p u = map_option rt_payload (getVhost r n p u)"
  by (simp add: getListener_def getVhost_def muxerFindRouter_eq wildcard_loop_eq
      first_some_map_option split: option.splits)

lemma found_Get:
  assumes "routers_inv r" and "found (routers_Get r d l u) = Some vr"
  shows "routers_Get r d l u = (Some vr, True)"
  using assms(2) by (auto simp: found_def prod_eq_iff split: if_splits)

text \<open>What the lookup returns is a registered route of a candidate host.\<close>

lemma getVhost_sound:
  assumes "routers_inv r" and "getVhost r d l u = Some vr"
  shows "\<exists>c \<in> set (vhost_candidates d). \<exists>v \<in> {u, ''''}.
    route_at r (c, rt_location vr, v) = Some (rt_payload vr) \<and> prefix (rt_location vr) l"
proof -
  from assms(2) obtain c where c: "c \<in> set (vhost_candidates d)" "findRouter r c l u = Some vr"
    by (auto simp: getVhost_candidates dest: first_some_SomeD)
  then obtain v where "v \<in> {u, ''''}" "found (routers_Get r c l v) = Some vr"
    by (auto simp: findRouter_def split: option.splits)
  with c(1) show ?thesis
    using vr.get_found [OF assms(1) found_Get [OF assms(1)]] by blast
qed

text \<open>A route for the full host name and the user decides alone.\<close>

lemma getVhost_exact:
  assumes "routers_inv r" and "prefix loc l" and "route_at r (d, loc, u) \<noteq> None"
  shows "getVhost r d l u = fst (routers_Get r d l u)" and "getVhost r d l u \<noteq> None"
proof -
  have "snd (routers_Get r d l u)" using vr.get_none [OF assms(1)] assms(2,3) by blast
  with vr.get_some [OF assms(1) this] show "getVhost r d l u = fst (routers_Get r d l u)"
    "getVhost r d l u \<noteq> None"
    by (auto simp: getVhost_def findRouter_def found_def)
qed

section \<open>Access control\<close>

definition credentials_ok :: "route_config \<Rightarrow> string \<Rightarrow> string \<Rightarrow> bool" where
  "credentials_ok cfg user passwd \<longleftrightarrow>
     (rc_Username cfg = '''' \<and> rc_Password cfg = '''') \<or> (rc_Username cfg = user \<and> rc_Password cfg = passwd)"

lemma CheckAuth_credentials:
  "CheckAuth r d l u user passwd \<longleftrightarrow>
     (\<forall>cfg. GetRouteConfig r d l u = Some cfg \<longrightarrow> credentials_ok cfg user passwd)"
  by (auto simp: CheckAuth_def GetRouteConfig_def credentials_ok_def Let_def split: option.splits)

lemma ServeHTTP_passed:
  assumes "passed_info (ServeHTTP r rq) = Some info"
  shows "info = injectRequestInfoToCtx rq"
    and "CheckAuth r (canonical (rq_Host rq)) (rq_URLPath rq) (auth_user (rq_basicAuth rq))
           (auth_user (rq_basicAuth rq)) (auth_passwd (rq_basicAuth rq))"
  using assms by (auto simp: ServeHTTP_def Let_def split: if_splits)

section \<open>The key of the connection pool\<close>

lemma length_b64_alphabet [simp]: "length b64_alphabet = 64"
  by (simp add: b64_alphabet_def)

lemma distinct_b64_alphabet: "distinct b64_alphabet"
  by (simp add: b64_alphabet_def)

lemma b64_char_inj [simp]: "i < 64 \<Longrightarrow> j < 64 \<Longrightarrow> b64_char i = b64_char j \<longleftrightarrow> i = j"
  by (simp add: nth_eq_iff_index_eq distinct_b64_alphabet)

lemma b64_char_not [simp]:
  assumes "i < 64"
  shows "b64_char i \<noteq> CHR ''=''" "CHR ''='' \<noteq> b64_char i"
    "b64_char i \<noteq> CHR ''.''" "CHR ''.'' \<noteq> b64_char i"
proof -
  have "CHR ''='' \<notin> set b64_alphabet" "CHR ''.'' \<notin> set b64_alphabet"
    by (simp_all add: b64_alphabet_def)
  moreover have "b64_char i \<in> set b64_alphabet" using assms by simp
  ultimately show "b64_char i \<noteq> CHR ''=''" "CHR ''='' \<noteq> b64_char i"
    "b64_char i \<noteq> CHR ''.''" "CHR ''.'' \<noteq> b64_char i" by metis+
qed

lemma b64_index_bounds [simp]:
  fixes a b c :: nat
  shows "a < 256 \<Longrightarrow> a div 4 < 64" "(a mod 4) * 16 < 64"
    "b < 256 \<Longrightarrow> (a mod 4) * 16 + b div 16 < 64" "(b mod 16) * 4 < 64"
    "c < 256 \<Longrightarrow> (b mod 16) * 4 + c div 64 < 64"
proof -
  have m: "a mod 4 < 4" "b mod 16 < 16" by simp_all
  show "a < 256 \<Longrightarrow> a div 4 < 64" by (simp add: less_mult_imp_div_less)
  show "(a mod 4) * 16 < 64" "(b mod 16) * 4 < 64" using m by linarith+
  show "(a mod 4) * 16 + b div 16 < 64" if "b < 256"
  proof -
    have "b div 16 < 16" using that by (simp add: less_mult_imp_div_less)
    with m show ?thesis by linarith
  qed
  show "(b mod 16) * 4 + c div 64 < 64" if "c < 256"
  proof -
    have "c div 64 < 4" using that by (simp add: less_mult_imp_div_less)
    with m show ?thesis by linarith
  qed
qed

lemma radix_unique:
  assumes "(y :: nat) < k" and "y' < k" and "x * k + y = x' * k + y'"
  shows "x = x' \<and> y = y'"
proof -
  have "(x * k + y) div k = x" "(x' * k + y') div k = x'" using assms(1,2) by simp_all
  with assms(3) show ?thesis by simp
qed

lemma b64_digits1: "(a :: nat) div 4 = a' div 4 \<Longrightarrow> a mod 4 = a' mod 4 \<Longrightarrow> a = a'"
  by (metis div_mult_mod_eq)

lemma b64_digits2:
  "(b :: nat) < 256 \<Longrightarrow> b' < 256 \<Longrightarrow> (a mod 4) * 16 + b div 16 = (a' mod 4) * 16 + b' div 16 \<Longrightarrow>
     a mod 4 = a' mod 4 \<and> b div 16 = b' div 16"
  by (rule radix_unique [where k = 16]) (simp_all add: less_mult_imp_div_less)

lemma b64_digits3: "(b :: nat) div 16 = b' div 16 \<Longrightarrow> b mod 16 = b' mod 16 \<Longrightarrow> b = b'"
  by (metis div_mult_mod_eq)

lemma b64_digits4:
  "(c :: nat) < 256 \<Longrightarrow> c' < 256 \<Longrightarrow> (b mod 16) * 4 + c div 64 = (b' mod 16) * 4 + c' div 64 \<Longrightarrow>
     b mod 16 = b' mod 16 \<and> c div 64 = c' div 64"
  by (rule radix_unique [where k = 4]) (simp_all add: less_mult_imp_div_less)

lemma b64_digits5: "(c :: nat) div 64 = c' div 64 \<Longrightarrow> c mod 64 = c' mod 64 \<Longrightarrow> c = c'"
  by (metis div_mult_mod_eq)

lemmas b64_digits = b64_digits1 b64_digits2 b64_digits3 b64_digits4 b64_digits5

lemma b64_encode_inj:
  assumes "\<forall>x \<in> set xs. x < 256" and "\<forall>x \<in> set ys. x < 256" and "b64_encode xs = b64_encode ys"
  shows "xs = ys"
  using assms
proof (induction xs arbitrary: ys rule: b64_encode.induct)
  case 1
  then show ?case by (cases ys rule: b64_encode.cases) auto
next
  case (2 a)
  then show ?case by (cases ys rule: b64_encode.cases) (auto intro: b64_digits)
next
  case (3 a b)
  then show ?case
    by (cases ys rule: b64_encode.cases) (auto dest: b64_digits2 intro: b64_digits)
next
  case (4 a b c r)
  show ?case
  proof (cases ys rule: b64_encode.cases)
    case (4 a' b' c' r')
    with "4.prems" have eqs: "a div 4 = a' div 4" "a mod 4 = a' mod 4" "b div 16 = b' div 16"
      "b mod 16 = b' mod 16" "c div 64 = c' div 64" "c mod 64 = c' mod 64"
      "b64_encode r = b64_encode r'"
      using b64_digits2 [of b b' a a'] b64_digits4 [of c c' b b'] by auto
    moreover have "r = r'" using "4.prems" 4 eqs(7) by (intro "4.IH") auto
    ultimately show ?thesis using 4 by (auto intro: b64_digits)
  qed (use "4.prems" in auto)
qed

lemma b64_no_dot: "CHR ''.'' \<notin> set (b64 s)"
proof -
  have "\<forall>x \<in> set xs. x < 256 \<Longrightarrow> CHR ''.'' \<notin> set (b64_encode xs)" for xs
    by (induction xs rule: b64_encode.induct) auto
  then show ?thesis by (simp add: b64_def)
qed

lemma b64_inj [simp]: "b64 s = b64 t \<longleftrightarrow> s = t"
proof
  assume "b64 s = b64 t"
  then have "map of_char s = (map of_char t :: nat list)"
    unfolding b64_def by (intro b64_encode_inj) auto
  then show "s = t" by (metis inj_map_eq_map inj_of_char)
qed simp

lemma last_sep_unique:
  assumes "c \<notin> set y" and "c \<notin> set z" and "x @ c # y = w @ c # z"
  shows "x = w \<and> y = z"
proof -
  have "takeWhile (\<lambda>d. d \<noteq> c) (rev (x @ c # y)) = rev y"
    using assms(1) by (auto simp: takeWhile_append2 takeWhile_tail)
  moreover have "takeWhile (\<lambda>d. d \<noteq> c) (rev (w @ c # z)) = rev z"
    using assms(2) by (auto simp: takeWhile_append2 takeWhile_tail)
  ultimately have "y = z" using assms(3) by simp
  with assms(3) show ?thesis by simp
qed

lemma director_url_host_inj:
  assumes "director_url_host c e = director_url_host c' e'"
  shows "rc_Domain c = rc_Domain c' \<and> rc_Location c = rc_Location c' \<and>
    rc_RouteByHTTPUser c = rc_RouteByHTTPUser c' \<and> e = e'"
proof -
  let ?p = "\<lambda>c. rc_Domain c @ ''.'' @ b64 (rc_Location c)"
  have "(?p c @ ''.'' @ b64 (rc_RouteByHTTPUser c)) @ CHR ''.'' # b64 e =
      (?p c' @ ''.'' @ b64 (rc_RouteByHTTPUser c')) @ CHR ''.'' # b64 e'"
    using assms by (simp add: director_url_host_def)
  from last_sep_unique [OF b64_no_dot b64_no_dot this]
  have 1: "?p c @ CHR ''.'' # b64 (rc_RouteByHTTPUser c) = ?p c' @ CHR ''.'' # b64 (rc_RouteByHTTPUser c')"
    and e: "e = e'" by auto
  from last_sep_unique [OF b64_no_dot b64_no_dot 1]
  have 2: "rc_Domain c @ CHR ''.'' # b64 (rc_Location c) = rc_Domain c' @ CHR ''.'' # b64 (rc_Location c')"
    and u: "rc_RouteByHTTPUser c = rc_RouteByHTTPUser c'" by auto
  from last_sep_unique [OF b64_no_dot b64_no_dot 2] e u show ?thesis by auto
qed

section \<open>Properties\<close>


text \<open>
  The multiplexers' copy of the search (\<open>getListener\<close>) and the reverse proxy's
  (\<open>getVhost\<close>) find the same routes.
\<close>

theorem getListener_agrees:
  "getListener r name path httpUser = map_option rt_payload (getVhost r name path httpUser)"
  by (rule getListener_eq_getVhost)

text \<open>
  A wildcard with only one label after the star is never matched by a longer host:
  with a route for \<open>*.com\<close> alone, a request for \<open>test.example.com\<close> finds no route,
  though the comment on the loop lists \<open>*.com\<close> among the hosts that are tried.
\<close>

theorem wildcard_needs_two_labels:
  "getVhost (fst (routers_Add NewRouters ''*.com'' '''' '''' p)) ''test.example.com'' ''/'' '''' = None"
proof -
  let ?r = "fst (routers_Add NewRouters ''*.com'' '''' '''' p)"
  have "vhost_candidates ''test.example.com'' = [''test.example.com'', ''*.example.com'', ''*'']"
    by code_simp
  moreover have "found (routers_Get ?r c ''/'' '''') = None" if "c \<noteq> ''*.com''" for c
    using that by (simp add: routers_Add_def routers_exist_def NewRouters_def routers_Get_def found_def Let_def)
  ultimately show ?thesis by (simp add: getVhost_candidates findRouter_def)
qed

text \<open>
  (C14) A direct request (no host in its request line) that the handler lets pass reaches
  only a route whose user name and password are unset or equal those of the request.
\<close>

theorem serve_direct_request_authenticated:
  assumes "rq_URLHost rq = ''''" and "passed_info (ServeHTTP r rq) = Some info"
    and "routed_to r info = Some cfg"
  shows "credentials_ok cfg (auth_user (rq_basicAuth rq)) (auth_passwd (rq_basicAuth rq))"
proof -
  have "info = injectRequestInfoToCtx rq" by (rule ServeHTTP_passed(1) [OF assms(2)])
  with assms(1,3) have "GetRouteConfig r (canonical (rq_Host rq)) (rq_URLPath rq)
      (auth_user (rq_basicAuth rq)) = Some cfg"
    by (simp add: routed_to_def injectRequestInfoToCtx_def Let_def)
  with ServeHTTP_passed(2) [OF assms(2)] show ?thesis by (simp add: CheckAuth_credentials)
qed

definition protected_route :: route_config where
  "protected_route = \<lparr>rc_Domain = ''h'', rc_Location = '''', rc_RewriteHost = '''', rc_Username = ''alice'',
     rc_Password = ''secret'', rc_Headers = [], rc_RouteByHTTPUser = ''alice'',
     rc_CreateConnFn = Some (ProxyRealConn ''p''), rc_ChooseEndpointFn = None,
     rc_CreateConnByEndpointFn = None\<rparr>"

definition protected_router :: vhost_router where
  "protected_router = fst (rp_Register NewRouters protected_route)"

definition good_request :: http_request where
  "good_request = \<lparr>rq_Method = ''GET'', rq_Host = ''h'', rq_URLPath = ''/'', rq_URLHost = '''',
     rq_RemoteAddr = '''', rq_proxyAuth = None, rq_basicAuth = Some (''alice'', ''secret'')\<rparr>"

lemma routed_protected:
  "routed_to protected_router (injectRequestInfoToCtx good_request) = Some protected_route"
  by code_simp

theorem serve_direct_request_authenticated_witness:
  "credentials_ok protected_route ''alice'' ''secret''"
proof -
  have "passed_info (ServeHTTP protected_router good_request) = Some (injectRequestInfoToCtx good_request)"
    by code_simp
  from serve_direct_request_authenticated [OF _ this routed_protected]
  show ?thesis by (simp add: good_request_def auth_user_def auth_passwd_def)
qed

text \<open>
  A proxy request (a host in its request line) is checked against the route of the
  user in \<open>Authorization\<close> but sent to the route of the user in \<open>Proxy-Authorization\<close>:
  there is a router with a password-protected route and a request with a wrong password
  that is let pass and reaches that route.
\<close>

theorem serve_proxy_request_bypass:
  "\<exists>r rq info cfg. passed_info (ServeHTTP r rq) = Some info \<and> routed_to r info = Some cfg \<and>
     rc_Password cfg \<noteq> '''' \<and>
     \<not> credentials_ok cfg (auth_user (rq_basicAuth rq)) (auth_passwd (rq_basicAuth rq)) \<and>
     \<not> credentials_ok cfg (auth_user (rq_proxyAuth rq)) (auth_passwd (rq_proxyAuth rq))"
proof -
  let ?rq = "good_request\<lparr>rq_URLHost := ''h'', rq_proxyAuth := Some (''alice'', ''wrong''), rq_basicAuth := None\<rparr>"
  have "passed_info (ServeHTTP protected_router ?rq) = Some (injectRequestInfoToCtx ?rq)"
    by code_simp
  moreover have "routed_to protected_router (injectRequestInfoToCtx ?rq) = Some protected_route"
    by code_simp
  moreover have "rc_Password protected_route \<noteq> ''''"
    "\<not> credentials_ok protected_route (auth_user (rq_basicAuth ?rq)) (auth_passwd (rq_basicAuth ?rq))"
    "\<not> credentials_ok protected_route (auth_user (rq_proxyAuth ?rq)) (auth_passwd (rq_proxyAuth ?rq))"
    by (simp_all add: protected_route_def credentials_ok_def auth_user_def auth_passwd_def good_request_def)
  ultimately show ?thesis by blast
qed

text \<open>
  Requests share a pooled backend connection only if they agree in domain, location,
  HTTP user and endpoint: the URL host that keys the pool determines all four.
\<close>

theorem director_key_injective:
  "director_url_host c e = director_url_host c' e' \<longleftrightarrow>
     rc_Domain c = rc_Domain c' \<and> rc_Location c = rc_Location c' \<and>
     rc_RouteByHTTPUser c = rc_RouteByHTTPUser c' \<and> e = e'"
  using director_url_host_inj [of c e c' e'] by (auto simp: director_url_host_def)

end
