(* ===== verification/Frp_Ports.thy ===== *)
theory Frp_Ports
  imports Frp_Prelude
begin

text \<open>
  The port manager of frps, \<open>server/ports/ports.go\<close>: which remote ports are free, which
  are used, and which a proxy gets back when it reconnects. A \<open>PortCtx\<close> is shared
  between the maps \<open>usedPorts\<close> and \<open>reservedPorts\<close> and mutated through the former, so
  the model keeps contexts in a store and the maps hold references.

  Parameters of the operations stand for the environment: \<open>avail n p\<close> is the answer of
  the \<open>n\<close>-th probe of the operating system in one call (\<open>isPortAvailable\<close>, an attempt to
  listen on \<open>p\<close>), \<open>order\<close> the order in which Go iterates over the free ports, \<open>now\<close> the
  clock in nanoseconds. Every method holds the mutex throughout, so a call is one step.
\<close>

section \<open>State and operations\<close>

definition MinPort :: int where "MinPort = 1"

definition MaxPort :: int where "MaxPort = 65535"

definition MaxPortReservedDuration :: int where
  "MaxPortReservedDuration = 24 * 60 * 60 * 1000000000"

datatype port_error = ErrPortAlreadyUsed | ErrPortNotAllowed | ErrPortUnAvailable | ErrNoAvailablePort

record port_ctx =
  pc_ProxyName :: string
  pc_Port :: int
  pc_Closed :: bool
  pc_UpdateTime :: int

record port_manager =
  reservedPorts :: "string \<rightharpoonup> nat"
  usedPorts :: "int \<rightharpoonup> nat"
  freePorts :: "int set"
  ctx_store :: "nat \<Rightarrow> port_ctx"
  ctx_next :: nat

definition no_ctx :: port_ctx where
  "no_ctx = \<lparr>pc_ProxyName = '''', pc_Port = 0, pc_Closed = False, pc_UpdateTime = 0\<rparr>"

definition NewPortManager :: "int set \<Rightarrow> port_manager" where
  "NewPortManager allowPorts =
     \<lparr>reservedPorts = Map.empty, usedPorts = Map.empty,
      freePorts = (if allowPorts \<noteq> {} then allowPorts else {MinPort..MaxPort}),
      ctx_store = (\<lambda>_. no_ctx), ctx_next = 0\<rparr>"

text \<open>
  The assignments that take a port: the new context, with the port the deferred function
  stores in it, under both maps, and the port no longer free.
\<close>

definition take_port :: "port_manager \<Rightarrow> string \<Rightarrow> int \<Rightarrow> int \<Rightarrow> port_manager" where
  "take_port pm name now realPort =
     (let a = ctx_next pm in
      pm\<lparr>ctx_store := (ctx_store pm)(a := \<lparr>pc_ProxyName = name, pc_Port = realPort,
             pc_Closed = False, pc_UpdateTime = now\<rparr>),
         ctx_next := Suc a,
         usedPorts := (usedPorts pm)(realPort \<mapsto> a),
         reservedPorts := (reservedPorts pm)(name \<mapsto> a),
         freePorts := freePorts pm - {realPort}\<rparr>)"

text \<open>The loop over the free ports: at most \<open>maxTryTimes\<close> probes, the port or 0.\<close>

definition maxTryTimes :: nat where "maxTryTimes = 5"

fun random_port :: "(nat \<Rightarrow> int \<Rightarrow> bool) \<Rightarrow> nat \<Rightarrow> int list \<Rightarrow> int option" where
  "random_port avail count [] = None"
| "random_port avail count (k # ks) =
     (let count = Suc count in
      if count > maxTryTimes then None
      else if avail count k then Some k
      else random_port avail count ks)"

text \<open>
  After the loop the code tests \<open>realPort == 0\<close>; a port 0 among the allowed ones would be
  taken and still reported as \<open>ErrNoAvailablePort\<close>.
\<close>

definition acquire_random ::
    "(nat \<Rightarrow> int \<Rightarrow> bool) \<Rightarrow> int list \<Rightarrow> int \<Rightarrow> port_manager \<Rightarrow> string \<Rightarrow> (port_error + int) \<times> port_manager" where
  "acquire_random avail order now pm name =
     (case random_port avail 0 order of
        None \<Rightarrow> (Inl ErrNoAvailablePort, pm)
      | Some k \<Rightarrow>
          (if k = 0 then Inl ErrNoAvailablePort else Inr k, take_port pm name now k))"

definition reserved_port :: "port_manager \<Rightarrow> string \<Rightarrow> int option" where
  "reserved_port pm name = map_option (\<lambda>a. pc_Port (ctx_store pm a)) (reservedPorts pm name)"

definition Acquire ::
    "(nat \<Rightarrow> int \<Rightarrow> bool) \<Rightarrow> int list \<Rightarrow> int \<Rightarrow> port_manager \<Rightarrow> string \<Rightarrow> int \<Rightarrow> (port_error + int) \<times> port_manager" where
  "Acquire avail order now pm name port =
     (if port = 0 then
        (case reserved_port pm name of
           Some p \<Rightarrow>
             if avail 0 p then (Inr p, take_port pm name now p)
             else acquire_random avail order now pm name
         | None \<Rightarrow> acquire_random avail order now pm name)
      else if port \<in> freePorts pm then
        (if avail 0 port then (Inr port, take_port pm name now port)
         else (Inl ErrPortUnAvailable, pm))
      else if usedPorts pm port \<noteq> None then (Inl ErrPortAlreadyUsed, pm)
      else (Inl ErrPortNotAllowed, pm))"

definition Release :: "int \<Rightarrow> port_manager \<Rightarrow> int \<Rightarrow> port_manager" where
  "Release now pm port =
     (case usedPorts pm port of
        None \<Rightarrow> pm
      | Some a \<Rightarrow>
          pm\<lparr>freePorts := insert port (freePorts pm),
             usedPorts := (usedPorts pm)(port := None),
             ctx_store := (ctx_store pm)(a := (ctx_store pm a)\<lparr>pc_Closed := True, pc_UpdateTime := now\<rparr>)\<rparr>)"

text \<open>One round of \<open>cleanReservedPortsWorker\<close>.\<close>

definition expired :: "int \<Rightarrow> port_ctx \<Rightarrow> bool" where
  "expired now ctx \<longleftrightarrow> pc_Closed ctx \<and> now - pc_UpdateTime ctx > MaxPortReservedDuration"

definition cleanReservedPorts :: "int \<Rightarrow> port_manager \<Rightarrow> port_manager" where
  "cleanReservedPorts now pm =
     pm\<lparr>reservedPorts := (\<lambda>name. case reservedPorts pm name of
          None \<Rightarrow> None
        | Some a \<Rightarrow> if expired now (ctx_store pm a) then None else Some a)\<rparr>"

section \<open>Steps and invariant\<close>

text \<open>
  The steps of a manager, whatever the operating system answers and whatever the order
  of iteration. An order lists free ports.
\<close>

inductive port_step :: "port_manager \<Rightarrow> port_manager \<Rightarrow> bool" where
  acquire: "set order \<subseteq> freePorts pm \<Longrightarrow> port_step pm (snd (Acquire avail order now pm name port))"
| release: "port_step pm (Release now pm port)"
| clean: "port_step pm (cleanReservedPorts now pm)"

inductive_cases port_stepE: "port_step pm pm'"

inductive port_reachable :: "int set \<Rightarrow> port_manager \<Rightarrow> bool" for allow where
  start: "port_reachable allow (NewPortManager allow)"
| step: "port_reachable allow pm \<Longrightarrow> port_step pm pm' \<Longrightarrow> port_reachable allow pm'"

definition allowed :: "int set \<Rightarrow> int set" where
  "allowed allow = (if allow \<noteq> {} then allow else {MinPort..MaxPort})"

definition port_inv :: "int set \<Rightarrow> port_manager \<Rightarrow> bool" where
  "port_inv P pm \<longleftrightarrow>
     freePorts pm \<inter> dom (usedPorts pm) = {} \<and>
     freePorts pm \<union> dom (usedPorts pm) = P \<and>
     (\<forall>p a. usedPorts pm p = Some a \<longrightarrow> a < ctx_next pm \<and> pc_Port (ctx_store pm a) = p \<and>
        \<not> pc_Closed (ctx_store pm a)) \<and>
     (\<forall>name a. reservedPorts pm name = Some a \<longrightarrow> a < ctx_next pm \<and>
        pc_Port (ctx_store pm a) \<in> P \<and> pc_ProxyName (ctx_store pm a) = name)"

section \<open>The contract of a pool of ports\<close>

text \<open>
  What a proxy relies on: a port it asked for is its own afterwards, nothing else changes,
  and a released port is free. The state is seen through the set of free ports and the
  owner of each used port.
\<close>

locale port_pool =
  fixes acq :: "'s \<Rightarrow> string \<Rightarrow> int \<Rightarrow> (port_error + int) \<times> 's"
    and rel :: "'s \<Rightarrow> int \<Rightarrow> 's"
    and free :: "'s \<Rightarrow> int set"
    and owner :: "'s \<Rightarrow> int \<Rightarrow> string option"
    and inv :: "'s \<Rightarrow> bool"
  assumes acq_ok: "inv s \<Longrightarrow> p \<noteq> 0 \<Longrightarrow> acq s n p = (Inr q, s') \<Longrightarrow>
      q = p \<and> p \<in> free s \<and> free s' = free s - {p} \<and> owner s' = (owner s)(p \<mapsto> n)"
    and acq_error: "inv s \<Longrightarrow> p \<noteq> 0 \<Longrightarrow> acq s n p = (Inl e, s') \<Longrightarrow> s' = s"
    and rel_used: "inv s \<Longrightarrow> owner s p \<noteq> None \<Longrightarrow>
      free (rel s p) = insert p (free s) \<and> owner (rel s p) = (owner s)(p := None)"
    and rel_unused: "inv s \<Longrightarrow> owner s p = None \<Longrightarrow> rel s p = s"
    and free_unowned: "inv s \<Longrightarrow> p \<in> free s \<Longrightarrow> owner s p = None"
    and inv_acq: "inv s \<Longrightarrow> p \<noteq> 0 \<Longrightarrow> inv (snd (acq s n p))"
    and inv_rel: "inv s \<Longrightarrow> inv (rel s p)"
begin

lemma acquire_release:
  assumes "inv s" and "p \<noteq> 0" and "acq s n p = (Inr q, s')"
  shows "free (rel s' q) = free s" and "owner (rel s' q) = owner s"
proof -
  from acq_ok [OF assms] have q: "q = p" "p \<in> free s" "free s' = free s - {p}"
    "owner s' = (owner s)(p \<mapsto> n)" by blast+
  moreover have "inv s'" using inv_acq [OF assms(1,2), of n] assms(3) by simp
  ultimately have "free (rel s' q) = insert p (free s - {p})" "owner (rel s' q) = (owner s)(p := None)"
    using rel_used [of s' p] by auto
  with q(2) free_unowned [OF assms(1) q(2)]
  show "free (rel s' q) = free s" "owner (rel s' q) = owner s"
    by (auto simp: fun_upd_idem)
qed

lemma no_double_acquire:
  assumes "inv s" and "p \<noteq> 0" and "acq s n p = (Inr q, s')"
  shows "\<exists>e. fst (acq s' m p) = Inl e"
proof (cases "acq s' m p")
  case (Pair r s'')
  have "inv s'" using inv_acq [OF assms(1,2), of n] assms(3) by simp
  moreover have "p \<notin> free s'" using acq_ok [OF assms] by blast
  ultimately show ?thesis
    using Pair acq_ok [OF _ assms(2), of s' m] by (cases r) auto
qed

end

section \<open>Preservation\<close>

lemma NewPortManager_inv [inv_intros]: "port_inv (allowed allow) (NewPortManager allow)"
  by (simp add: port_inv_def NewPortManager_def allowed_def)

lemma take_port_inv [inv_intros]:
  assumes "port_inv P pm" and "p \<in> P"
  shows "port_inv P (take_port pm name now p)"
  using assms unfolding port_inv_def take_port_def Let_def
  by (auto simp: less_Suc_eq split: if_splits)

lemma reserved_port_allowed: "port_inv P pm \<Longrightarrow> reserved_port pm name = Some p \<Longrightarrow> p \<in> P"
  by (auto simp: port_inv_def reserved_port_def)

lemma random_port_in: "random_port avail n ks = Some k \<Longrightarrow> k \<in> set ks"
  by (induction ks arbitrary: n) (auto simp: Let_def split: if_splits)

lemma acquire_random_inv:
  assumes "port_inv P pm" and "set order \<subseteq> freePorts pm"
  shows "port_inv P (snd (acquire_random avail order now pm name))"
proof (cases "random_port avail 0 order")
  case (Some k)
  then have "k \<in> P" using assms random_port_in [OF Some] by (auto simp: port_inv_def)
  with Some assms(1) show ?thesis by (simp add: acquire_random_def take_port_inv)
qed (simp add: acquire_random_def assms(1))

lemma Acquire_inv [inv_intros]:
  assumes "port_inv P pm" and "set order \<subseteq> freePorts pm"
  shows "port_inv P (snd (Acquire avail order now pm name port))"
proof -
  have "freePorts pm \<subseteq> P" using assms(1) by (auto simp: port_inv_def)
  then show ?thesis
    using assms acquire_random_inv [OF assms] reserved_port_allowed [OF assms(1)] take_port_inv [OF assms(1)]
    by (auto simp: Acquire_def split: option.splits)
qed

lemma Acquire_specified_inv [inv_intros]:
  assumes "port_inv P pm" and "port \<noteq> 0"
  shows "port_inv P (snd (Acquire avail order now pm name port))"
proof -
  have "freePorts pm \<subseteq> P" using assms(1) by (auto simp: port_inv_def)
  then show ?thesis using assms take_port_inv [OF assms(1)] by (auto simp: Acquire_def)
qed

lemma usedPorts_ctx: "port_inv P pm \<Longrightarrow> usedPorts pm p = Some a \<Longrightarrow> pc_Port (ctx_store pm a) = p"
  by (simp add: port_inv_def)

lemma usedPorts_inj:
  "port_inv P pm \<Longrightarrow> usedPorts pm p = Some a \<Longrightarrow> usedPorts pm q = Some a \<Longrightarrow> p = q"
  by (metis usedPorts_ctx)

lemma Release_inv [inv_intros]: "port_inv P pm \<Longrightarrow> port_inv P (Release now pm port)"
proof (cases "usedPorts pm port")
  case (Some a)
  assume inv: "port_inv P pm"
  have "a \<noteq> b" if "usedPorts pm q = Some b" "q \<noteq> port" for q b
    using usedPorts_inj [OF inv Some] that by auto
  with inv Some show ?thesis
    unfolding port_inv_def Release_def by (auto split: if_splits)
qed (simp add: Release_def)

lemma cleanReservedPorts_inv [inv_intros]: "port_inv P pm \<Longrightarrow> port_inv P (cleanReservedPorts now pm)"
  by (auto simp: port_inv_def cleanReservedPorts_def split: option.splits if_splits)

lemma port_step_inv [inv_intros]: "port_step pm pm' \<Longrightarrow> port_inv P pm \<Longrightarrow> port_inv P pm'"
  by (erule port_stepE) (simp_all add: Acquire_inv Release_inv cleanReservedPorts_inv)

lemma port_reachable_inv: "port_reachable allow pm \<Longrightarrow> port_inv (allowed allow) pm"
  by (induction rule: port_reachable.induct) (auto intro: NewPortManager_inv port_step_inv)

section \<open>The manager fulfils the contract\<close>

definition port_owner :: "port_manager \<Rightarrow> int \<Rightarrow> string option" where
  "port_owner pm p = map_option (\<lambda>a. pc_ProxyName (ctx_store pm a)) (usedPorts pm p)"

lemma port_owner_take:
  assumes "port_inv P pm"
  shows "port_owner (take_port pm n now p) = (port_owner pm)(p \<mapsto> n)"
proof (rule ext)
  fix q
  have "usedPorts pm q = Some (ctx_next pm) \<Longrightarrow> False" using assms by (auto simp: port_inv_def)
  then show "port_owner (take_port pm n now p) q = ((port_owner pm)(p \<mapsto> n)) q"
    by (cases "usedPorts pm q") (auto simp: port_owner_def take_port_def Let_def)
qed

lemma port_owner_release:
  assumes "port_inv P pm" and "usedPorts pm p = Some a"
  shows "port_owner (Release now pm p) = (port_owner pm)(p := None)"
proof (rule ext)
  fix q
  have "usedPorts pm q = Some a \<Longrightarrow> q = p" using usedPorts_inj [OF assms] by simp
  then show "port_owner (Release now pm p) q = ((port_owner pm)(p := None)) q"
    using assms(2) by (cases "usedPorts pm q") (auto simp: port_owner_def Release_def)
qed

interpretation pool: port_pool "Acquire avail order now" "Release now'" freePorts port_owner "port_inv P"
  for avail order now now' P
proof (unfold_locales, goal_cases)
  case (1 s p n q s')
  then show ?case
    using port_owner_take [OF 1(1), of n now p]
    by (auto simp: Acquire_def take_port_def Let_def split: if_splits)
next
  case (2 s p n e s')
  then show ?case by (auto simp: Acquire_def split: if_splits)
next
  case (3 s p)
  then show ?case
    using port_owner_release [OF 3(1), of p] by (auto simp: port_owner_def Release_def)
next
  case (4 s p)
  then show ?case by (auto simp: port_owner_def Release_def)
next
  case (5 s p)
  then show ?case by (auto simp: port_owner_def port_inv_def)
next
  case (6 s p n)
  then show ?case by (rule Acquire_specified_inv)
next
  case (7 s p)
  then show ?case by (rule Release_inv)
qed

section \<open>Properties\<close>

text \<open>
  (C15) In every reachable state of a manager, whatever the operating system answers, a
  port is either free or used and never both, and the free and used ports together are
  exactly the ports the configuration allows (all of 1 to 65535 if it names none).
\<close>

theorem ports_partition:
  assumes "port_reachable allow pm"
  shows "freePorts pm \<inter> dom (usedPorts pm) = {} \<and>
    freePorts pm \<union> dom (usedPorts pm) = (if allow = {} then {1..65535} else allow)"
  using port_reachable_inv [OF assms]
  by (auto simp: port_inv_def allowed_def MinPort_def MaxPort_def)

definition demo_ports :: port_manager where
  "demo_ports = snd (Acquire (\<lambda>_ _. True) [] 0 (NewPortManager {7000, 7001}) ''a'' 7000)"

lemma demo_ports_reachable: "port_reachable {7000, 7001} demo_ports"
  unfolding demo_ports_def
  by (rule port_reachable.step [OF port_reachable.start port_step.acquire]) simp

theorem ports_partition_witness:
  "freePorts demo_ports \<inter> dom (usedPorts demo_ports) = {} \<and>
   freePorts demo_ports \<union> dom (usedPorts demo_ports) = {7000, 7001} \<and> usedPorts demo_ports 7000 \<noteq> None"
proof -
  have "usedPorts demo_ports 7000 \<noteq> None"
    by (simp add: demo_ports_def Acquire_def NewPortManager_def take_port_def Let_def)
  with ports_partition [OF demo_ports_reachable] show ?thesis by simp
qed

text \<open>
  A request for a definite port, in every reachable state: refused with
  \<open>ErrPortNotAllowed\<close> if the configuration does not allow the port, with
  \<open>ErrPortAlreadyUsed\<close> if a proxy owns it, with \<open>ErrPortUnAvailable\<close> if the system cannot
  listen on it, and granted otherwise; it then belongs to the proxy and no other owner
  changes.
\<close>

theorem acquire_specified_port:
  assumes "port_reachable allow pm" and "port \<noteq> 0"
  shows "fst (Acquire avail order now pm name port) =
      (if port \<notin> allowed allow then Inl ErrPortNotAllowed
       else if port_owner pm port \<noteq> None then Inl ErrPortAlreadyUsed
       else if avail 0 port then Inr port else Inl ErrPortUnAvailable) \<and>
    (case fst (Acquire avail order now pm name port) of
       Inl _ \<Rightarrow> snd (Acquire avail order now pm name port) = pm
     | Inr _ \<Rightarrow> port_owner (snd (Acquire avail order now pm name port)) = (port_owner pm)(port \<mapsto> name))"
proof -
  note inv = port_reachable_inv [OF assms(1)]
  have "port \<in> freePorts pm \<longleftrightarrow> port \<in> allowed allow \<and> port_owner pm port = None"
    "usedPorts pm port \<noteq> None \<longleftrightarrow> port_owner pm port \<noteq> None"
    "port_owner pm port \<noteq> None \<longrightarrow> port \<in> allowed allow"
    using inv by (auto simp: port_inv_def port_owner_def)
  then show ?thesis
    using assms(2) port_owner_take [OF inv] by (auto simp: Acquire_def)
qed

theorem acquire_specified_port_witness:
  "fst (Acquire (\<lambda>_ _. True) [] 5 demo_ports ''b'' 7000) = Inl ErrPortAlreadyUsed"
  using acquire_specified_port [OF demo_ports_reachable, of 7000 "\<lambda>_ _. True" "[]" 5 "''b''"]
  by (simp add: allowed_def port_owner_def demo_ports_def Acquire_def NewPortManager_def take_port_def Let_def)

text \<open>
  Acquiring a definite port and releasing it again leaves the free ports and all
  owners as they were.
\<close>

theorem acquire_release_restores:
  assumes "port_reachable allow pm" and "port \<noteq> 0"
    and "Acquire avail order now pm name port = (Inr p, pm')"
  shows "freePorts (Release now' pm' p) = freePorts pm \<and> port_owner (Release now' pm' p) = port_owner pm"
  using pool.acquire_release [OF port_reachable_inv [OF assms(1)] assms(2,3)] by simp

theorem acquire_release_restores_witness:
  "freePorts (Release 9 demo_ports 7000) = {7000, 7001}"
proof -
  have "Acquire (\<lambda>_ _. True) [] 0 (NewPortManager {7000, 7001}) ''a'' 7000 = (Inr 7000, demo_ports)"
    by (simp add: demo_ports_def Acquire_def NewPortManager_def)
  from acquire_release_restores [OF port_reachable.start _ this, of 9]
  show ?thesis by (simp add: NewPortManager_def)
qed

text \<open>
  Reconnection: a proxy that held port \<open>p\<close>, released it and asks for any port (port 0)
  gets \<open>p\<close> again if the system can listen on it, also when the cleaning worker ran in
  between, as long as it ran at most 24 hours after the release.
\<close>

theorem reconnect_same_port:
  assumes "port_reachable allow pm" and "set order \<subseteq> freePorts pm"
    and "Acquire avail order t0 pm name port = (Inr p, pm')"
    and "t2 - t1 \<le> MaxPortReservedDuration" and "avail' 0 p"
  shows "fst (Acquire avail' order' t3 (cleanReservedPorts t2 (Release t1 pm' p)) name 0) = Inr p"
proof -
  have pm': "pm' = take_port pm name t0 p"
    using assms(3) by (auto simp: Acquire_def acquire_random_def split: if_splits option.splits)
  then have "reserved_port (cleanReservedPorts t2 (Release t1 pm' p)) name = Some p"
    using assms(4)
    by (simp add: take_port_def Let_def Release_def cleanReservedPorts_def reserved_port_def expired_def)
  with assms(5) show ?thesis by (simp add: Acquire_def)
qed

theorem reconnect_same_port_witness:
  "fst (Acquire (\<lambda>_ _. True) [] 30 (cleanReservedPorts 20 (Release 10 demo_ports 7000)) ''a'' 0) = Inr 7000"
proof -
  have "Acquire (\<lambda>_ _. True) [] 0 (NewPortManager {7000, 7001}) ''a'' 7000 = (Inr 7000, demo_ports)"
    by (simp add: demo_ports_def Acquire_def NewPortManager_def)
  from reconnect_same_port [OF port_reachable.start _ this, of 20 10 "\<lambda>_ _. True" "[]" 30]
  show ?thesis by (simp add: MaxPortReservedDuration_def)
qed

lemma random_port_eq:
  "n \<le> maxTryTimes \<Longrightarrow> random_port avail n ks =
     map_option (\<lambda>i. ks ! i) (find (\<lambda>i. avail (n + Suc i) (ks ! i)) [0..<min (length ks) (maxTryTimes - n)])"
proof (induction ks arbitrary: n)
  case (Cons k ks)
  have up: "n < maxTryTimes \<Longrightarrow> [0..<min (length (k # ks)) (maxTryTimes - n)] =
      0 # map Suc [0..<min (length ks) (maxTryTimes - Suc n)]"
    by (simp add: upt_conv_Cons map_Suc_upt min_def Suc_diff_Suc del: upt_Suc)
  have fm: "find P (map f xs) = map_option f (find (P \<circ> f) xs)" for P :: "nat \<Rightarrow> bool" and f :: "nat \<Rightarrow> nat" and xs
    by (induction xs) auto
  show ?case
  proof (cases "n < maxTryTimes")
    case True
    then have "random_port avail (Suc n) ks = map_option (\<lambda>i. ks ! i)
        (find (\<lambda>i. avail (Suc n + Suc i) (ks ! i)) [0..<min (length ks) (maxTryTimes - Suc n)])"
      by (intro Cons.IH) simp
    with True show ?thesis
      unfolding up [OF True] by (auto simp: Let_def fm option.map_comp o_def cong: option.map_cong)
  next
    case False
    with Cons.prems show ?thesis by (simp add: Let_def)
  qed
qed simp

text \<open>
  A request for any port by a proxy without a reservation probes at most the first
  five ports of the iteration: it is granted exactly if one of them is available, with
  the first such port, and otherwise fails with \<open>ErrNoAvailablePort\<close>, even when a later
  port is available.
\<close>

theorem acquire_any_port:
  assumes "reserved_port pm name = None" and "0 \<notin> set order"
  shows "fst (Acquire avail order now pm name 0) =
    (case find (\<lambda>i. avail (Suc i) (order ! i)) [0..<min (length order) 5] of
       None \<Rightarrow> Inl ErrNoAvailablePort | Some i \<Rightarrow> Inr (order ! i))"
proof -
  have "random_port avail 0 order =
      map_option (\<lambda>i. order ! i) (find (\<lambda>i. avail (Suc i) (order ! i)) [0..<min (length order) 5])"
    using random_port_eq [of 0 avail order] by (simp add: maxTryTimes_def)
  moreover have "k \<noteq> 0" if "random_port avail 0 order = Some k" for k
    using random_port_in [OF that] assms(2) by auto
  ultimately show ?thesis
    using assms(1) by (auto simp: Acquire_def acquire_random_def split: option.splits)
qed

theorem acquire_any_port_witness:
  "fst (Acquire (\<lambda>_ p. p \<ge> 6) [1, 2, 3, 4, 5, 6] 0 (NewPortManager {1..6}) ''a'' 0) = Inl ErrNoAvailablePort \<and>
   fst (Acquire (\<lambda>_ p. p \<ge> 5) [1, 2, 3, 4, 5, 6] 0 (NewPortManager {1..6}) ''a'' 0) = Inr 5"
proof -
  have r: "reserved_port (NewPortManager {1..6}) ''a'' = None"
    by (simp add: reserved_port_def NewPortManager_def)
  have up: "[0..<min (length [1, 2, 3, 4, 5, 6 :: int]) 5] = [0, 1, 2, 3, 4]" by code_simp
  show ?thesis
    using acquire_any_port [OF r, of "[1, 2, 3, 4, 5, 6]" "\<lambda>_ p. p \<ge> 6" 0]
      acquire_any_port [OF r, of "[1, 2, 3, 4, 5, 6]" "\<lambda>_ p. p \<ge> 5" 0]
    unfolding up by simp
qed

text \<open>
  The reservation is granted without asking whether the port is used: there is a
  reachable state in which a proxy owns a port and a second proxy that asks for any port
  is granted the same port, the first owner being forgotten. The system probe does not
  prevent it, because the first proxy starts to listen only after \<open>Acquire\<close> returned.
\<close>

theorem reservation_takes_used_port:
  "\<exists>pm avail pm'. port_reachable {7000} pm \<and> port_owner pm 7000 = Some ''b'' \<and>
     Acquire avail [] 3 pm ''a'' 0 = (Inr 7000, pm') \<and> port_owner pm' 7000 = Some ''a''"
proof -
  let ?yes = "\<lambda>(_::nat) (_::int). True"
  let ?p1 = "snd (Acquire ?yes [] 0 (NewPortManager {7000}) ''a'' 7000)"
  let ?p2 = "Release 1 ?p1 7000"
  let ?p3 = "snd (Acquire ?yes [] 2 ?p2 ''b'' 7000)"
  have r1: "port_reachable {7000} ?p1"
    by (rule port_reachable.step [OF port_reachable.start port_step.acquire]) simp
  have r2: "port_reachable {7000} ?p2"
    by (rule port_reachable.step [OF r1 port_step.release])
  have r3: "port_reachable {7000} ?p3"
    by (rule port_reachable.step [OF r2 port_step.acquire]) simp
  have "port_owner ?p3 7000 = Some ''b'' \<and> fst (Acquire ?yes [] 3 ?p3 ''a'' 0) = Inr 7000 \<and>
      port_owner (snd (Acquire ?yes [] 3 ?p3 ''a'' 0)) 7000 = Some ''a''"
    by (simp add: port_owner_def Acquire_def NewPortManager_def take_port_def Release_def
        reserved_port_def Let_def)
  with r3 show ?thesis by (metis prod.collapse)
qed

text \<open>
  \<open>Release\<close> does not know who releases: a second release by a former owner, as
  \<open>UDPProxy.Close\<close> makes when it is called twice, frees the port of the proxy that
  acquired it in between, and a third proxy is granted it while the second one uses it.
\<close>

theorem second_release_frees_other_owner:
  assumes "port_reachable allow pm" and "port \<noteq> 0"
    and "Acquire avail order t pm b port = (Inr port, pm')"
  shows "port_owner pm' port = Some b \<and> port \<in> freePorts (Release t1 pm' port) \<and>
    (avail' 0 port \<longrightarrow> fst (Acquire avail' order' t2 (Release t1 pm' port) c port) = Inr port)"
proof -
  note inv = port_reachable_inv [OF assms(1)]
  from pool.acq_ok [OF inv assms(2,3)] have own: "port_owner pm' port = Some b" by simp
  have "port_inv (allowed allow) pm'"
    using pool.inv_acq [OF inv assms(2)] assms(3) by (metis snd_conv)
  with own have "port \<in> freePorts (Release t1 pm' port)"
    using pool.rel_used [of "allowed allow" pm' port] by simp
  with own assms(2) show ?thesis by (simp add: Acquire_def)
qed

theorem second_release_frees_other_owner_witness:
  "port_owner demo_ports 7000 = Some ''a'' \<and>
   fst (Acquire (\<lambda>_ _. True) [] 3 (Release 2 demo_ports 7000) ''c'' 7000) = Inr 7000"
proof -
  have "Acquire (\<lambda>_ _. True) [] 0 (NewPortManager {7000, 7001}) ''a'' 7000 = (Inr 7000, demo_ports)"
    by (simp add: demo_ports_def Acquire_def NewPortManager_def)
  from second_release_frees_other_owner [OF port_reachable.start _ this, of 2 "\<lambda>_ _. True" "[]" 3 "''c''"]
  show ?thesis by simp
qed

end
