(* ===== verification/Frp_HttpGroup.thy ===== *)
theory Frp_HttpGroup
  imports Frp_Vhost "HOL-Library.AList"
begin

text \<open>
  Load balancing of HTTP proxies, \<open>server/group/http.go\<close>: the proxies of a group share one
  route of the virtual host router; requests go round robin over the members. Groups are
  heap objects (the route's closures refer to them), so the controller holds references
  into a store. The locks make \<open>HTTPGroup.Register\<close>, \<open>UnRegister\<close> and the selections
  atomic; \<open>HTTPGroupController.Register\<close> is its two critical sections in sequence.
\<close>

section \<open>Model\<close>

datatype group_error =
    ErrGroupAuthFailed
  | ErrGroupParamsInvalid
  | ErrGroupDifferentPort
  | ErrProxyRepeated
  | ErrRouter router_error

record http_group =
  hg_group :: string
  hg_groupKey :: string
  hg_domain :: string
  hg_location :: string
  hg_routeByHTTPUser :: string
  hg_createFuncs :: "(string \<times> create_conn_fn) list"
  hg_pxyNames :: "string list"
  hg_index :: "64 word"

record http_group_ctl =
  hc_groups :: "string \<rightharpoonup> nat"
  hc_store :: "nat \<Rightarrow> http_group"
  hc_next :: nat
  hc_router :: vhost_router

definition NewHTTPGroup :: http_group where
  "NewHTTPGroup = \<lparr>hg_group = '''', hg_groupKey = '''', hg_domain = '''', hg_location = '''',
     hg_routeByHTTPUser = '''', hg_createFuncs = [], hg_pxyNames = [], hg_index = 0\<rparr>"

definition NewHTTPGroupController :: "vhost_router \<Rightarrow> http_group_ctl" where
  "NewHTTPGroupController r =
     \<lparr>hc_groups = Map.empty, hc_store = (\<lambda>_. NewHTTPGroup), hc_next = 0, hc_router = r\<rparr>"

text \<open>The route that the first member of a group registers: the closures of the group.\<close>

definition group_route :: "nat \<Rightarrow> route_config \<Rightarrow> route_config" where
  "group_route gid cfg = cfg\<lparr>rc_CreateConnFn := Some (GroupCreateConn gid),
     rc_ChooseEndpointFn := Some (GroupChooseEndpoint gid),
     rc_CreateConnByEndpointFn := Some (GroupCreateConnByEndpoint gid)\<rparr>"

text \<open>The last assignments of \<open>HTTPGroup.Register\<close>, common to both branches.\<close>

definition add_member :: "string \<Rightarrow> create_conn_fn \<Rightarrow> http_group \<Rightarrow> group_error + http_group" where
  "add_member proxyName fn g =
     (if map_of (hg_createFuncs g) proxyName \<noteq> None then Inl ErrProxyRepeated
      else Inr (g\<lparr>hg_createFuncs := AList.update proxyName fn (hg_createFuncs g),
                  hg_pxyNames := hg_pxyNames g @ [proxyName]\<rparr>))"

text \<open>
  \<open>HTTPGroup.Register\<close>, for a configuration whose \<open>CreateConnFn\<close> is \<open>fn\<close>: the error, if
  any, the group and the router. The route stays registered if a later check fails.
\<close>

definition http_group_Register ::
    "nat \<Rightarrow> vhost_router \<Rightarrow> http_group \<Rightarrow> string \<Rightarrow> string \<Rightarrow> string \<Rightarrow> route_config \<Rightarrow> create_conn_fn \<Rightarrow>
     group_error option \<times> http_group \<times> vhost_router" where
  "http_group_Register gid r g proxyName grp groupKey cfg fn =
     (if hg_createFuncs g = [] then
        (case routers_Add r (rc_Domain cfg) (rc_Location cfg) (rc_RouteByHTTPUser cfg) (group_route gid cfg) of
           (r', Some e) \<Rightarrow> (Some (ErrRouter e), g, r')
         | (r', None) \<Rightarrow>
             let g' = g\<lparr>hg_group := grp, hg_groupKey := groupKey, hg_domain := rc_Domain cfg,
                        hg_location := rc_Location cfg, hg_routeByHTTPUser := rc_RouteByHTTPUser cfg\<rparr>
             in (case add_member proxyName fn g' of
                   Inl e \<Rightarrow> (Some e, g', r')
                 | Inr g'' \<Rightarrow> (None, g'', r')))
      else if hg_group g \<noteq> grp \<or> hg_domain g \<noteq> rc_Domain cfg \<or> hg_location g \<noteq> rc_Location cfg \<or>
              hg_routeByHTTPUser g \<noteq> rc_RouteByHTTPUser cfg then (Some ErrGroupParamsInvalid, g, r)
      else if hg_groupKey g \<noteq> groupKey then (Some ErrGroupAuthFailed, g, r)
      else (case add_member proxyName fn g of
              Inl e \<Rightarrow> (Some e, g, r)
            | Inr g' \<Rightarrow> (None, g', r)))"

definition http_group_UnRegister ::
    "vhost_router \<Rightarrow> http_group \<Rightarrow> string \<Rightarrow> bool \<times> http_group \<times> vhost_router" where
  "http_group_UnRegister r g proxyName =
     (let g' = g\<lparr>hg_createFuncs := AList.delete proxyName (hg_createFuncs g),
                 hg_pxyNames := slice_remove proxyName (hg_pxyNames g)\<rparr>
      in if hg_createFuncs g' = []
         then (True, g', routers_Del r (hg_domain g') (hg_location g') (hg_routeByHTTPUser g'))
         else (False, g', r))"

text \<open>\<open>HTTPGroupController.Register\<close>: find or create the grp, then register in it.\<close>

definition find_or_create :: "http_group_ctl \<Rightarrow> string \<Rightarrow> nat \<times> http_group_ctl" where
  "find_or_create c grp =
     (case hc_groups c grp of
        Some gid \<Rightarrow> (gid, c)
      | None \<Rightarrow>
          let gid = hc_next c in
          (gid, c\<lparr>hc_groups := (hc_groups c)(grp \<mapsto> gid),
                  hc_store := (hc_store c)(gid := NewHTTPGroup), hc_next := Suc gid\<rparr>))"

definition http_ctl_Register ::
    "http_group_ctl \<Rightarrow> string \<Rightarrow> string \<Rightarrow> string \<Rightarrow> route_config \<Rightarrow> create_conn_fn \<Rightarrow>
     group_error option \<times> http_group_ctl" where
  "http_ctl_Register c proxyName grp groupKey cfg fn =
     (let (gid, c') = find_or_create c grp;
          (err, g, r) = http_group_Register gid (hc_router c') (hc_store c' gid) proxyName grp groupKey cfg fn
      in (err, c'\<lparr>hc_store := (hc_store c')(gid := g), hc_router := r\<rparr>))"

definition http_ctl_UnRegister :: "http_group_ctl \<Rightarrow> string \<Rightarrow> string \<Rightarrow> http_group_ctl" where
  "http_ctl_UnRegister c proxyName grp =
     (case hc_groups c grp of
        None \<Rightarrow> c
      | Some gid \<Rightarrow>
          let (isEmpty, g, r) = http_group_UnRegister (hc_router c) (hc_store c gid) proxyName;
              c' = c\<lparr>hc_store := (hc_store c)(gid := g), hc_router := r\<rparr>
          in if isEmpty then c'\<lparr>hc_groups := (hc_groups c')(grp := None)\<rparr> else c')"

text \<open>
  The selection \<open>g.pxyNames[int(newIndex)%len(g.pxyNames)]\<close>: \<open>int(newIndex)\<close> reads the
  unsigned counter as a signed integer, Go's \<open>%\<close> truncates towards zero, and a negative
  index panics.
\<close>

datatype 'a selection = Selected 'a | NoneAvailable | IndexPanic

definition go_rem :: "int \<Rightarrow> int \<Rightarrow> int" where
  "go_rem a b = sgn a * (\<bar>a\<bar> mod \<bar>b\<bar>)"

definition pick :: "64 word \<Rightarrow> string list \<Rightarrow> string selection" where
  "pick newIndex names =
     (if names = [] then NoneAvailable
      else let i = go_rem (sint newIndex) (int (length names)) in
        if i < 0 then IndexPanic else Selected (names ! nat i))"

definition chooseEndpoint :: "http_group \<Rightarrow> string selection \<times> http_group" where
  "chooseEndpoint g =
     (let newIndex = hg_index g + 1;
          g' = g\<lparr>hg_index := newIndex\<rparr>
      in (case pick newIndex (hg_pxyNames g) of
            Selected name \<Rightarrow> (if name = '''' then NoneAvailable else Selected name, g')
          | s \<Rightarrow> (s, g')))"

definition createConn :: "http_group \<Rightarrow> create_conn_fn selection \<times> http_group" where
  "createConn g =
     (let newIndex = hg_index g + 1;
          g' = g\<lparr>hg_index := newIndex\<rparr>
      in (case pick newIndex (hg_pxyNames g) of
            Selected name \<Rightarrow>
              (case map_of (hg_createFuncs g) name of
                 None \<Rightarrow> (NoneAvailable, g')
               | Some f \<Rightarrow> (Selected f, g'))
          | NoneAvailable \<Rightarrow> (NoneAvailable, g')
          | IndexPanic \<Rightarrow> (IndexPanic, g')))"

definition createConnByEndpoint :: "http_group \<Rightarrow> string \<Rightarrow> create_conn_fn option" where
  "createConnByEndpoint g endpoint = map_of (hg_createFuncs g) endpoint"

section \<open>Invariant\<close>

definition http_group_inv :: "http_group \<Rightarrow> bool" where
  "http_group_inv g \<longleftrightarrow> distinct (map fst (hg_createFuncs g)) \<and> distinct (hg_pxyNames g) \<and>
     set (hg_pxyNames g) = dom (map_of (hg_createFuncs g))"

definition group_key :: "http_group \<Rightarrow> string \<times> string \<times> string" where
  "group_key g = (hg_domain g, hg_location g, hg_routeByHTTPUser g)"

text \<open>A route that leads to the group with the reference \<open>gid\<close>.\<close>

definition leads_to :: "nat \<Rightarrow> route_config \<Rightarrow> bool" where
  "leads_to gid cfg \<longleftrightarrow> rc_CreateConnFn cfg = Some (GroupCreateConn gid) \<and>
     rc_ChooseEndpointFn cfg = Some (GroupChooseEndpoint gid) \<and>
     rc_CreateConnByEndpointFn cfg = Some (GroupCreateConnByEndpoint gid)"

text \<open>
  A group that has members carries its name and has a route that leads to it; a group
  without members has no name and key yet.
\<close>

definition group_served :: "vhost_router \<Rightarrow> string \<Rightarrow> nat \<Rightarrow> http_group \<Rightarrow> bool" where
  "group_served r name gid g \<longleftrightarrow> hg_createFuncs g \<noteq> [] \<longrightarrow>
     hg_group g = name \<and> (\<exists>cfg. route_at r (group_key g) = Some cfg \<and> leads_to gid cfg)"

definition http_ctl_inv :: "http_group_ctl \<Rightarrow> bool" where
  "http_ctl_inv c \<longleftrightarrow>
     routers_inv (hc_router c) \<and>
     (\<forall>n m gid. hc_groups c n = Some gid \<and> hc_groups c m = Some gid \<longrightarrow> n = m) \<and>
     (\<forall>name gid. hc_groups c name = Some gid \<longrightarrow> gid < hc_next c \<and>
        http_group_inv (hc_store c gid) \<and> group_served (hc_router c) name gid (hc_store c gid))"

section \<open>Steps\<close>

text \<open>
  What can happen to the controller and the router it shares with the reverse proxy.
  A proxy unregisters only what it has registered (\<open>HTTPProxy.closeFuncs\<close>); a proxy
  without group removes its own route only.
\<close>

inductive http_step :: "http_group_ctl \<Rightarrow> http_group_ctl \<Rightarrow> bool" where
  register: "http_step c (snd (http_ctl_Register c p grp key cfg fn))"
| unregister: "hc_groups c grp = Some gid \<Longrightarrow> p \<in> set (hg_pxyNames (hc_store c gid)) \<Longrightarrow>
    http_step c (http_ctl_UnRegister c p grp)"
| direct: "rc_CreateConnFn cfg = Some (ProxyRealConn p) \<Longrightarrow>
    http_step c (c\<lparr>hc_router := fst (rp_Register (hc_router c) cfg)\<rparr>)"
| undirect: "route_at (hc_router c) (rc_Domain cfg, rc_Location cfg, rc_RouteByHTTPUser cfg) = Some cfg' \<Longrightarrow>
    rc_CreateConnFn cfg' = Some (ProxyRealConn p) \<Longrightarrow>
    http_step c (c\<lparr>hc_router := rp_UnRegister (hc_router c) cfg\<rparr>)"
| choose: "http_step c (c\<lparr>hc_store := (hc_store c)(gid := snd (chooseEndpoint (hc_store c gid)))\<rparr>)"
| connect: "http_step c (c\<lparr>hc_store := (hc_store c)(gid := snd (createConn (hc_store c gid)))\<rparr>)"

inductive_cases http_stepE: "http_step c c'"

inductive http_reachable :: "http_group_ctl \<Rightarrow> bool" where
  start: "http_reachable (NewHTTPGroupController NewRouters)"
| step: "http_reachable c \<Longrightarrow> http_step c c' \<Longrightarrow> http_reachable c'"

section \<open>Preservation\<close>

lemma NewHTTPGroup_inv [inv_intros]: "http_group_inv NewHTTPGroup"
  by (simp add: http_group_inv_def NewHTTPGroup_def)

lemma map_of_Nil_iff: "map_of xs = Map.empty \<longleftrightarrow> xs = []"
  by (cases xs) (auto simp: fun_eq_iff)

lemma add_member_inv [inv_intros]: "http_group_inv g \<Longrightarrow> add_member p fn g = Inr g' \<Longrightarrow> http_group_inv g'"
proof -
  assume inv: "http_group_inv g" and add: "add_member p fn g = Inr g'"
  from add have new: "map_of (hg_createFuncs g) p = None"
    and g': "g' = g\<lparr>hg_createFuncs := AList.update p fn (hg_createFuncs g), hg_pxyNames := hg_pxyNames g @ [p]\<rparr>"
    by (auto simp: add_member_def simp del: not_None_eq split: if_splits)
  from new have "p \<notin> dom (map_of (hg_createFuncs g))" by (simp add: domIff)
  with inv show ?thesis
    unfolding http_group_inv_def g' by (simp add: AList.update_conv' distinct_update)
qed

lemma add_member_Inr:
  "add_member p fn g = Inr g' \<Longrightarrow> hg_createFuncs g' = AList.update p fn (hg_createFuncs g) \<and>
     hg_pxyNames g' = hg_pxyNames g @ [p] \<and> group_key g' = group_key g \<and> hg_group g' = hg_group g \<and>
     hg_groupKey g' = hg_groupKey g \<and> hg_index g' = hg_index g"
  by (auto simp: add_member_def group_key_def split: if_splits)

lemma AList_update_not_Nil [simp]: "AList.update k v xs \<noteq> []"
  by (cases xs) auto

definition member_removed :: "http_group \<Rightarrow> string \<Rightarrow> http_group" where
  "member_removed g p = g\<lparr>hg_createFuncs := AList.delete p (hg_createFuncs g),
     hg_pxyNames := slice_remove p (hg_pxyNames g)\<rparr>"

lemma member_removed_simps [simp]:
  "hg_createFuncs (member_removed g p) = AList.delete p (hg_createFuncs g)"
  "hg_pxyNames (member_removed g p) = slice_remove p (hg_pxyNames g)"
  "group_key (member_removed g p) = group_key g" "hg_group (member_removed g p) = hg_group g"
  by (simp_all add: member_removed_def group_key_def)

lemma http_group_UnRegister_eq:
  "http_group_UnRegister r g p =
     (if AList.delete p (hg_createFuncs g) = []
      then (True, member_removed g p, routers_Del r (hg_domain g) (hg_location g) (hg_routeByHTTPUser g))
      else (False, member_removed g p, r))"
  by (simp add: http_group_UnRegister_def member_removed_def Let_def)

lemma member_removed_inv [inv_intros]: "http_group_inv g \<Longrightarrow> http_group_inv (member_removed g p)"
  by (auto simp: http_group_inv_def AList.delete_conv' distinct_delete)

lemma selection_frame:
  "snd (chooseEndpoint g) = g\<lparr>hg_index := hg_index g + 1\<rparr>"
  "snd (createConn g) = g\<lparr>hg_index := hg_index g + 1\<rparr>"
  by (auto simp: chooseEndpoint_def createConn_def Let_def split: selection.splits option.splits)

lemma http_ctl_invD:
  assumes "http_ctl_inv c" and "hc_groups c name = Some gid"
  shows "gid < hc_next c" "http_group_inv (hc_store c gid)"
    "group_served (hc_router c) name gid (hc_store c gid)"
  using assms by (auto simp: http_ctl_inv_def)

lemma http_ctl_inv_inj:
  "http_ctl_inv c \<Longrightarrow> hc_groups c n = Some g \<Longrightarrow> hc_groups c m = Some g \<Longrightarrow> n = m"
  by (auto simp: http_ctl_inv_def)

lemma find_or_create_inv:
  assumes "http_ctl_inv c" and "find_or_create c grp = (gid, c')"
  shows "http_ctl_inv c'" "hc_groups c' grp = Some gid" "hc_router c' = hc_router c"
proof -
  have "http_ctl_inv c' \<and> hc_groups c' grp = Some gid \<and> hc_router c' = hc_router c"
  proof (cases "hc_groups c grp")
    case (Some g)
    with assms show ?thesis by (simp add: find_or_create_def)
  next
    case None
    have lt: "n < hc_next c" if "hc_groups c m = Some n" for m n
      using assms(1) that by (auto simp: http_ctl_inv_def)
    have c': "gid = hc_next c" "c' = c\<lparr>hc_groups := (hc_groups c)(grp \<mapsto> hc_next c),
        hc_store := (hc_store c)(hc_next c := NewHTTPGroup), hc_next := Suc (hc_next c)\<rparr>"
      using None assms(2) by (auto simp: find_or_create_def Let_def)
    have fresh: "hc_groups c m \<noteq> Some (hc_next c)" for m using lt [of m] by auto
    have "group_served r n i NewHTTPGroup" for r n i by (simp add: group_served_def NewHTTPGroup_def)
    then show ?thesis
      unfolding http_ctl_inv_def c' using assms(1) fresh NewHTTPGroup_inv
      by (auto simp: http_ctl_inv_def less_Suc_eq)
  qed
  then show "http_ctl_inv c'" "hc_groups c' grp = Some gid" "hc_router c' = hc_router c" by blast+
qed

text \<open>
  Replacing one group object and the router keeps the invariant, if the routes that lead
  to other groups stay.
\<close>

lemma http_ctl_inv_replace:
  assumes inv: "http_ctl_inv c" and gid: "hc_groups c grp = Some gid"
    and g: "http_group_inv g" "group_served r grp gid g" and r: "routers_inv r"
    and keep: "\<And>k cfg n. route_at (hc_router c) k = Some cfg \<Longrightarrow> leads_to n cfg \<Longrightarrow> n \<noteq> gid \<Longrightarrow>
       route_at r k = Some cfg"
  shows "http_ctl_inv (c\<lparr>hc_store := (hc_store c)(gid := g), hc_router := r\<rparr>)"
proof -
  have other: "group_served r name n (hc_store c n)" if "hc_groups c name = Some n" "n \<noteq> gid" for name n
    using http_ctl_invD(3) [OF inv that(1)] keep that(2) unfolding group_served_def by metis
  have same: "name = grp" if "hc_groups c name = Some gid" for name
    by (rule http_ctl_inv_inj [OF inv that gid])
  show ?thesis
    unfolding http_ctl_inv_def using inv g r other same
    by (auto simp: http_ctl_inv_def)
qed

lemma leads_to_unique: "leads_to n cfg \<Longrightarrow> leads_to m cfg \<Longrightarrow> n = m"
  by (simp add: leads_to_def)

lemma leads_to_group_route [simp]: "leads_to gid (group_route gid cfg)"
  by (simp add: leads_to_def group_route_def)

lemma http_group_Register_inv:
  assumes inv: "http_ctl_inv c" and gid: "hc_groups c grp = Some gid"
    and reg: "http_group_Register gid (hc_router c) (hc_store c gid) p grp key cfg fn = (err, g, r)"
  shows "http_ctl_inv (c\<lparr>hc_store := (hc_store c)(gid := g), hc_router := r\<rparr>)"
proof (cases "hg_createFuncs (hc_store c gid) = []")
  case False
  then have "r = hc_router c \<and> (g = hc_store c gid \<or> add_member p fn (hc_store c gid) = Inr g)"
    using reg by (auto simp: http_group_Register_def split: if_splits sum.splits)
  moreover have "group_served (hc_router c) grp gid g" if "add_member p fn (hc_store c gid) = Inr g"
    using http_ctl_invD(3) [OF inv gid] False add_member_Inr [OF that] by (auto simp: group_served_def)
  ultimately show ?thesis
    using http_ctl_invD [OF inv gid] add_member_inv inv
    by (intro http_ctl_inv_replace [OF inv gid]) (auto simp: http_ctl_inv_def)
next
  case True
  let ?d = "rc_Domain cfg" and ?l = "rc_Location cfg" and ?u = "rc_RouteByHTTPUser cfg"
  let ?g' = "(hc_store c gid)\<lparr>hg_group := grp, hg_groupKey := key, hg_domain := ?d,
      hg_location := ?l, hg_routeByHTTPUser := ?u\<rparr>"
  have rinv: "routers_inv (hc_router c)" using inv by (simp add: http_ctl_inv_def)
  show ?thesis
  proof (cases "route_at (hc_router c) (?d, ?l, ?u)")
    case (Some x)
    then have "r = hc_router c \<and> g = hc_store c gid"
      using reg True vr.add_taken [OF rinv] by (auto simp: http_group_Register_def)
    then show ?thesis
      using http_ctl_invD [OF inv gid] rinv by (intro http_ctl_inv_replace [OF inv gid]) auto
  next
    case None
    note add = vr.add_free [OF rinv None, of "group_route gid cfg"]
    have add_ok: "routers_Add (hc_router c) ?d ?l ?u (group_route gid cfg) = (r, None)"
      and mem: "add_member p fn ?g' = Inr g"
      using reg True add by (auto simp: http_group_Register_def Let_def add_member_def split: prod.splits)
    have "http_group_inv ?g'" using http_ctl_invD(2) [OF inv gid] by (simp add: http_group_inv_def)
    with mem have "http_group_inv g" by (rule add_member_inv [rotated])
    moreover have "group_served r grp gid g"
      using add_member_Inr [OF mem] add add_ok by (auto simp: group_served_def group_key_def)
    moreover have "routers_inv r" using routers_inv_Add [OF rinv] add_ok by (metis fst_conv)
    moreover have "route_at r k = Some cfg'" if "route_at (hc_router c) k = Some cfg'" for k cfg'
      using that None add add_ok by auto
    ultimately show ?thesis by (intro http_ctl_inv_replace [OF inv gid]) auto
  qed
qed

lemma http_ctl_Register_inv [inv_intros]:
  assumes "http_ctl_inv c"
  shows "http_ctl_inv (snd (http_ctl_Register c p grp key cfg fn))"
proof -
  obtain gid c' where fc: "find_or_create c grp = (gid, c')" by fastforce
  obtain err g r where reg: "http_group_Register gid (hc_router c') (hc_store c' gid) p grp key cfg fn = (err, g, r)"
    by (metis prod_cases3)
  from http_group_Register_inv [OF find_or_create_inv(1,2) [OF assms fc] reg] fc reg
  show ?thesis by (simp add: http_ctl_Register_def)
qed

lemma group_removed_inv:
  "http_ctl_inv c \<Longrightarrow> http_ctl_inv (c\<lparr>hc_groups := (hc_groups c)(grp := None)\<rparr>)"
  by (auto simp: http_ctl_inv_def)

lemma http_ctl_UnRegister_inv [inv_intros]:
  assumes inv: "http_ctl_inv c" and gid: "hc_groups c grp = Some gid"
    and p: "p \<in> set (hg_pxyNames (hc_store c gid))"
  shows "http_ctl_inv (http_ctl_UnRegister c p grp)"
proof -
  let ?g = "hc_store c gid"
  have rinv: "routers_inv (hc_router c)" using inv by (simp add: http_ctl_inv_def)
  have "hg_createFuncs ?g \<noteq> []"
    using http_ctl_invD(2) [OF inv gid] p by (auto simp: http_group_inv_def)
  with http_ctl_invD(3) [OF inv gid] obtain cfg where
    own: "hg_group ?g = grp" "route_at (hc_router c) (group_key ?g) = Some cfg" "leads_to gid cfg"
    by (auto simp: group_served_def)
  note g = member_removed_inv [OF http_ctl_invD(2) [OF inv gid], of p]
  show ?thesis
  proof (cases "AList.delete p (hg_createFuncs ?g) = []")
    case True
    let ?r = "routers_Del (hc_router c) (hg_domain ?g) (hg_location ?g) (hg_routeByHTTPUser ?g)"
    have "route_at ?r k = Some cfg'" if "route_at (hc_router c) k = Some cfg'" "leads_to n cfg'" "n \<noteq> gid" for k cfg' n
      using that own leads_to_unique [of n cfg' gid] by (auto simp: route_at_Del group_key_def)
    then have "http_ctl_inv (c\<lparr>hc_store := (hc_store c)(gid := member_removed ?g p), hc_router := ?r\<rparr>)"
      using g True routers_inv_Del [OF rinv]
      by (intro http_ctl_inv_replace [OF inv gid]) (auto simp: group_served_def)
    from group_removed_inv [OF this, of grp] gid True show ?thesis
      by (simp add: http_ctl_UnRegister_def http_group_UnRegister_eq)
  next
    case False
    have "http_ctl_inv (c\<lparr>hc_store := (hc_store c)(gid := member_removed ?g p), hc_router := hc_router c\<rparr>)"
      using g own rinv by (intro http_ctl_inv_replace [OF inv gid]) (auto simp: group_served_def)
    with gid False show ?thesis by (simp add: http_ctl_UnRegister_def http_group_UnRegister_eq)
  qed
qed

lemma http_ctl_inv_router:
  assumes inv: "http_ctl_inv c" and r: "routers_inv r"
    and keep: "\<And>k cfg n. route_at (hc_router c) k = Some cfg \<Longrightarrow> leads_to n cfg \<Longrightarrow> route_at r k = Some cfg"
  shows "http_ctl_inv (c\<lparr>hc_router := r\<rparr>)"
proof -
  have "group_served r name n (hc_store c n)" if "hc_groups c name = Some n" for name n
    using http_ctl_invD(3) [OF inv that] keep unfolding group_served_def by metis
  then show ?thesis using inv r by (auto simp: http_ctl_inv_def)
qed

lemma index_only_inv:
  "http_ctl_inv c \<Longrightarrow> http_ctl_inv (c\<lparr>hc_store := (hc_store c)(gid := (hc_store c gid)\<lparr>hg_index := i\<rparr>)\<rparr>)"
  by (auto simp: http_ctl_inv_def http_group_inv_def group_served_def group_key_def)

lemma http_step_inv [inv_intros]:
  assumes "http_step c c'" and inv: "http_ctl_inv c"
  shows "http_ctl_inv c'"
proof -
  have rinv: "routers_inv (hc_router c)" using inv by (simp add: http_ctl_inv_def)
  from assms(1) show ?thesis
  proof (cases rule: http_step.cases)
    case (direct cfg p)
    have "route_at (fst (rp_Register (hc_router c) cfg)) k = Some x" if "route_at (hc_router c) k = Some x" for k x
      using that vr.add_free [OF rinv] vr.add_taken [OF rinv]
      by (cases "route_at (hc_router c) (rc_Domain cfg, rc_Location cfg, rc_RouteByHTTPUser cfg)")
        (auto simp: rp_Register_def)
    with direct show ?thesis
      using http_ctl_inv_router [OF inv, of "fst (rp_Register (hc_router c) cfg)"] routers_inv_Add [OF rinv]
      by (simp add: rp_Register_def)
  next
    case (undirect cfg cfg' p)
    have "route_at (rp_UnRegister (hc_router c) cfg) k = Some x"
      if "route_at (hc_router c) k = Some x" "leads_to n x" for k x n
      using that undirect by (auto simp: rp_UnRegister_def route_at_Del leads_to_def)
    with undirect(1) show ?thesis
      using http_ctl_inv_router [OF inv, of "rp_UnRegister (hc_router c) cfg"] routers_inv_Del [OF rinv]
      by (simp add: rp_UnRegister_def)
  qed (use inv in \<open>auto simp: http_ctl_Register_inv http_ctl_UnRegister_inv selection_frame index_only_inv\<close>)
qed

lemma http_reachable_inv: "http_reachable c \<Longrightarrow> http_ctl_inv c"
proof (induction rule: http_reachable.induct)
  case start
  show ?case by (simp add: http_ctl_inv_def NewHTTPGroupController_def routers_inv_new)
qed (rule http_step_inv)

section \<open>Round robin\<close>

fun choose_many :: "nat \<Rightarrow> http_group \<Rightarrow> string selection list \<times> http_group" where
  "choose_many 0 g = ([], g)"
| "choose_many (Suc n) g =
     (let (s, g') = chooseEndpoint g; (ss, g'') = choose_many n g' in (s # ss, g''))"

lemma go_rem_nonneg: "0 \<le> a \<Longrightarrow> 0 < b \<Longrightarrow> go_rem a b = a mod b"
  by (cases "a = 0") (simp_all add: go_rem_def)

lemma sint_nonneg: "unat (w :: 64 word) < 2 ^ 63 \<Longrightarrow> sint w = int (unat w)"
proof -
  assume "unat w < 2 ^ 63"
  then have "uint w < int (2 ^ 63)" by (simp only: unat_eq_nat_uint nat_less_iff [OF uint_ge_0])
  then have "uint w < 2 ^ 63" by simp
  moreover have "- (2 ^ 63) \<le> uint w" by (rule order_trans [OF _ uint_ge_0]) simp
  ultimately have "signed_take_bit 63 (uint w) = uint w" by (intro signed_take_bit_int_eq_self)
  moreover have "int (unat w) = uint w" by (simp only: unat_eq_nat_uint int_nat_eq uint_ge_0 if_True)
  ultimately show ?thesis by (simp add: sint_uint)
qed

lemma pick_small:
  assumes "names \<noteq> []" and "unat w < 2 ^ 63"
  shows "pick w names = Selected (names ! (unat w mod length names))"
proof -
  have "go_rem (sint w) (int (length names)) = int (unat w mod length names)"
    using assms by (simp add: sint_nonneg go_rem_nonneg zmod_int)
  then show ?thesis using assms(1) by (simp add: pick_def Let_def)
qed

lemma unat_Suc64: "unat (w :: 64 word) + 1 < 2 ^ 64 \<Longrightarrow> unat (w + 1) = unat w + 1"
  by (subst unat_plus_simple [THEN iffD1]) (simp_all add: no_olen_add_nat)

lemma chooseEndpoint_small:
  assumes "hg_pxyNames g \<noteq> []" and "'''' \<notin> set (hg_pxyNames g)" and "unat (hg_index g) + 1 < 2 ^ 63"
  shows "fst (chooseEndpoint g) =
    Selected (hg_pxyNames g ! ((unat (hg_index g) + 1) mod length (hg_pxyNames g)))"
proof -
  have "unat (hg_index g + 1) = unat (hg_index g) + 1" using assms(3) by (intro unat_Suc64) simp
  moreover have "hg_pxyNames g ! (i mod length (hg_pxyNames g)) \<noteq> ''''" for i
    using assms(1,2) by (metis length_greater_0_conv mod_less_divisor nth_mem)
  ultimately show ?thesis
    using assms pick_small [of "hg_pxyNames g" "hg_index g + 1"] by (simp add: chooseEndpoint_def Let_def)
qed

lemma choose_many_eq:
  assumes "hg_pxyNames g \<noteq> []" and "'''' \<notin> set (hg_pxyNames g)" and "unat (hg_index g) + n < 2 ^ 63"
  shows "fst (choose_many n g) =
    map (\<lambda>i. Selected (hg_pxyNames g ! ((unat (hg_index g) + 1 + i) mod length (hg_pxyNames g)))) [0..<n]"
  using assms
proof (induction n arbitrary: g)
  case (Suc n)
  let ?g' = "snd (chooseEndpoint g)"
  have g': "hg_pxyNames ?g' = hg_pxyNames g" "hg_index ?g' = hg_index g + 1"
    by (simp_all add: selection_frame)
  have "unat (hg_index g + 1) = unat (hg_index g) + 1" using Suc.prems by (intro unat_Suc64) simp
  with Suc.IH [of ?g'] Suc.prems g' chooseEndpoint_small [of g] show ?case
    by (simp add: upt_conv_Cons map_Suc_upt [symmetric] case_prod_unfold Let_def del: upt_Suc)
qed simp

lemma rotation_perm:
  assumes "xs \<noteq> []"
  shows "mset (map (\<lambda>i. xs ! ((k + i) mod length xs)) [0..<length xs]) = mset xs"
proof -
  have "map (\<lambda>i. xs ! ((k + i) mod length xs)) [0..<length xs] = rotate k xs"
    using assms by (intro nth_equalityI) (simp_all add: nth_rotate add.commute)
  moreover have "mset (rotate k xs) = mset xs"
    unfolding rotate_drop_take by (metis append_take_drop_id mset_append union_commute)
  ultimately show ?thesis by simp
qed

section \<open>Properties\<close>

text \<open>
  (C16) In every reachable state of the controller a group that has members is served: the
  router holds a route under the group's domain, location and user that leads to this very
  group, no two group names share a group object, and every member in the rotation has its
  connection function, so that a request routed to a chosen member finds it.
\<close>

theorem http_groups_served:
  assumes "http_reachable c" and "hc_groups c name = Some gid"
    and "hg_pxyNames (hc_store c gid) \<noteq> []"
  shows "hg_group (hc_store c gid) = name \<and>
    (\<exists>cfg. route_at (hc_router c) (group_key (hc_store c gid)) = Some cfg \<and> leads_to gid cfg) \<and>
    (\<forall>m. hc_groups c m = Some gid \<longrightarrow> m = name) \<and> distinct (hg_pxyNames (hc_store c gid)) \<and>
    (\<forall>p. p \<in> set (hg_pxyNames (hc_store c gid)) \<longleftrightarrow> createConnByEndpoint (hc_store c gid) p \<noteq> None)"
proof -
  note inv = http_reachable_inv [OF assms(1)]
  note g = http_ctl_invD [OF inv assms(2)]
  have "hg_createFuncs (hc_store c gid) \<noteq> []" using g(2) assms(3) by (auto simp: http_group_inv_def)
  with g(3) have "hg_group (hc_store c gid) = name"
    "\<exists>cfg. route_at (hc_router c) (group_key (hc_store c gid)) = Some cfg \<and> leads_to gid cfg"
    by (auto simp: group_served_def)
  moreover have "distinct (hg_pxyNames (hc_store c gid))"
    "p \<in> set (hg_pxyNames (hc_store c gid)) \<longleftrightarrow> createConnByEndpoint (hc_store c gid) p \<noteq> None" for p
    using g(2) by (auto simp: http_group_inv_def createConnByEndpoint_def)
  moreover have "m = name" if "hc_groups c m = Some gid" for m
    by (rule http_ctl_inv_inj [OF inv that assms(2)])
  ultimately show ?thesis by blast
qed

definition demo_cfg :: route_config where
  "demo_cfg = \<lparr>rc_Domain = ''a.example.com'', rc_Location = ''/'', rc_RewriteHost = '''',
     rc_Username = '''', rc_Password = '''', rc_Headers = [], rc_RouteByHTTPUser = '''',
     rc_CreateConnFn = Some (ProxyRealConn ''p1''), rc_ChooseEndpointFn = None,
     rc_CreateConnByEndpointFn = None\<rparr>"

definition demo_groups :: http_group_ctl where
  "demo_groups = snd (http_ctl_Register (snd (http_ctl_Register
     (NewHTTPGroupController NewRouters) ''p1'' ''web'' ''k'' demo_cfg (ProxyRealConn ''p1'')))
     ''p2'' ''web'' ''k'' demo_cfg (ProxyRealConn ''p2''))"

lemma demo_groups_reachable: "http_reachable demo_groups"
  unfolding demo_groups_def
  by (intro http_reachable.step [OF _ http_step.register] http_reachable.start)

lemma demo_groups_group:
  "hc_groups demo_groups ''web'' = Some 0" "hg_pxyNames (hc_store demo_groups 0) = [''p1'', ''p2'']"
  "hg_index (hc_store demo_groups 0) = 0" "group_key (hc_store demo_groups 0) = (''a.example.com'', ''/'', '''')"
  "hg_groupKey (hc_store demo_groups 0) = ''k''"
  by (simp_all add: demo_groups_def http_ctl_Register_def http_group_Register_def find_or_create_def
      NewHTTPGroupController_def NewRouters_def NewHTTPGroup_def demo_cfg_def Let_def routers_Add_def
      routers_exist_def add_member_def sort_by_location_def group_key_def)

theorem http_groups_served_witness:
  "hg_group (hc_store demo_groups 0) = ''web'' \<and>
    (\<exists>cfg. route_at (hc_router demo_groups) (group_key (hc_store demo_groups 0)) = Some cfg \<and> leads_to 0 cfg)"
  using http_groups_served [OF demo_groups_reachable demo_groups_group(1)] demo_groups_group(2) by simp

text \<open>
  (C17) The rotation is fair: as long as the counter has not passed half of the 64-bit range,
  as many consecutive requests as the group has members reach every member exactly once.
\<close>

theorem round_robin_fair:
  assumes "hg_pxyNames g \<noteq> []" and "'''' \<notin> set (hg_pxyNames g)"
    and "unat (hg_index g) + length (hg_pxyNames g) < 2 ^ 63"
  shows "mset (fst (choose_many (length (hg_pxyNames g)) g)) = image_mset Selected (mset (hg_pxyNames g))"
proof -
  let ?xs = "hg_pxyNames g"
  have "fst (choose_many (length ?xs) g) =
      map Selected (map (\<lambda>i. ?xs ! ((unat (hg_index g) + 1 + i) mod length ?xs)) [0..<length ?xs])"
    unfolding choose_many_eq [OF assms] by simp
  then show ?thesis by (simp only: mset_map [of Selected] rotation_perm [OF assms(1)])
qed

theorem round_robin_fair_witness:
  "mset (fst (choose_many 2 (hc_store demo_groups 0))) = image_mset Selected (mset [''p1'', ''p2''])"
proof -
  have two: "length [''p1'', ''p2''] = 2" by simp
  show ?thesis
    using round_robin_fair [of "hc_store demo_groups 0", unfolded demo_groups_group two] by simp
qed

text \<open>
  The counter is an unsigned 64-bit integer read as a signed one: a group whose number
  of members does not divide \<open>2 ^ 63\<close> panics with an index out of range at the request that
  brings the counter to \<open>2 ^ 63\<close>.
\<close>

theorem round_robin_overflow_panics:
  assumes "hg_index g = 2 ^ 63 - 1" and "hg_pxyNames g \<noteq> []"
    and "\<not> length (hg_pxyNames g) dvd 2 ^ 63"
  shows "fst (chooseEndpoint g) = IndexPanic \<and> fst (createConn g) = IndexPanic"
proof -
  let ?n = "int (length (hg_pxyNames g))"
  have "hg_index g + 1 = 2 ^ 63" using assms(1) by simp
  moreover have "sint (2 ^ 63 :: 64 word) = - (2 ^ 63)" by (simp add: sint_uint)
  moreover have "go_rem (- (2 ^ 63)) ?n < 0"
  proof -
    have "\<not> ?n dvd 2 ^ 63" using assms(3) int_dvd_int_iff [of "length (hg_pxyNames g)" "2 ^ 63"] by simp
    then have "2 ^ 63 mod ?n \<noteq> 0" by (simp add: dvd_eq_mod_eq_0)
    moreover have "0 \<le> 2 ^ 63 mod ?n" using assms(2) by simp
    ultimately show ?thesis by (simp add: go_rem_def)
  qed
  ultimately show ?thesis
    using assms(2) by (simp add: chooseEndpoint_def createConn_def pick_def Let_def)
qed

theorem round_robin_overflow_panics_witness:
  "fst (chooseEndpoint (NewHTTPGroup\<lparr>hg_pxyNames := [''p1'', ''p2'', ''p3''], hg_index := 2 ^ 63 - 1\<rparr>)) =
   IndexPanic"
proof -
  have three: "length [''p1'', ''p2'', ''p3''] = 3" by simp
  have "\<not> (3 :: nat) dvd 2 ^ 63" by simp
  then show ?thesis
    using round_robin_overflow_panics
      [of "NewHTTPGroup\<lparr>hg_pxyNames := [''p1'', ''p2'', ''p3''], hg_index := 2 ^ 63 - 1\<rparr>"]
    by (simp add: three del: list.size)
qed

text \<open>
  A proxy that asks to join a group with another group key is refused with
  \<open>ErrGroupAuthFailed\<close>, and the controller, its groups and the router are unchanged.
\<close>

theorem wrong_group_key_refused:
  assumes "http_reachable c" and "hc_groups c grp = Some gid" and "hg_pxyNames (hc_store c gid) \<noteq> []"
    and "(rc_Domain cfg, rc_Location cfg, rc_RouteByHTTPUser cfg) = group_key (hc_store c gid)"
    and "groupKey \<noteq> hg_groupKey (hc_store c gid)"
  shows "http_ctl_Register c p grp groupKey cfg fn = (Some ErrGroupAuthFailed, c)"
proof -
  note g = http_ctl_invD [OF http_reachable_inv [OF assms(1)] assms(2)]
  have ne: "hg_createFuncs (hc_store c gid) \<noteq> []" using g(2) assms(3) by (auto simp: http_group_inv_def)
  moreover have "hg_group (hc_store c gid) = grp" using g(3) ne by (simp add: group_served_def)
  ultimately show ?thesis
    using assms(2,4,5) by (simp add: http_ctl_Register_def find_or_create_def http_group_Register_def group_key_def)
qed

theorem wrong_group_key_refused_witness:
  "http_ctl_Register demo_groups ''p3'' ''web'' ''other'' demo_cfg (ProxyRealConn ''p3'') =
   (Some ErrGroupAuthFailed, demo_groups)"
  by (rule wrong_group_key_refused [OF demo_groups_reachable demo_groups_group(1)])
    (simp_all add: demo_groups_group demo_cfg_def)

text \<open>
  Joining and leaving cancel: after a proxy has registered successfully in a group that
  did not exist and unregistered again, no group of that name exists and the router answers
  for every key what it answered before.
\<close>

theorem register_unregister_restores:
  assumes "http_reachable c" and "hc_groups c grp = None"
    and "http_ctl_Register c p grp groupKey cfg fn = (None, c')"
  shows "hc_groups (http_ctl_UnRegister c' p grp) = hc_groups c \<and>
    route_at (hc_router (http_ctl_UnRegister c' p grp)) = route_at (hc_router c) \<and>
    (\<exists>gid. hc_groups c' grp = Some gid \<and> hg_pxyNames (hc_store c' gid) = [p])"
proof -
  let ?gid = "hc_next c" and ?k = "(rc_Domain cfg, rc_Location cfg, rc_RouteByHTTPUser cfg)"
  have rinv: "routers_inv (hc_router c)"
    using http_reachable_inv [OF assms(1)] by (simp add: http_ctl_inv_def)
  have free: "route_at (hc_router c) ?k = None"
    using assms vr.add_taken [OF rinv]
    by (cases "route_at (hc_router c) ?k")
      (auto simp: http_ctl_Register_def find_or_create_def http_group_Register_def NewHTTPGroup_def Let_def
        split: prod.splits)
  note add = vr.add_free [OF rinv free, of "group_route ?gid cfg"]
  then obtain r where r: "routers_Add (hc_router c) (rc_Domain cfg) (rc_Location cfg)
      (rc_RouteByHTTPUser cfg) (group_route ?gid cfg) = (r, None)"
    and rt: "route_at r = (route_at (hc_router c))(?k \<mapsto> group_route ?gid cfg)"
    by (metis prod.collapse)
  have c': "c' = c\<lparr>hc_groups := (hc_groups c)(grp \<mapsto> ?gid), hc_next := Suc ?gid,
      hc_store := (hc_store c)(?gid := \<lparr>hg_group = grp, hg_groupKey = groupKey, hg_domain = rc_Domain cfg,
        hg_location = rc_Location cfg, hg_routeByHTTPUser = rc_RouteByHTTPUser cfg,
        hg_createFuncs = [(p, fn)], hg_pxyNames = [p], hg_index = 0\<rparr>),
      hc_router := r\<rparr>"
    using assms(2,3) r by (simp add: http_ctl_Register_def find_or_create_def http_group_Register_def
        NewHTTPGroup_def add_member_def Let_def)
  have "route_at (routers_Del r (rc_Domain cfg) (rc_Location cfg) (rc_RouteByHTTPUser cfg)) = route_at (hc_router c)"
    using rt free by (auto simp: route_at_Del fun_eq_iff)
  then show ?thesis
    using assms(2) unfolding c' by (auto simp: http_ctl_UnRegister_def http_group_UnRegister_eq fun_eq_iff)
qed

theorem register_unregister_restores_witness:
  "hc_groups (http_ctl_UnRegister (snd (http_ctl_Register (NewHTTPGroupController NewRouters)
      ''p1'' ''web'' ''k'' demo_cfg (ProxyRealConn ''p1''))) ''p1'' ''web'') ''web'' = None"
proof -
  let ?c = "NewHTTPGroupController NewRouters"
  have e: "hc_groups ?c = Map.empty" by (simp add: NewHTTPGroupController_def)
  have "http_ctl_Register ?c ''p1'' ''web'' ''k'' demo_cfg (ProxyRealConn ''p1'') =
      (None, snd (http_ctl_Register ?c ''p1'' ''web'' ''k'' demo_cfg (ProxyRealConn ''p1'')))"
    by (simp add: http_ctl_Register_def http_group_Register_def find_or_create_def
      NewHTTPGroupController_def NewRouters_def NewHTTPGroup_def demo_cfg_def Let_def routers_Add_def
      routers_exist_def add_member_def)
  from register_unregister_restores [OF http_reachable.start _ this] e show ?thesis by simp
qed

end
