(* ===== verification/Frp_Calendar.thy ===== *)
theory Frp_Calendar
  imports Frp_Prelude
begin

text \<open>
  The proleptic Gregorian calendar that Go's \<open>time\<close> package and ECMAScript's \<open>Date\<close> share:
  days counted from 1 January 1970, civil dates with the month counted from 0 (as
  ECMAScript does), and local time. Both the traffic counters of the server and the
  traffic chart of its dashboard are built on it.
\<close>

section \<open>Days and civil dates\<close>

definition leap :: "int \<Rightarrow> bool" where
  "leap y \<longleftrightarrow> y mod 4 = 0 \<and> (y mod 100 \<noteq> 0 \<or> y mod 400 = 0)"

definition day_from_year :: "int \<Rightarrow> int" where
  "day_from_year y = 365 * (y - 1970) + (y - 1969) div 4 - (y - 1901) div 100 + (y - 1601) div 400"

definition days_in_year :: "int \<Rightarrow> int" where
  "days_in_year y = (if leap y then 366 else 365)"

fun days_before_month :: "bool \<Rightarrow> nat \<Rightarrow> int" where
  "days_before_month lp m =
     [0, 31, 59, 90, 120, 151, 181, 212, 243, 273, 304, 334, 365] ! m + (if lp \<and> 2 \<le> m then 1 else 0)"

definition days_in_month :: "int \<Rightarrow> nat \<Rightarrow> int" where
  "days_in_month y m = days_before_month (leap y) (Suc m) - days_before_month (leap y) m"

record civil =
  cv_year :: int
  cv_month :: nat
  cv_day :: int

text \<open>The day of a year, a month and a day of the month that need not be within their ranges.\<close>

definition make_day :: "int \<Rightarrow> int \<Rightarrow> int \<Rightarrow> int" where
  "make_day y m d =
     (let ym = y + m div 12; mn = nat (m mod 12)
      in day_from_year ym + days_before_month (leap ym) mn + d - 1)"

lemma day_from_year_Suc: "day_from_year (y + 1) = day_from_year y + days_in_year y"
proof -
  have step: "(x + 1) div k = x div k + (if (x + 1) mod k = 0 then 1 else 0)" if "0 < k" for x k :: int
  proof -
    have e: "x + 1 = k * (x div k) + (x mod k + 1)" by simp
    have b: "0 \<le> x mod k" "x mod k < k" using that by simp_all
    show ?thesis
    proof (cases "x mod k + 1 = k")
      case True
      with e have "x + 1 = k * (x div k + 1)" by (simp add: distrib_left)
      then show ?thesis using that by simp
    next
      case False
      with b have r: "0 \<le> x mod k + 1" "x mod k + 1 < k" by auto
      have "(x + 1) div k = x div k" by (rule int_div_pos_eq [OF e r])
      moreover have "(x + 1) mod k = x mod k + 1" by (rule int_mod_pos_eq [OF e r])
      ultimately show ?thesis using b by simp
    qed
  qed
  define a b c where abc: "a = (y - 1969) div 4" "b = (y - 1901) div 100" "c = (y - 1601) div 400"
  have mods: "(y - 1968) mod 4 = y mod 4" "(y - 1900) mod 100 = y mod 100" "(y - 1600) mod 400 = y mod 400"
    using mod_diff_right_eq [of y 1968 4] mod_diff_right_eq [of y 1900 100]
      mod_diff_right_eq [of y 1600 400] by simp_all
  have sucs: "y - 1969 + 1 = y - 1968" "y - 1901 + 1 = y - 1900" "y - 1601 + 1 = y - 1600"
    "0 < (4 :: int)" "0 < (100 :: int)" "0 < (400 :: int)" by simp_all
  have "(y - 1968) div 4 = a + (if y mod 4 = 0 then 1 else 0)"
    using step [of 4 "y - 1969"] by (simp only: mods sucs abc)
  moreover have "(y - 1900) div 100 = b + (if y mod 100 = 0 then 1 else 0)"
    using step [of 100 "y - 1901"] by (simp only: mods sucs abc)
  moreover have "(y - 1600) div 400 = c + (if y mod 400 = 0 then 1 else 0)"
    using step [of 400 "y - 1601"] by (simp only: mods sucs abc)
  moreover have "y + 1 - 1970 = y - 1969" "y + 1 - 1969 = y - 1968" "y + 1 - 1901 = y - 1900"
    "y + 1 - 1601 = y - 1600" by simp_all
  ultimately have "day_from_year (y + 1) = 365 * (y - 1969) + (a + (if y mod 4 = 0 then 1 else 0))
      - (b + (if y mod 100 = 0 then 1 else 0)) + (c + (if y mod 400 = 0 then 1 else 0))"
    by (simp only: day_from_year_def)
  moreover have "day_from_year y = 365 * (y - 1970) + a - b + c" by (simp only: day_from_year_def abc)
  moreover have "y mod 400 = 0 \<Longrightarrow> y mod 100 = 0" "y mod 100 = 0 \<Longrightarrow> y mod 4 = 0"
    using dvd_trans [of 100 400 y] dvd_trans [of 4 100 y] by (simp_all add: mod_eq_0_iff_dvd)
  ultimately show ?thesis
    by (cases "y mod 4 = 0"; cases "y mod 100 = 0"; cases "y mod 400 = 0")
      (simp_all add: days_in_year_def leap_def)
qed

lemma days_in_year_bounds: "365 \<le> days_in_year y" "days_in_year y \<le> 366"
  by (simp_all add: days_in_year_def)

text \<open>The greatest year that begins no later than the day, searched upwards from \<open>y\<close>.\<close>

function year_search :: "int \<Rightarrow> int \<Rightarrow> int" where
  "year_search day y = (if day_from_year (y + 1) \<le> day then year_search day (y + 1) else y)"
  by pat_completeness auto

termination
proof (relation "measure (\<lambda>(day, y). nat (day - day_from_year y))")
  fix day y
  assume "day_from_year (y + 1) \<le> day"
  then show "((day, y + 1), (day, y)) \<in> measure (\<lambda>(day, y). nat (day - day_from_year y))"
    using day_from_year_Suc [of y] days_in_year_bounds [of y] by simp
qed simp

declare year_search.simps [simp del]

definition year_from_day :: "int \<Rightarrow> int" where
  "year_from_day day = year_search day (1970 + (if 0 \<le> day then day div 366 else day div 365))"

definition civil_of_day :: "int \<Rightarrow> civil" where
  "civil_of_day day =
     (let y = year_from_day day; r = day - day_from_year y;
          m = length (takeWhile (\<lambda>k. days_before_month (leap y) (Suc k) \<le> r) [0..<11])
      in \<lparr>cv_year = y, cv_month = m, cv_day = r - days_before_month (leap y) m + 1\<rparr>)"

definition day_of_civil :: "civil \<Rightarrow> int" where
  "day_of_civil c = make_day (cv_year c) (int (cv_month c)) (cv_day c)"

definition valid_civil :: "civil \<Rightarrow> bool" where
  "valid_civil c \<longleftrightarrow> cv_month c < 12 \<and> 1 \<le> cv_day c \<and> cv_day c \<le> days_in_month (cv_year c) (cv_month c)"
section \<open>The calendar is a bijection\<close>

lemma day_from_year_mono: "x \<le> y \<Longrightarrow> day_from_year x + 365 * (y - x) \<le> day_from_year y"
proof (induction "nat (y - x)" arbitrary: y)
  case 0
  then show ?case by simp
next
  case (Suc n)
  then have "day_from_year x + 365 * (y - 1 - x) \<le> day_from_year (y - 1)" by (intro Suc.hyps(1)) linarith+
  with day_from_year_Suc [of "y - 1"] days_in_year_bounds [of "y - 1"] show ?case by simp
qed

lemma day_from_year_le: "x \<le> y \<Longrightarrow> day_from_year y \<le> day_from_year x + 366 * (y - x)"
proof (induction "nat (y - x)" arbitrary: y)
  case 0
  then show ?case by simp
next
  case (Suc n)
  then have "day_from_year (y - 1) \<le> day_from_year x + 366 * (y - 1 - x)" by (intro Suc.hyps(1)) linarith+
  with day_from_year_Suc [of "y - 1"] days_in_year_bounds [of "y - 1"] show ?case by simp
qed

lemma year_search_eq:
  assumes "day_from_year y \<le> day" and "day < day_from_year (y + 1)" and "x \<le> y"
  shows "year_search day x = y"
  using assms(3)
proof (induction "nat (y - x)" arbitrary: x)
  case 0
  with assms show ?case by (subst year_search.simps) simp
next
  case (Suc n)
  then have "year_search day (x + 1) = y" by simp
  moreover have "day_from_year (x + 1) \<le> day"
  proof -
    have "x + 1 \<le> y" using Suc.hyps(2) by linarith
    with day_from_year_mono [OF this] assms(1) show ?thesis by simp
  qed
  ultimately show ?case by (subst year_search.simps) simp
qed

lemma day_from_year_1970 [simp]: "day_from_year 1970 = 0"
  by (simp add: day_from_year_def)

lemma year_from_day_eq:
  assumes "day_from_year y \<le> day" and "day < day_from_year (y + 1)"
  shows "year_from_day day = y"
proof (cases "0 \<le> day")
  case True
  then have "1970 \<le> y" using assms(2) day_from_year_mono [of "y + 1" 1970] by (cases "1970 \<le> y") simp_all
  then have "day < 366 * (y + 1 - 1970)" using assms(2) day_from_year_le [of 1970 "y + 1"] by simp
  then have "day div 366 < y + 1 - 1970" by (simp add: div_less_iff_less_mult)
  with True show ?thesis unfolding year_from_day_def by (simp add: year_search_eq [OF assms])
next
  case False
  then have "y < 1970" using assms(1) day_from_year_mono [of 1970 y] by (cases "y < 1970") simp_all
  then have "day < 365 * (y + 1 - 1970)" using assms(2) day_from_year_mono [of "y + 1" 1970] by simp
  then have "day div 365 < y + 1 - 1970" by (simp add: div_less_iff_less_mult)
  with False show ?thesis unfolding year_from_day_def by (simp add: year_search_eq [OF assms])
qed

lemma month_cases:
  "m < 12 \<Longrightarrow> m = 0 \<or> m = 1 \<or> m = 2 \<or> m = 3 \<or> m = 4 \<or> m = 5 \<or> m = 6 \<or> m = 7 \<or> m = 8 \<or>
     m = 9 \<or> m = 10 \<or> m = (11 :: nat)"
  by arith

lemma month_found:
  assumes "m < 12" and "days_before_month lp m \<le> r" and "r < days_before_month lp (Suc m)"
  shows "length (takeWhile (\<lambda>k. days_before_month lp (Suc k) \<le> r) [0..<11]) = m"
  using assms month_cases [OF assms(1)]
  by (cases lp) (auto simp: upt_rec [of _ 11] numeral_eq_Suc)

lemma days_before_month_bounds:
  "m < 12 \<Longrightarrow> 0 \<le> days_before_month lp m \<and>
     days_before_month lp (Suc m) \<le> (if lp then 366 else 365)"
  using month_cases [of m] by (cases lp) (auto simp: numeral_eq_Suc)

lemma civil_of_day_of_civil: "valid_civil c \<Longrightarrow> civil_of_day (day_of_civil c) = c"
proof -
  assume v: "valid_civil c"
  let ?y = "cv_year c" and ?m = "cv_month c"
  let ?r = "days_before_month (leap ?y) ?m + cv_day c - 1"
  from v have m: "?m < 12" and r: "days_before_month (leap ?y) ?m \<le> ?r"
    "?r < days_before_month (leap ?y) (Suc ?m)"
    by (simp_all add: valid_civil_def days_in_month_def)
  have day: "day_of_civil c = day_from_year ?y + ?r"
    using m by (simp add: day_of_civil_def make_day_def Let_def)
  have "day_from_year ?y \<le> day_of_civil c" "day_of_civil c < day_from_year (?y + 1)"
    using days_before_month_bounds [OF m, of "leap ?y"] r
    unfolding day day_from_year_Suc days_in_year_def by (simp_all split: if_splits)
  then have y: "year_from_day (day_of_civil c) = ?y" by (rule year_from_day_eq)
  have "day_of_civil c - day_from_year ?y = ?r" by (simp add: day)
  then show ?thesis unfolding civil_of_day_def Let_def y using month_found [OF m r] by simp
qed

section \<open>Local time\<close>

text \<open>
  Instants are nanoseconds since the epoch. A location is the function that gives its
  offset from UTC, in nanoseconds, at every instant. \<open>local_midnight\<close> is
  \<open>time.Date(now.Year(), now.Month(), now.Day(), 0, 0, 0, 0, now.Location())\<close>, with the two
  lookups of the offset that Go's \<open>time.Date\<close> does.
\<close>

type_synonym instant = int
type_synonym location = "instant \<Rightarrow> int"

definition day_ns :: int where "day_ns = 86400000000000"

definition local_day :: "location \<Rightarrow> instant \<Rightarrow> int" where
  "local_day loc t = (t + loc t) div day_ns"

definition local_midnight :: "location \<Rightarrow> instant \<Rightarrow> instant" where
  "local_midnight loc t =
     (let l = local_day loc t * day_ns; o1 = loc l
      in if o1 = 0 then l else l - loc (l - o1))"

lemma local_midnight_fixed [simp]: "local_midnight (\<lambda>_. off) t = local_day (\<lambda>_. off) t * day_ns - off"
  by (simp add: local_midnight_def Let_def)

definition pad2 :: "nat \<Rightarrow> string" where
  "pad2 n = (if n < 10 then ''0'' @ show_nat n else show_nat n)"

text \<open>\<open>t.Format("01-02 15:04:05")\<close> and \<open>t.Format("2006-01-02")\<close>, for years of four digits.\<close>

definition format_datetime :: "location \<Rightarrow> instant \<Rightarrow> string" where
  "format_datetime loc t =
     (let c = civil_of_day (local_day loc t);
          s = nat ((t + loc t) mod day_ns div 1000000000)
      in pad2 (cv_month c + 1) @ ''-'' @ pad2 (nat (cv_day c)) @ '' '' @
         pad2 (s div 3600) @ '':'' @ pad2 (s mod 3600 div 60) @ '':'' @ pad2 (s mod 60))"

definition format_date :: "location \<Rightarrow> instant \<Rightarrow> string" where
  "format_date loc t =
     (let c = civil_of_day (local_day loc t)
      in show_int (cv_year c) @ ''-'' @ pad2 (cv_month c + 1) @ ''-'' @ pad2 (nat (cv_day c)))"

text \<open>\<open>t.Sub(u)\<close>: the difference, saturated to the range of \<open>int64\<close>.\<close>

definition time_sub :: "instant \<Rightarrow> instant \<Rightarrow> int" where
  "time_sub t u = max min_int64 (min max_int64 (t - u))"

lemma day_of_civil_of_day: "day_of_civil (civil_of_day x) = x"
proof -
  let ?y = "year_from_day x"
  let ?m = "length (takeWhile (\<lambda>k. days_before_month (leap ?y) (Suc k) \<le> x - day_from_year ?y) [0..<11])"
  have "?m \<le> 11" by (rule order_trans [OF length_takeWhile_le]) simp
  then have "int ?m div 12 = 0" "int ?m mod 12 = int ?m" by simp_all
  then show ?thesis
    by (simp add: day_of_civil_def civil_of_day_def make_day_def Let_def del: days_before_month.simps)
qed

lemma make_day_civil: "make_day (cv_year c) (int (cv_month c)) (cv_day c + k) = day_of_civil c + k"
  by (simp add: day_of_civil_def make_day_def Let_def)

end
