(* ===== verification/Frp_Metrics.thy ===== *)
theory Frp_Metrics
  imports Frp_Calendar "HOL-Library.AList"
begin

text \<open>
  The statistics of the server: the counters of \<open>pkg/util/metric\<close> and the collector of
  \<open>pkg/metrics/mem/server.go\<close> that the dashboard reads. The clock is an argument \<open>now\<close> of
  every operation that calls \<open>time.Now()\<close>, and \<open>loc\<close> is the server's time zone. A Go map is
  an association list with distinct keys; its order stands for one order of iteration.
\<close>

section \<open>Counters\<close>

text \<open>\<open>StandardCounter\<close>: an atomic \<open>int32\<close>.\<close>

definition NewCounter :: i32 where "NewCounter = 0"

definition counter_Inc :: "i32 \<Rightarrow> i32 \<Rightarrow> i32" where "counter_Inc c n = c + n"

definition counter_Dec :: "i32 \<Rightarrow> i32 \<Rightarrow> i32" where "counter_Dec c n = c + (- n)"

text \<open>\<open>StandardDateCounter\<close>: the counts of the last \<open>reserveDays\<close> days, today's first.\<close>

record date_counter =
  dc_reserveDays :: int
  dc_counts :: "i64 list"
  dc_lastUpdateDate :: instant

definition newStandardDateCounter :: "location \<Rightarrow> instant \<Rightarrow> int \<Rightarrow> date_counter" where
  "newStandardDateCounter loc now reserveDays =
     \<lparr>dc_reserveDays = reserveDays, dc_counts = replicate (nat reserveDays) 0,
      dc_lastUpdateDate = local_midnight loc now\<rparr>"

definition NewDateCounter :: "location \<Rightarrow> instant \<Rightarrow> int \<Rightarrow> date_counter" where
  "NewDateCounter loc now reserveDays =
     newStandardDateCounter loc now (if reserveDays \<le> 0 then 1 else reserveDays)"

text \<open>
  \<open>int(d.Hours() / 24)\<close>: a truncating division. Midnights are whole seconds, so that the
  floating-point quotient does not reach an integer that the exact one does not.
\<close>

definition whole_days :: "int \<Rightarrow> int" where
  "whole_days d = sgn d * (\<bar>d\<bar> div day_ns)"

definition rotate_counts :: "int \<Rightarrow> int \<Rightarrow> i64 list \<Rightarrow> i64 list" where
  "rotate_counts reserveDays days counts =
     (if days \<le> 0 then counts
      else if days \<ge> reserveDays then replicate (nat reserveDays) 0
      else map (\<lambda>i. if i < nat days then 0 else counts ! (i - nat days)) [0..<nat reserveDays])"

definition dc_rotate :: "location \<Rightarrow> instant \<Rightarrow> date_counter \<Rightarrow> date_counter" where
  "dc_rotate loc now c =
     (let now = local_midnight loc now;
          days = whole_days (time_sub now (dc_lastUpdateDate c))
      in c\<lparr>dc_counts := rotate_counts (dc_reserveDays c) days (dc_counts c), dc_lastUpdateDate := now\<rparr>)"

definition TodayCount :: "location \<Rightarrow> instant \<Rightarrow> date_counter \<Rightarrow> i64 \<times> date_counter" where
  "TodayCount loc now c = (let c = dc_rotate loc now c in (dc_counts c ! 0, c))"

text \<open>\<open>GetLastDaysCount\<close>: \<open>None\<close> when \<open>make\<close> panics on a negative length.\<close>

definition GetLastDaysCount ::
    "location \<Rightarrow> instant \<Rightarrow> int \<Rightarrow> date_counter \<Rightarrow> (i64 list \<times> date_counter) option" where
  "GetLastDaysCount loc now lastdays c =
     (let lastdays = (if lastdays > dc_reserveDays c then dc_reserveDays c else lastdays)
      in if lastdays < 0 then None
         else let c = dc_rotate loc now c
              in Some (map (\<lambda>i. dc_counts c ! i) [0..<nat lastdays], c))"

definition dc_Inc :: "location \<Rightarrow> instant \<Rightarrow> i64 \<Rightarrow> date_counter \<Rightarrow> date_counter" where
  "dc_Inc loc now count c =
     (let c = dc_rotate loc now c in c\<lparr>dc_counts := (dc_counts c)[0 := dc_counts c ! 0 + count]\<rparr>)"

definition dc_Dec :: "location \<Rightarrow> instant \<Rightarrow> i64 \<Rightarrow> date_counter \<Rightarrow> date_counter" where
  "dc_Dec loc now count c =
     (let c = dc_rotate loc now c in c\<lparr>dc_counts := (dc_counts c)[0 := dc_counts c ! 0 - count]\<rparr>)"

definition dc_Snapshot :: "location \<Rightarrow> instant \<Rightarrow> date_counter \<Rightarrow> date_counter" where
  "dc_Snapshot loc now c =
     (newStandardDateCounter loc now (dc_reserveDays c))
       \<lparr>dc_counts := map (\<lambda>i. dc_counts c ! i) [0..<nat (dc_reserveDays c)]\<rparr>"

definition dc_Clear :: "date_counter \<Rightarrow> date_counter" where
  "dc_Clear c = c\<lparr>dc_counts := map (\<lambda>_. 0) [0..<nat (dc_reserveDays c)]\<rparr>"

section \<open>Daily traffic of the network interfaces\<close>

record daily_traffic_record =
  dr_Date :: string
  dr_StartTime :: instant
  dr_StartBytesRecv :: i64
  dr_StartBytesSent :: i64
  dr_TotalBytesRecv :: i64
  dr_TotalBytesSent :: i64

text \<open>
  The package variables and the record file \<open>daily_traffic.json\<close>: its record, if the file
  can be read and parsed.
\<close>

record daily_state =
  ds_startTime :: instant
  ds_startBytesRecv :: i64
  ds_startBytesSent :: i64
  ds_file :: "daily_traffic_record option"

text \<open>
  \<open>netIO\<close> is what \<open>net.IOCounters(false)\<close> of gopsutil answers: the received and sent bytes
  (\<open>uint64\<close>), or \<open>None\<close> for an error or an empty answer. \<open>writable\<close> says whether the record
  file can be written.
\<close>

definition saveDailyTrafficRecord :: "bool \<Rightarrow> daily_traffic_record \<Rightarrow> daily_state \<Rightarrow> daily_state" where
  "saveDailyTrafficRecord writable r s = (if writable then s\<lparr>ds_file := Some r\<rparr> else s)"

definition initDailyNetTrafficInternal ::
    "location \<Rightarrow> instant \<Rightarrow> (i64 \<times> i64) option \<Rightarrow> bool \<Rightarrow> daily_state \<Rightarrow> daily_state" where
  "initDailyNetTrafficInternal loc now netIO writable s =
     (let today = local_midnight loc now;
          fresh = (let s = s\<lparr>ds_startTime := today\<rparr>
                   in case netIO of
                        None \<Rightarrow> s
                      | Some (recv, sent) \<Rightarrow>
                          saveDailyTrafficRecord writable
                            \<lparr>dr_Date = format_date loc today, dr_StartTime = now, dr_StartBytesRecv = recv,
                             dr_StartBytesSent = sent, dr_TotalBytesRecv = 0, dr_TotalBytesSent = 0\<rparr>
                            (s\<lparr>ds_startBytesRecv := recv, ds_startBytesSent := sent\<rparr>))
      in case ds_file s of
           Some r \<Rightarrow>
             if dr_Date r = format_date loc today
             then s\<lparr>ds_startTime := today, ds_startBytesRecv := dr_StartBytesRecv r,
                    ds_startBytesSent := dr_StartBytesSent r\<rparr>
             else fresh
         | None \<Rightarrow> fresh)"

text \<open>
  \<open>netIO1\<close> and \<open>netIO2\<close> are the answers to the calls of the initialisation and of the
  function itself; the record is saved by a goroutine, here at once.
\<close>

definition getDailyNetTraffic ::
    "location \<Rightarrow> instant \<Rightarrow> (i64 \<times> i64) option \<Rightarrow> (i64 \<times> i64) option \<Rightarrow> bool \<Rightarrow> daily_state \<Rightarrow>
     (i64 \<times> i64) \<times> daily_state" where
  "getDailyNetTraffic loc now netIO1 netIO2 writable s =
     (let today = local_midnight loc now;
          s = (if today > ds_startTime s then initDailyNetTrafficInternal loc now netIO1 writable s else s)
      in case netIO2 of
           None \<Rightarrow> ((0, 0), s)
         | Some (recv, sent) \<Rightarrow>
             let todayRecv = recv - ds_startBytesRecv s;
                 todaySent = sent - ds_startBytesSent s;
                 (todayRecv, s) = (if todayRecv <s 0 then (recv, s\<lparr>ds_startBytesRecv := 0\<rparr>) else (todayRecv, s));
                 (todaySent, s) = (if todaySent <s 0 then (sent, s\<lparr>ds_startBytesSent := 0\<rparr>) else (todaySent, s));
                 sec = (now + loc now) div 1000000000;
                 s = (if sec div 60 mod 60 mod 5 = 0 \<and> sec mod 60 < 5
                      then saveDailyTrafficRecord writable
                        \<lparr>dr_Date = format_date loc today, dr_StartTime = ds_startTime s,
                         dr_StartBytesRecv = ds_startBytesRecv s, dr_StartBytesSent = ds_startBytesSent s,
                         dr_TotalBytesRecv = todayRecv, dr_TotalBytesSent = todaySent\<rparr> s
                      else s)
             in ((todayRecv, todaySent), s))"

section \<open>The collector\<close>

definition ReserveDays :: int where "ReserveDays = 7"

text \<open>The zero \<open>time.Time\<close> is \<open>None\<close>.\<close>

record proxy_statistics =
  pst_Name :: string
  pst_ProxyType :: string
  pst_TrafficIn :: date_counter
  pst_TrafficOut :: date_counter
  pst_CurConns :: i32
  pst_LastStartTime :: "instant option"
  pst_LastCloseTime :: "instant option"

record server_statistics =
  si_TotalTrafficIn :: date_counter
  si_TotalTrafficOut :: date_counter
  si_CurConns :: i32
  si_ClientCounts :: i32
  si_ProxyTypeCounts :: "(string \<times> i32) list"
  si_ProxyStatistics :: "(string \<times> proxy_statistics) list"

definition newServerMetrics :: "location \<Rightarrow> instant \<Rightarrow> server_statistics" where
  "newServerMetrics loc now =
     \<lparr>si_TotalTrafficIn = NewDateCounter loc now ReserveDays,
      si_TotalTrafficOut = NewDateCounter loc now ReserveDays,
      si_CurConns = NewCounter, si_ClientCounts = NewCounter,
      si_ProxyTypeCounts = [], si_ProxyStatistics = []\<rparr>"

text \<open>\<open>LastStartTime.Before(LastCloseTime)\<close>; the zero time is before every instant.\<close>

fun time_Before :: "instant option \<Rightarrow> instant option \<Rightarrow> bool" where
  "time_Before (Some t) (Some u) = (t < u)"
| "time_Before None (Some u) = True"
| "time_Before _ None = False"

definition useless :: "instant \<Rightarrow> proxy_statistics \<Rightarrow> bool" where
  "useless now p =
     (case pst_LastCloseTime p of
        None \<Rightarrow> False
      | Some close \<Rightarrow> time_Before (pst_LastStartTime p) (Some close) \<and> time_sub now close > 7 * day_ns)"

definition clearUselessInfo :: "instant \<Rightarrow> server_statistics \<Rightarrow> (nat \<times> nat) \<times> server_statistics" where
  "clearUselessInfo now m =
     (let ps = si_ProxyStatistics m;
          kept = filter (\<lambda>(_, p). \<not> useless now p) ps
      in ((length ps - length kept, length ps), m\<lparr>si_ProxyStatistics := kept\<rparr>))"

definition NewClient :: "server_statistics \<Rightarrow> server_statistics" where
  "NewClient m = m\<lparr>si_ClientCounts := counter_Inc (si_ClientCounts m) 1\<rparr>"

definition CloseClient :: "server_statistics \<Rightarrow> server_statistics" where
  "CloseClient m = m\<lparr>si_ClientCounts := counter_Dec (si_ClientCounts m) 1\<rparr>"

definition new_statistics :: "location \<Rightarrow> instant \<Rightarrow> string \<Rightarrow> string \<Rightarrow> proxy_statistics" where
  "new_statistics loc now name proxyType =
     \<lparr>pst_Name = name, pst_ProxyType = proxyType, pst_TrafficIn = NewDateCounter loc now ReserveDays,
      pst_TrafficOut = NewDateCounter loc now ReserveDays, pst_CurConns = NewCounter,
      pst_LastStartTime = None, pst_LastCloseTime = None\<rparr>"

definition metrics_NewProxy ::
    "location \<Rightarrow> instant \<Rightarrow> string \<Rightarrow> string \<Rightarrow> server_statistics \<Rightarrow> server_statistics" where
  "metrics_NewProxy loc now name proxyType m =
     (let counter = (case map_of (si_ProxyTypeCounts m) proxyType of None \<Rightarrow> NewCounter | Some c \<Rightarrow> c);
          stats = (case map_of (si_ProxyStatistics m) name of
                     None \<Rightarrow> new_statistics loc now name proxyType
                   | Some p \<Rightarrow> if pst_ProxyType p = proxyType then p
                               else new_statistics loc now name proxyType)
      in m\<lparr>si_ProxyTypeCounts := AList.update proxyType (counter_Inc counter 1) (si_ProxyTypeCounts m),
           si_ProxyStatistics :=
             AList.update name (stats\<lparr>pst_LastStartTime := Some now\<rparr>) (si_ProxyStatistics m)\<rparr>)"

text \<open>Changes the entry of a key, if there is one.\<close>

definition with_entry :: "'k \<Rightarrow> ('v \<Rightarrow> 'v) \<Rightarrow> ('k \<times> 'v) list \<Rightarrow> ('k \<times> 'v) list" where
  "with_entry k f xs = (case map_of xs k of None \<Rightarrow> xs | Some v \<Rightarrow> AList.update k (f v) xs)"

definition metrics_CloseProxy :: "instant \<Rightarrow> string \<Rightarrow> string \<Rightarrow> server_statistics \<Rightarrow> server_statistics" where
  "metrics_CloseProxy now name proxyType m =
     m\<lparr>si_ProxyTypeCounts := with_entry proxyType (\<lambda>c. counter_Dec c 1) (si_ProxyTypeCounts m),
       si_ProxyStatistics :=
         with_entry name (\<lambda>p. p\<lparr>pst_LastCloseTime := Some now\<rparr>) (si_ProxyStatistics m)\<rparr>"

definition OpenConnection :: "string \<Rightarrow> server_statistics \<Rightarrow> server_statistics" where
  "OpenConnection name m =
     m\<lparr>si_CurConns := counter_Inc (si_CurConns m) 1,
       si_ProxyStatistics :=
         with_entry name (\<lambda>p. p\<lparr>pst_CurConns := counter_Inc (pst_CurConns p) 1\<rparr>) (si_ProxyStatistics m)\<rparr>"

definition CloseConnection :: "string \<Rightarrow> server_statistics \<Rightarrow> server_statistics" where
  "CloseConnection name m =
     m\<lparr>si_CurConns := counter_Dec (si_CurConns m) 1,
       si_ProxyStatistics :=
         with_entry name (\<lambda>p. p\<lparr>pst_CurConns := counter_Dec (pst_CurConns p) 1\<rparr>) (si_ProxyStatistics m)\<rparr>"

definition AddTrafficIn ::
    "location \<Rightarrow> instant \<Rightarrow> string \<Rightarrow> i64 \<Rightarrow> server_statistics \<Rightarrow> server_statistics" where
  "AddTrafficIn loc now name bytes m =
     m\<lparr>si_TotalTrafficIn := dc_Inc loc now bytes (si_TotalTrafficIn m),
       si_ProxyStatistics :=
         with_entry name (\<lambda>p. p\<lparr>pst_TrafficIn := dc_Inc loc now bytes (pst_TrafficIn p)\<rparr>)
           (si_ProxyStatistics m)\<rparr>"

definition AddTrafficOut ::
    "location \<Rightarrow> instant \<Rightarrow> string \<Rightarrow> i64 \<Rightarrow> server_statistics \<Rightarrow> server_statistics" where
  "AddTrafficOut loc now name bytes m =
     m\<lparr>si_TotalTrafficOut := dc_Inc loc now bytes (si_TotalTrafficOut m),
       si_ProxyStatistics :=
         with_entry name (\<lambda>p. p\<lparr>pst_TrafficOut := dc_Inc loc now bytes (pst_TrafficOut p)\<rparr>)
           (si_ProxyStatistics m)\<rparr>"

section \<open>What the dashboard reads\<close>

record server_stats =
  ss_TotalTrafficIn :: i64
  ss_TotalTrafficOut :: i64
  ss_CurConns :: i64
  ss_ClientCounts :: i64
  ss_ProxyTypeCounts :: "(string \<times> i64) list"

record proxy_stats =
  ps_Name :: string
  ps_Type :: string
  ps_TodayTrafficIn :: i64
  ps_TodayTrafficOut :: i64
  ps_LastStartTime :: string
  ps_LastCloseTime :: string
  ps_CurConns :: i64

text \<open>\<open>int64(c.Count())\<close>: the sign extension of an \<open>int32\<close>.\<close>

definition count_int64 :: "i32 \<Rightarrow> i64" where "count_int64 c = scast c"

definition GetServer ::
    "location \<Rightarrow> instant \<Rightarrow> (i64 \<times> i64) option \<Rightarrow> (i64 \<times> i64) option \<Rightarrow> bool \<Rightarrow>
     daily_state \<Rightarrow> server_statistics \<Rightarrow> server_stats \<times> daily_state \<times> server_statistics" where
  "GetServer loc now netIO1 netIO2 writable ds m =
     (let ((tin, tout), ds) = getDailyNetTraffic loc now netIO1 netIO2 writable ds;
          (tin, tout, m) =
            (if tin = 0 \<and> tout = 0 then
               let (tin, ci) = TodayCount loc now (si_TotalTrafficIn m);
                   (tout, co) = TodayCount loc now (si_TotalTrafficOut m)
               in (tin, tout, m\<lparr>si_TotalTrafficIn := ci, si_TotalTrafficOut := co\<rparr>)
             else (tin, tout, m))
      in (\<lparr>ss_TotalTrafficIn = tin, ss_TotalTrafficOut = tout,
           ss_CurConns = count_int64 (si_CurConns m), ss_ClientCounts = count_int64 (si_ClientCounts m),
           ss_ProxyTypeCounts = map (\<lambda>(k, c). (k, count_int64 c)) (si_ProxyTypeCounts m)\<rparr>, ds, m))"

definition format_or_empty :: "location \<Rightarrow> instant option \<Rightarrow> string" where
  "format_or_empty loc t = (case t of None \<Rightarrow> '''' | Some t \<Rightarrow> format_datetime loc t)"

text \<open>The statistics of one proxy; reading them rotates its counters.\<close>

definition proxy_stats_of ::
    "location \<Rightarrow> instant \<Rightarrow> string \<Rightarrow> proxy_statistics \<Rightarrow> proxy_stats \<times> proxy_statistics" where
  "proxy_stats_of loc now name p =
     (let (tin, ci) = TodayCount loc now (pst_TrafficIn p);
          (tout, co) = TodayCount loc now (pst_TrafficOut p)
      in (\<lparr>ps_Name = name, ps_Type = pst_ProxyType p, ps_TodayTrafficIn = tin, ps_TodayTrafficOut = tout,
           ps_LastStartTime = format_or_empty loc (pst_LastStartTime p),
           ps_LastCloseTime = format_or_empty loc (pst_LastCloseTime p),
           ps_CurConns = count_int64 (pst_CurConns p)\<rparr>,
          p\<lparr>pst_TrafficIn := ci, pst_TrafficOut := co\<rparr>))"

definition GetProxiesByType ::
    "location \<Rightarrow> instant \<Rightarrow> string \<Rightarrow> server_statistics \<Rightarrow> proxy_stats list \<times> server_statistics" where
  "GetProxiesByType loc now proxyType m =
     (let ps = si_ProxyStatistics m
      in (map (\<lambda>(name, p). fst (proxy_stats_of loc now name p)) (filter (\<lambda>(_, p). pst_ProxyType p = proxyType) ps),
          m\<lparr>si_ProxyStatistics :=
              map (\<lambda>(name, p). (name, if pst_ProxyType p = proxyType then snd (proxy_stats_of loc now name p) else p)) ps\<rparr>))"

fun find_by_type_and_name ::
    "string \<Rightarrow> string \<Rightarrow> (string \<times> proxy_statistics) list \<Rightarrow> (string \<times> proxy_statistics) option" where
  "find_by_type_and_name ty nm [] = None"
| "find_by_type_and_name ty nm ((name, p) # ps) =
     (if pst_ProxyType p \<noteq> ty then find_by_type_and_name ty nm ps
      else if name \<noteq> nm then find_by_type_and_name ty nm ps
      else Some (name, p))"

definition GetProxiesByTypeAndName ::
    "location \<Rightarrow> instant \<Rightarrow> string \<Rightarrow> string \<Rightarrow> server_statistics \<Rightarrow> proxy_stats option \<times> server_statistics" where
  "GetProxiesByTypeAndName loc now proxyType proxyName m =
     (case find_by_type_and_name proxyType proxyName (si_ProxyStatistics m) of
        None \<Rightarrow> (None, m)
      | Some (name, p) \<Rightarrow>
          let (res, p') = proxy_stats_of loc now name p
          in (Some res, m\<lparr>si_ProxyStatistics := AList.update name p' (si_ProxyStatistics m)\<rparr>))"

text \<open>\<open>GetProxyTraffic\<close>: the incoming and outgoing traffic of the last days, today first.\<close>

definition GetProxyTraffic ::
    "location \<Rightarrow> instant \<Rightarrow> string \<Rightarrow> server_statistics \<Rightarrow> (i64 list \<times> i64 list) option \<times> server_statistics" where
  "GetProxyTraffic loc now name m =
     (case map_of (si_ProxyStatistics m) name of
        None \<Rightarrow> (None, m)
      | Some p \<Rightarrow>
          (case (GetLastDaysCount loc now ReserveDays (pst_TrafficIn p),
                 GetLastDaysCount loc now ReserveDays (pst_TrafficOut p)) of
             (Some (tin, ci), Some (tout, co)) \<Rightarrow>
               (Some (tin, tout), m\<lparr>si_ProxyStatistics :=
                  AList.update name (p\<lparr>pst_TrafficIn := ci, pst_TrafficOut := co\<rparr>) (si_ProxyStatistics m)\<rparr>)
           | _ \<Rightarrow> (None, m)))"

section \<open>The contract of a day counter\<close>

text \<open>
  What the interface \<open>DateCounter\<close> promises: \<open>log c d\<close> is the count recorded for the day
  \<open>d\<close>, \<open>upd c\<close> the day of the last update and \<open>R\<close> the number of days kept. An update at a
  time \<open>t\<close>, not before the last one, adds to the day of \<open>t\<close> and keeps the other days of the
  window; a query returns the window, the latest day first.
\<close>

fun run_incs :: "(instant \<Rightarrow> i64 \<Rightarrow> 'c \<Rightarrow> 'c) \<Rightarrow> (instant \<times> i64) list \<Rightarrow> 'c \<Rightarrow> 'c" where
  "run_incs inc [] c = c"
| "run_incs inc ((t, n) # es) c = run_incs inc es (inc t n c)"

text \<open>The sum, as an \<open>int64\<close>, of what the events add on the day \<open>d\<close>.\<close>

definition day_sum :: "(instant \<Rightarrow> int) \<Rightarrow> (instant \<times> i64) list \<Rightarrow> int \<Rightarrow> i64" where
  "day_sum day es d = sum_list (map snd (filter (\<lambda>(t, _). day t = d) es))"

locale day_counter =
  fixes day :: "instant \<Rightarrow> int" and R :: nat
    and ok :: "'c \<Rightarrow> bool" and upd :: "'c \<Rightarrow> int" and log :: "'c \<Rightarrow> int \<Rightarrow> i64"
    and inc :: "instant \<Rightarrow> i64 \<Rightarrow> 'c \<Rightarrow> 'c" and last_days :: "instant \<Rightarrow> 'c \<Rightarrow> i64 list"
  assumes inc_ok: "ok c \<Longrightarrow> upd c \<le> day t \<Longrightarrow> ok (inc t n c)"
    and inc_upd: "ok c \<Longrightarrow> upd c \<le> day t \<Longrightarrow> upd (inc t n c) = day t"
    and inc_log: "ok c \<Longrightarrow> upd c \<le> day t \<Longrightarrow> day t - int R < d \<Longrightarrow>
      log (inc t n c) d = log c d + (if d = day t then n else 0)"
    and last_days_log: "ok c \<Longrightarrow> upd c \<le> day t \<Longrightarrow> last_days t c = map (\<lambda>i. log c (day t - int i)) [0..<R]"
begin

lemma run_log:
  assumes "ok c" and "sorted (upd c # map (\<lambda>(t, _). day t) es)"
  shows "ok (run_incs inc es c) \<and> upd c \<le> upd (run_incs inc es c) \<and> upd (run_incs inc es c) = last (upd c # map (\<lambda>(t, _). day t) es) \<and>
    (\<forall>d. upd (run_incs inc es c) - int R < d \<longrightarrow> log (run_incs inc es c) d = log c d + day_sum day es d)"
  using assms
proof (induction es arbitrary: c)
  case Nil
  then show ?case by (simp add: day_sum_def)
next
  case (Cons e es)
  obtain t n where e: "e = (t, n)" by (cases e)
  from Cons.prems e have le: "upd c \<le> day t" by simp
  note c' = inc_ok [OF Cons.prems(1) le] inc_upd [OF Cons.prems(1) le] inc_log [OF Cons.prems(1) le]
  have "sorted (upd (inc t n c) # map (\<lambda>(t, _). day t) es)"
    using Cons.prems(2) e by (simp add: c'(2))
  note IH = Cons.IH [OF c'(1) this]
  have "log (run_incs inc es (inc t n c)) d = log c d + day_sum day (e # es) d" if "upd (run_incs inc es (inc t n c)) - int R < d" for d
  proof -
    from IH that have "log (run_incs inc es (inc t n c)) d = log (inc t n c) d + day_sum day es d" by blast
    moreover have "day t - int R < d" using IH that c'(2) by auto
    ultimately show ?thesis using c'(3) [of d n] by (simp add: day_sum_def e)
  qed
  with IH le show ?case by (simp add: e c'(2))
qed

lemma last_days_run:
  assumes "ok c" and "sorted (upd c # map (\<lambda>(t, _). day t) es @ [day now])"
  shows "last_days now (run_incs inc es c) = map (\<lambda>i. log c (day now - int i) + day_sum day es (day now - int i)) [0..<R]"
proof -
  from assms(2) have s: "sorted (upd c # map (\<lambda>(t, _). day t) es)" by (simp add: sorted_append)
  note r = run_log [OF assms(1) s]
  have le: "upd (run_incs inc es c) \<le> day now"
    using assms(2) r by (auto simp: sorted_append last_map split: if_splits)
  with r have "last_days now (run_incs inc es c) = map (\<lambda>i. log (run_incs inc es c) (day now - int i)) [0..<R]"
    by (intro last_days_log) auto
  then show ?thesis using r le by (auto intro!: map_cong)
qed

end

section \<open>The standard counter keeps the contract\<close>

text \<open>
  In a time zone with a fixed offset: \<open>dc_upd\<close> is the day of the last update and \<open>dc_log\<close>
  the contents by day.
\<close>

definition dc_upd :: "int \<Rightarrow> date_counter \<Rightarrow> int" where
  "dc_upd off c = (dc_lastUpdateDate c + off) div day_ns"

definition dc_ok :: "int \<Rightarrow> nat \<Rightarrow> date_counter \<Rightarrow> bool" where
  "dc_ok off R c \<longleftrightarrow> dc_reserveDays c = int R \<and> length (dc_counts c) = R \<and>
     dc_lastUpdateDate c = dc_upd off c * day_ns - off"

definition dc_log :: "int \<Rightarrow> nat \<Rightarrow> date_counter \<Rightarrow> int \<Rightarrow> i64" where
  "dc_log off R c d =
     (if d \<le> dc_upd off c \<and> dc_upd off c - d < int R then dc_counts c ! nat (dc_upd off c - d) else 0)"

text \<open>The greatest number of whole days that a duration can have, 106751, bounds the days kept.\<close>

definition max_days :: int where "max_days = max_int64 div day_ns"

lemma whole_days_sub:
  assumes "0 \<le> k"
  shows "whole_days (time_sub (a + k * day_ns) a) = min k max_days"
proof -
  have d: "0 < day_ns" by (simp add: day_ns_def)
  with assms have k: "0 \<le> k * day_ns" by simp
  then have "time_sub (a + k * day_ns) a = min max_int64 (k * day_ns)" by (simp add: time_sub_def)
  moreover have "whole_days n = n div day_ns" if "0 \<le> n" for n
    using that by (cases "n = 0") (simp_all add: whole_days_def)
  ultimately have "whole_days (time_sub (a + k * day_ns) a) = min max_int64 (k * day_ns) div day_ns"
    using k by simp
  also have "\<dots> = min (max_int64 div day_ns) (k * day_ns div day_ns)"
    using zdiv_mono1 [OF _ d, of max_int64 "k * day_ns"] zdiv_mono1 [OF _ d, of "k * day_ns" max_int64]
    by (cases "max_int64 \<le> k * day_ns") (auto simp: min_def)
  finally show ?thesis using d by (simp add: max_days_def min.commute)
qed

lemma rotate_counts_length [simp]:
  "length counts = nat R \<Longrightarrow> length (rotate_counts R k counts) = nat R"
  by (simp add: rotate_counts_def)

lemma rotate_counts_nth:
  assumes "length counts = nat R" and "i < nat R" and "0 \<le> k"
  shows "rotate_counts R k counts ! i = (if i < nat k then 0 else counts ! (i - nat k))"
  using assms by (auto simp: rotate_counts_def)

lemma dc_rotate_ok:
  assumes "dc_ok off R c" and "dc_upd off c \<le> local_day (\<lambda>_. off) t" and "int R \<le> max_days"
  shows "dc_ok off R (dc_rotate (\<lambda>_. off) t c)"
    and "dc_upd off (dc_rotate (\<lambda>_. off) t c) = local_day (\<lambda>_. off) t"
    and "local_day (\<lambda>_. off) t - int R < d \<Longrightarrow>
      dc_log off R (dc_rotate (\<lambda>_. off) t c) d = dc_log off R c d"
proof -
  let ?D = "local_day (\<lambda>_. off) t" and ?U = "dc_upd off c"
  let ?c = "dc_rotate (\<lambda>_. off) t c"
  have dn: "day_ns \<noteq> 0" by (simp add: day_ns_def)
  have mid: "?D * day_ns - off = dc_lastUpdateDate c + (?D - ?U) * day_ns"
    using assms(1) by (simp add: dc_ok_def left_diff_distrib)
  have days: "whole_days (time_sub (?D * day_ns - off) (dc_lastUpdateDate c)) = min (?D - ?U) max_days"
    unfolding mid using assms(2) by (intro whole_days_sub) simp
  have c: "?c = c\<lparr>dc_counts := rotate_counts (dc_reserveDays c) (min (?D - ?U) max_days) (dc_counts c),
      dc_lastUpdateDate := ?D * day_ns - off\<rparr>"
    by (simp add: dc_rotate_def days Let_def)
  have upd: "dc_upd off ?c = ?D" using dn by (simp add: c dc_upd_def)
  then show "dc_upd off ?c = ?D" .
  from assms(1) show "dc_ok off R ?c"
    unfolding dc_ok_def upd by (simp add: c)
  show "dc_log off R ?c d = dc_log off R c d" if d: "?D - int R < d"
  proof (cases "d \<le> ?D")
    case False
    then show ?thesis using assms(2) by (simp add: dc_log_def upd)
  next
    case True
    let ?i = "nat (?D - d)" and ?k = "min (?D - ?U) max_days"
    have i: "?i < R" using d True by simp
    have "dc_counts ?c ! ?i = (if ?i < nat ?k then 0 else dc_counts c ! (?i - nat ?k))"
      using assms i rotate_counts_nth [of "dc_counts c" "int R" ?i ?k] by (simp add: c dc_ok_def max_days_def day_ns_def)
    moreover have "?i < nat ?k \<longleftrightarrow> ?U < d"
      using i True assms(3) by (auto simp: min_def)
    moreover have "?i - nat ?k = nat (?U - d)" "?U - d < int R" if "d \<le> ?U"
      using that i assms by (auto simp: min_def)
    ultimately show ?thesis using d True by (simp add: dc_log_def upd)
  qed
qed

lemma dc_Inc_ok:
  assumes "dc_ok off R c" and "dc_upd off c \<le> local_day (\<lambda>_. off) t" and "int R \<le> max_days" and "0 < R"
  shows "dc_ok off R (dc_Inc (\<lambda>_. off) t n c)"
    and "dc_upd off (dc_Inc (\<lambda>_. off) t n c) = local_day (\<lambda>_. off) t"
    and "local_day (\<lambda>_. off) t - int R < d \<Longrightarrow>
      dc_log off R (dc_Inc (\<lambda>_. off) t n c) d = dc_log off R c d + (if d = local_day (\<lambda>_. off) t then n else 0)"
proof -
  let ?c = "dc_rotate (\<lambda>_. off) t c"
  note r = dc_rotate_ok [OF assms(1-3)]
  have inc: "dc_Inc (\<lambda>_. off) t n c = ?c\<lparr>dc_counts := (dc_counts ?c)[0 := dc_counts ?c ! 0 + n]\<rparr>"
    by (simp add: dc_Inc_def Let_def)
  have same: "dc_upd off (dc_Inc (\<lambda>_. off) t n c) = dc_upd off ?c" by (simp add: inc dc_upd_def)
  with r(2) show "dc_upd off (dc_Inc (\<lambda>_. off) t n c) = local_day (\<lambda>_. off) t" by simp
  from r(1) show "dc_ok off R (dc_Inc (\<lambda>_. off) t n c)" unfolding dc_ok_def same by (simp add: inc)
  assume d: "local_day (\<lambda>_. off) t - int R < d"
  have "dc_log off R (dc_Inc (\<lambda>_. off) t n c) d = dc_log off R ?c d + (if d = local_day (\<lambda>_. off) t then n else 0)"
    unfolding dc_log_def same r(2) using d r(1) assms(4)
    by (auto simp: inc dc_ok_def nth_list_update)
  with r(3) [OF d] show "dc_log off R (dc_Inc (\<lambda>_. off) t n c) d =
      dc_log off R c d + (if d = local_day (\<lambda>_. off) t then n else 0)" by simp
qed

lemma GetLastDaysCount_ok:
  assumes "dc_ok off R c" and "dc_upd off c \<le> local_day (\<lambda>_. off) t" and "int R \<le> max_days"
    and "0 \<le> k" and "k \<le> int R"
  shows "map_option fst (GetLastDaysCount (\<lambda>_. off) t k c) =
    Some (map (\<lambda>i. dc_log off R c (local_day (\<lambda>_. off) t - int i)) [0..<nat k])"
proof -
  let ?c = "dc_rotate (\<lambda>_. off) t c"
  note r = dc_rotate_ok [OF assms(1-3)]
  have "dc_counts ?c ! i = dc_log off R c (local_day (\<lambda>_. off) t - int i)" if "i < nat k" for i
    using r(3) [of "local_day (\<lambda>_. off) t - int i"] that assms(5) by (simp add: dc_log_def r(2))
  then show ?thesis
    using assms by (auto simp: GetLastDaysCount_def Let_def dc_ok_def)
qed

text \<open>\<open>R\<close> days: the list that \<open>GetLastDaysCount\<close> returns when it is asked for all of them.\<close>

definition all_days :: "location \<Rightarrow> nat \<Rightarrow> instant \<Rightarrow> date_counter \<Rightarrow> i64 list" where
  "all_days loc R t c = (case GetLastDaysCount loc t (int R) c of None \<Rightarrow> [] | Some (ns, _) \<Rightarrow> ns)"

lemma max_days_eq: "max_days = 106751"
  by (simp add: max_days_def day_ns_def)

interpretation week: day_counter "local_day (\<lambda>_. off)" "nat ReserveDays" "dc_ok off (nat ReserveDays)"
  "dc_upd off" "dc_log off (nat ReserveDays)" "dc_Inc (\<lambda>_. off)" "all_days (\<lambda>_. off) (nat ReserveDays)" for off
proof
  fix c :: date_counter and t n d
  assume ok: "dc_ok off (nat ReserveDays) c" and le: "dc_upd off c \<le> local_day (\<lambda>_. off) t"
  have R: "int (nat ReserveDays) \<le> max_days" "0 < nat ReserveDays"
    by (simp_all add: ReserveDays_def max_days_eq)
  note inc = dc_Inc_ok [OF ok le R]
  show "dc_ok off (nat ReserveDays) (dc_Inc (\<lambda>_. off) t n c)"
    "dc_upd off (dc_Inc (\<lambda>_. off) t n c) = local_day (\<lambda>_. off) t" by (fact inc)+
  show "local_day (\<lambda>_. off) t - int (nat ReserveDays) < d \<Longrightarrow>
      dc_log off (nat ReserveDays) (dc_Inc (\<lambda>_. off) t n c) d =
      dc_log off (nat ReserveDays) c d + (if d = local_day (\<lambda>_. off) t then n else 0)" by (fact inc)
  show "all_days (\<lambda>_. off) (nat ReserveDays) t c =
      map (\<lambda>i. dc_log off (nat ReserveDays) c (local_day (\<lambda>_. off) t - int i)) [0..<nat ReserveDays]"
    using GetLastDaysCount_ok [OF ok le R(1), of "int (nat ReserveDays)"]
    by (auto simp: all_days_def split: option.splits)
qed

lemma NewDateCounter_ok:
  assumes "0 < R"
  shows "dc_ok off R (NewDateCounter (\<lambda>_. off) t (int R))"
    and "dc_upd off (NewDateCounter (\<lambda>_. off) t (int R)) = local_day (\<lambda>_. off) t"
    and "dc_log off R (NewDateCounter (\<lambda>_. off) t (int R)) d = 0"
proof -
  have dn: "day_ns \<noteq> 0" by (simp add: day_ns_def)
  then show u: "dc_upd off (NewDateCounter (\<lambda>_. off) t (int R)) = local_day (\<lambda>_. off) t"
    using assms by (simp add: NewDateCounter_def newStandardDateCounter_def dc_upd_def)
  show "dc_ok off R (NewDateCounter (\<lambda>_. off) t (int R))"
    unfolding dc_ok_def u using assms by (simp add: NewDateCounter_def newStandardDateCounter_def)
  show "dc_log off R (NewDateCounter (\<lambda>_. off) t (int R)) d = 0"
    unfolding dc_log_def u using assms by (auto simp: NewDateCounter_def newStandardDateCounter_def)
qed

lemma local_day_mono: "t \<le> u \<Longrightarrow> local_day (\<lambda>_. off) t \<le> local_day (\<lambda>_. off) u"
  by (simp add: local_day_def day_ns_def zdiv_mono1)

section \<open>Counts of proxies\<close>

text \<open>The calls that the server makes of the collector, one after the other.\<close>

datatype metrics_op =
    OpNewClient
  | OpCloseClient
  | OpNewProxy instant string string
  | OpCloseProxy instant string string
  | OpOpenConnection string
  | OpCloseConnection string
  | OpTrafficIn instant string i64
  | OpTrafficOut instant string i64
  | OpClear instant

fun metrics_step :: "location \<Rightarrow> metrics_op \<Rightarrow> server_statistics \<Rightarrow> server_statistics" where
  "metrics_step loc OpNewClient m = NewClient m"
| "metrics_step loc OpCloseClient m = CloseClient m"
| "metrics_step loc (OpNewProxy t name ty) m = metrics_NewProxy loc t name ty m"
| "metrics_step loc (OpCloseProxy t name ty) m = metrics_CloseProxy t name ty m"
| "metrics_step loc (OpOpenConnection name) m = OpenConnection name m"
| "metrics_step loc (OpCloseConnection name) m = CloseConnection name m"
| "metrics_step loc (OpTrafficIn t name n) m = AddTrafficIn loc t name n m"
| "metrics_step loc (OpTrafficOut t name n) m = AddTrafficOut loc t name n m"
| "metrics_step loc (OpClear t) m = snd (clearUselessInfo t m)"

definition metrics_run :: "location \<Rightarrow> metrics_op list \<Rightarrow> server_statistics \<Rightarrow> server_statistics" where
  "metrics_run loc ops m = fold (metrics_step loc) ops m"

text \<open>The proxies of a type started and not yet closed, and the clients likewise.\<close>

fun proxy_delta :: "string \<Rightarrow> metrics_op \<Rightarrow> int" where
  "proxy_delta ty (OpNewProxy _ _ ty') = (if ty' = ty then 1 else 0)"
| "proxy_delta ty (OpCloseProxy _ _ ty') = (if ty' = ty then -1 else 0)"
| "proxy_delta ty _ = 0"

definition open_proxies :: "string \<Rightarrow> metrics_op list \<Rightarrow> int" where
  "open_proxies ty ops = sum_list (map (proxy_delta ty) ops)"

fun client_delta :: "metrics_op \<Rightarrow> int" where
  "client_delta OpNewClient = 1"
| "client_delta OpCloseClient = -1"
| "client_delta _ = 0"

definition open_clients :: "metrics_op list \<Rightarrow> int" where
  "open_clients ops = sum_list (map client_delta ops)"

definition type_count :: "server_statistics \<Rightarrow> string \<Rightarrow> i32" where
  "type_count m ty = (case map_of (si_ProxyTypeCounts m) ty of None \<Rightarrow> 0 | Some c \<Rightarrow> c)"

lemma with_entry_map_of: "map_of (with_entry k f xs) x = (if x = k then map_option f (map_of xs k) else map_of xs x)"
  by (auto simp: with_entry_def AList.update_conv' split: option.splits)

lemma type_counts_step:
  "map_of (si_ProxyTypeCounts (metrics_step loc op m)) ty =
     (case op of
        OpNewProxy _ _ ty' \<Rightarrow> if ty' = ty then Some (type_count m ty + 1) else map_of (si_ProxyTypeCounts m) ty
      | OpCloseProxy _ _ ty' \<Rightarrow> if ty' = ty then map_option (\<lambda>c. c - 1) (map_of (si_ProxyTypeCounts m) ty)
          else map_of (si_ProxyTypeCounts m) ty
      | _ \<Rightarrow> map_of (si_ProxyTypeCounts m) ty)"
  by (cases op) (simp_all add: NewClient_def CloseClient_def metrics_NewProxy_def metrics_CloseProxy_def
      OpenConnection_def CloseConnection_def AddTrafficIn_def AddTrafficOut_def clearUselessInfo_def
      with_entry_map_of AList.update_conv' type_count_def counter_Inc_def counter_Dec_def NewCounter_def
      Let_def split: option.splits)

lemma client_count_step:
  "si_ClientCounts (metrics_step loc op m) = si_ClientCounts m + of_int (client_delta op)"
  by (cases op) (simp_all add: NewClient_def CloseClient_def metrics_NewProxy_def metrics_CloseProxy_def
      OpenConnection_def CloseConnection_def AddTrafficIn_def AddTrafficOut_def clearUselessInfo_def
      counter_Inc_def counter_Dec_def Let_def)

text \<open>No proxy of a type is closed that was not started before.\<close>

definition well_bracketed :: "string \<Rightarrow> metrics_op list \<Rightarrow> bool" where
  "well_bracketed ty ops \<longleftrightarrow> (\<forall>n \<le> length ops. 0 \<le> open_proxies ty (take n ops))"

lemma well_bracketed_snoc:
  "well_bracketed ty (ops @ [op]) \<Longrightarrow> well_bracketed ty ops \<and> 0 \<le> open_proxies ty ops + proxy_delta ty op"
proof (intro conjI)
  assume w: "well_bracketed ty (ops @ [op])"
  from w [unfolded well_bracketed_def, rule_format, of "Suc (length ops)"]
  show "0 \<le> open_proxies ty ops + proxy_delta ty op" by (simp add: open_proxies_def)
  show "well_bracketed ty ops"
    unfolding well_bracketed_def
  proof (intro allI impI)
    fix n
    assume "n \<le> length ops"
    with w [unfolded well_bracketed_def, rule_format, of n] show "0 \<le> open_proxies ty (take n ops)" by simp
  qed
qed

lemma metrics_counts:
  assumes "well_bracketed ty ops"
  shows "type_count (metrics_run loc ops (newServerMetrics loc t0)) ty = of_int (open_proxies ty ops) \<and>
    (map_of (si_ProxyTypeCounts (metrics_run loc ops (newServerMetrics loc t0))) ty = None \<longrightarrow>
       open_proxies ty ops = 0) \<and>
    si_ClientCounts (metrics_run loc ops (newServerMetrics loc t0)) = of_int (open_clients ops)"
  using assms
proof (induction ops rule: rev_induct)
  case Nil
  show ?case by (simp add: metrics_run_def newServerMetrics_def type_count_def open_proxies_def
        open_clients_def NewCounter_def)
next
  case (snoc op ops)
  let ?m = "metrics_run loc ops (newServerMetrics loc t0)"
  have run: "metrics_run loc (ops @ [op]) (newServerMetrics loc t0) = metrics_step loc op ?m"
    by (simp add: metrics_run_def)
  from well_bracketed_snoc [OF snoc.prems] snoc.IH
  have IH: "type_count ?m ty = of_int (open_proxies ty ops)"
    "map_of (si_ProxyTypeCounts ?m) ty = None \<longrightarrow> open_proxies ty ops = 0"
    "si_ClientCounts ?m = of_int (open_clients ops)"
    and nn: "0 \<le> open_proxies ty ops + proxy_delta ty op" by auto
  have snocs: "open_proxies ty (ops @ [op]) = open_proxies ty ops + proxy_delta ty op"
    "open_clients (ops @ [op]) = open_clients ops + client_delta op"
    by (simp_all add: open_proxies_def open_clients_def)
  show ?case
    unfolding run snocs client_count_step IH(3) type_count_def type_counts_step
    using IH(1,2) nn
    by (cases op) (auto simp: type_count_def split: option.splits)
qed

lemma week_of_traffic_lemma:
  assumes "sorted (t0 # map fst es @ [now])"
  shows "map_option fst (GetLastDaysCount (\<lambda>_. off) now ReserveDays
      (run_incs (dc_Inc (\<lambda>_. off)) es (NewDateCounter (\<lambda>_. off) t0 ReserveDays))) =
    Some (map (\<lambda>i. day_sum (local_day (\<lambda>_. off)) es (local_day (\<lambda>_. off) now - int i)) [0..<7])"
proof -
  let ?day = "local_day (\<lambda>_. off)" and ?c = "NewDateCounter (\<lambda>_. off) t0 ReserveDays"
  have R: "ReserveDays = int 7" "nat ReserveDays = 7" "int 7 \<le> max_days" "0 < (7 :: nat)"
    by (simp_all add: ReserveDays_def max_days_eq)
  note new = NewDateCounter_ok [OF R(4), of off t0]
  have "sorted (map ?day (t0 # map fst es @ [now]))"
    unfolding sorted_map using assms by (rule sorted_wrt_mono_rel [rotated]) (rule local_day_mono)
  then have s: "sorted (dc_upd off ?c # map (\<lambda>(t, _). ?day t) es @ [?day now])"
    using new(2) by (simp add: R(1) comp_def case_prod_unfold)
  then have s': "sorted (dc_upd off ?c # map (\<lambda>(t, _). ?day t) es)" by (simp add: sorted_append)
  have ok: "dc_ok off (nat ReserveDays) ?c" using new(1) by (simp add: R)
  note r = week.run_log [OF ok s']
  have le: "dc_upd off (run_incs (dc_Inc (\<lambda>_. off)) es ?c) \<le> ?day now"
    using s r by (auto simp: sorted_append last_map split: if_splits)
  have "map_option fst (GetLastDaysCount (\<lambda>_. off) now ReserveDays (run_incs (dc_Inc (\<lambda>_. off)) es ?c)) =
      Some (map (\<lambda>i. dc_log off (nat ReserveDays) (run_incs (dc_Inc (\<lambda>_. off)) es ?c) (?day now - int i)) [0..<7])"
    using GetLastDaysCount_ok [of off 7 "run_incs (dc_Inc (\<lambda>_. off)) es ?c" now 7] r le R by simp
  moreover have "dc_log off (nat ReserveDays) (run_incs (dc_Inc (\<lambda>_. off)) es ?c) (?day now - int i) =
      day_sum ?day es (?day now - int i)" if "i < 7" for i
    using r le that new(3) R by simp
  then have "map (\<lambda>i. dc_log off (nat ReserveDays) (run_incs (dc_Inc (\<lambda>_. off)) es ?c) (?day now - int i)) [0..<7] =
      map (\<lambda>i. day_sum ?day es (?day now - int i)) [0..<7]" by (intro map_cong) auto
  ultimately show ?thesis by (simp only:)
qed

section \<open>Properties\<close>

text \<open>
  (C18) The traffic counter refines a log of events. In a time zone with a fixed offset, after
  any sequence of increments at times that do not decrease, \<open>GetLastDaysCount\<close> for the seven
  days kept returns the sum of the increments of each day (as an \<open>int64\<close>), today first, then
  the days before.
\<close>

theorem week_of_traffic:
  assumes "sorted (t0 # map fst es @ [now])"
  shows "map_option fst (GetLastDaysCount (\<lambda>_. off) now ReserveDays
      (run_incs (dc_Inc (\<lambda>_. off)) es (NewDateCounter (\<lambda>_. off) t0 ReserveDays))) =
    Some (map (\<lambda>i. day_sum (local_day (\<lambda>_. off)) es (local_day (\<lambda>_. off) now - int i)) [0..<7])"
  by (rule week_of_traffic_lemma [OF assms])

theorem week_of_traffic_witness:
  "map_option fst (GetLastDaysCount (\<lambda>_. 0) (2 * day_ns + 5) ReserveDays
      (run_incs (dc_Inc (\<lambda>_. 0)) [(1, 10), (day_ns, 20), (2 * day_ns, 30)] (NewDateCounter (\<lambda>_. 0) 0 ReserveDays))) =
    Some [30, 20, 10, 0, 0, 0, 0]"
proof -
  have "sorted (0 # map fst [(1, 10), (day_ns, 20), (2 * day_ns, 30 :: i64)] @ [2 * day_ns + 5])"
    by (simp add: day_ns_def)
  from week_of_traffic [OF this, of 0]
  have "map_option fst (GetLastDaysCount (\<lambda>_. 0) (2 * day_ns + 5) ReserveDays
      (run_incs (dc_Inc (\<lambda>_. 0)) [(1, 10), (day_ns, 20), (2 * day_ns, 30)] (NewDateCounter (\<lambda>_. 0) 0 ReserveDays))) =
    Some (map (\<lambda>i. day_sum (local_day (\<lambda>_. 0)) [(1, 10), (day_ns, 20), (2 * day_ns, 30)]
      (local_day (\<lambda>_. 0) (2 * day_ns + 5) - int i)) [0..<7])" .
  moreover have "map (\<lambda>i. day_sum (local_day (\<lambda>_. 0)) [(1, 10), (day_ns, 20), (2 * day_ns, 30)]
      (local_day (\<lambda>_. 0) (2 * day_ns + 5) - int i)) [0..<7] = [30, 20, 10, 0, 0, 0, 0]" by code_simp
  ultimately show ?thesis by (simp only:)
qed

text \<open>A time zone that changes from UTC+1 to UTC+2 at 01:00 UTC on 31 March 2024.\<close>

definition spring_zone :: location where
  "spring_zone t = (if t < 1711846800000000000 then 3600000000000 else 7200000000000)"

text \<open>
  In a time zone with daylight saving time the counter merges two days: the day on which
  the clocks go forward has 23 hours, which \<open>rotate\<close> rounds down to no day at all while it
  moves the date of the last update. What was counted that day is reported as part of the
  next day, and nothing as the count of the day itself.
\<close>

theorem spring_day_is_merged:
  "let noon = 1711882800000000000; next_noon = noon + day_ns;
       c = dc_Inc spring_zone next_noon 7 (dc_Inc spring_zone noon 5 (NewDateCounter spring_zone noon ReserveDays))
   in local_day spring_zone next_noon = local_day spring_zone noon + 1 \<and>
      map_option fst (GetLastDaysCount spring_zone next_noon ReserveDays c) = Some [12, 0, 0, 0, 0, 0, 0]"
  by code_simp

text \<open>
  (C19) The collector counts what is running: after any sequence of calls in which no proxy of a
  type is closed before it was started, \<open>GetServer\<close> reports for that type the number of
  proxies started and not closed, and the number of clients likewise, as long as both fit
  into 31 bits; a type that is not reported has no running proxy.
\<close>

theorem collector_counts_running:
  assumes "well_bracketed ty ops" and "open_proxies ty ops < 2 ^ 31"
    and "- (2 ^ 31) \<le> open_clients ops" and "open_clients ops < 2 ^ 31"
  shows "let stats = fst (GetServer loc now io1 io2 w ds (metrics_run loc ops (newServerMetrics loc t0)))
    in sint (ss_ClientCounts stats) = open_clients ops \<and>
       (case map_of (ss_ProxyTypeCounts stats) ty of
          None \<Rightarrow> open_proxies ty ops = 0
        | Some n \<Rightarrow> sint n = open_proxies ty ops)"
proof -
  let ?m = "metrics_run loc ops (newServerMetrics loc t0)"
  note c = metrics_counts [OF assms(1), of loc t0]
  have nn: "0 \<le> open_proxies ty ops"
    using assms(1) by (auto simp: well_bracketed_def dest: spec [of _ "length ops"])
  have small: "sint (count_int64 (of_int k)) = k" if "- (2 ^ 31) \<le> k" "k < 2 ^ 31" for k
  proof -
    have "sint (count_int64 (of_int k)) = sint (word_of_int k :: i32)"
      unfolding count_int64_def by (rule sint_up_scast) (simp add: is_up)
    also have "\<dots> = signed_take_bit 31 k" using signed_of_int [where 'a = int and 'b = 32, of k] by simp
    finally show ?thesis using that by (simp only: signed_take_bit_int_eq_self)
  qed
  let ?stats = "fst (GetServer loc now io1 io2 w ds ?m)"
  have s: "ss_ClientCounts ?stats = count_int64 (si_ClientCounts ?m)"
    "ss_ProxyTypeCounts ?stats = map (\<lambda>(k, c). (k, count_int64 c)) (si_ProxyTypeCounts ?m)"
    by (auto simp: GetServer_def Let_def split: prod.splits)
  have "map_of (ss_ProxyTypeCounts ?stats) ty = map_option count_int64 (map_of (si_ProxyTypeCounts ?m) ty)"
    unfolding s by (simp add: map_of_map)
  moreover have "sint (ss_ClientCounts ?stats) = open_clients ops"
    unfolding s using c small assms(3,4) by simp
  moreover have "sint (count_int64 (of_int (open_proxies ty ops))) = open_proxies ty ops"
    using nn assms(2) by (intro small) auto
  ultimately show ?thesis
    using c by (auto simp: Let_def type_count_def split: option.splits)
qed

theorem collector_counts_running_witness:
  "let stats = fst (GetServer (\<lambda>_. 0) 9 None None True
       \<lparr>ds_startTime = 0, ds_startBytesRecv = 0, ds_startBytesSent = 0, ds_file = None\<rparr>
       (metrics_run (\<lambda>_. 0) [OpNewClient, OpNewProxy 1 ''p'' ''tcp'', OpNewProxy 2 ''q'' ''tcp'',
          OpCloseProxy 3 ''p'' ''tcp''] (newServerMetrics (\<lambda>_. 0) 0)))
   in sint (ss_ClientCounts stats) = 1"
proof -
  let ?ops = "[OpNewClient, OpNewProxy 1 ''p'' ''tcp'', OpNewProxy 2 ''q'' ''tcp'', OpCloseProxy 3 ''p'' ''tcp'']"
  have "well_bracketed ''tcp'' ?ops"
    by (auto simp: well_bracketed_def open_proxies_def le_Suc_eq numeral_eq_Suc)
  moreover have "open_proxies ''tcp'' ?ops = 1" "open_clients ?ops = 1"
    by (simp_all add: open_proxies_def open_clients_def)
  ultimately show ?thesis
    using collector_counts_running [of "''tcp''" ?ops "\<lambda>_. 0" 9 None None True
        "\<lparr>ds_startTime = 0, ds_startBytesRecv = 0, ds_startBytesSent = 0, ds_file = None\<rparr>" 0]
    unfolding Let_def by simp
qed

end
