(* ===== verification/Frp_Dashboard.thy ===== *)
theory Frp_Dashboard
  imports Frp_Metrics
begin

text \<open>
  The web dashboards: \<open>web/frps\<close> (overview, proxy lists and traffic charts of the server)
  and \<open>web/frpc\<close> (status and configuration of the client), with the server's handlers
  \<open>/api/serverinfo\<close> and \<open>/api/traffic\<close> that answer them. The values that a script reads from
  an answer are ECMAScript values; a property of \<open>null\<close> or \<open>undefined\<close> throws. What the
  charts and tables show is the data the scripts hand to the chart and table components;
  the components themselves (echarts, Element Plus, Vue) are libraries.
\<close>

section \<open>ECMAScript values\<close>

text \<open>The numbers of the answers are integers, of at most 53 bits where the scripts add them.\<close>

datatype js_val =
    JUndef
  | JNull
  | JBool bool
  | JNum int
  | JStr string
  | JArr "js_val list"
  | JObj "(string \<times> js_val) list"

datatype js_exn = TypeError

text \<open>The property \<open>v.k\<close>.\<close>

fun js_get :: "js_val \<Rightarrow> string \<Rightarrow> js_exn + js_val" where
  "js_get (JObj ps) k = Inr (case map_of ps k of None \<Rightarrow> JUndef | Some v \<Rightarrow> v)"
| "js_get JUndef k = Inl TypeError"
| "js_get JNull k = Inl TypeError"
| "js_get (JStr s) k = Inr (if k = ''length'' then JNum (int (length s)) else JUndef)"
| "js_get (JArr vs) k = Inr (if k = ''length'' then JNum (int (length vs)) else JUndef)"
| "js_get _ k = Inr JUndef"

text \<open>The property of a value that is an object.\<close>

definition fld :: "js_val \<Rightarrow> string \<Rightarrow> js_val" where
  "fld v k = (case js_get v k of Inl _ \<Rightarrow> JUndef | Inr w \<Rightarrow> w)"

text \<open>\<open>v != null\<close>.\<close>

definition non_null :: "js_val \<Rightarrow> bool" where
  "non_null v \<longleftrightarrow> v \<noteq> JUndef \<and> v \<noteq> JNull"

text \<open>The conversion to a string that \<open>+\<close> does.\<close>

fun js_to_string :: "js_val \<Rightarrow> string" where
  "js_to_string JUndef = ''undefined''"
| "js_to_string JNull = ''null''"
| "js_to_string (JBool b) = (if b then ''true'' else ''false'')"
| "js_to_string (JNum n) = show_int n"
| "js_to_string (JStr s) = s"
| "js_to_string (JArr vs) =
     go_join '','' (map (\<lambda>v. if non_null v then js_to_string v else '''') vs)"
| "js_to_string (JObj _) = ''[object Object]''"

text \<open>
  The strings that \<open>==\<close> takes for the number 0: blanks, or zeros with an optional sign,
  point and exponent. (Literals that underflow to 0 are not among them.)
\<close>

definition js_zero_string :: "string \<Rightarrow> bool" where
  "js_zero_string s =
     (let t = trim_space s;
          u = (case t of [] \<Rightarrow> [] | c # r \<Rightarrow> if c = CHR ''+'' \<or> c = CHR ''-'' then r else t);
          zeros = (\<lambda>w. w \<noteq> [] \<and> set w \<subseteq> {CHR ''0''});
          mantissa = takeWhile (\<lambda>c. c \<noteq> CHR ''e'' \<and> c \<noteq> CHR ''E'') u;
          rest = drop (length mantissa) u;
          digits = (\<lambda>w. w \<noteq> [] \<and> (\<forall>c \<in> set w. digit_val c \<noteq> None));
          expo = (case rest of [] \<Rightarrow> True
                  | _ # c # r \<Rightarrow> if c = CHR ''+'' \<or> c = CHR ''-'' then digits r else digits (c # r)
                  | _ \<Rightarrow> False)
      in t = [] \<or>
         (u = t \<and> (\<exists>p \<in> set [''0x'', ''0X'', ''0o'', ''0O'', ''0b'', ''0B'']. has_prefix t p \<and> zeros (drop 2 t))) \<or>
         (expo \<and> zeros (filter (\<lambda>c. c \<noteq> CHR ''.'') mantissa) \<and> count_list mantissa (CHR ''.'') \<le> 1))"

text \<open>\<open>v == 0\<close>, \<open>v == ''\<close> and \<open>v == '0'\<close>: loose equality with a literal.\<close>

fun eq_zero :: "js_val \<Rightarrow> bool" where
  "eq_zero JUndef = False"
| "eq_zero JNull = False"
| "eq_zero (JBool b) = (\<not> b)"
| "eq_zero (JNum n) = (n = 0)"
| "eq_zero (JStr s) = js_zero_string s"
| "eq_zero v = js_zero_string (js_to_string v)"

fun eq_empty :: "js_val \<Rightarrow> bool" where
  "eq_empty JUndef = False"
| "eq_empty JNull = False"
| "eq_empty (JBool b) = (\<not> b)"
| "eq_empty (JNum n) = (n = 0)"
| "eq_empty (JStr s) = (s = '''')"
| "eq_empty v = (js_to_string v = '''')"

fun eq_zero_str :: "js_val \<Rightarrow> bool" where
  "eq_zero_str JUndef = False"
| "eq_zero_str JNull = False"
| "eq_zero_str (JBool b) = (\<not> b)"
| "eq_zero_str (JNum n) = (n = 0)"
| "eq_zero_str (JStr s) = (s = ''0'')"
| "eq_zero_str v = (js_to_string v = ''0'')"

text \<open>
  \<open>a + b\<close>: strings are concatenated, numbers added; booleans and \<open>null\<close> count as numbers.
  A sum with \<open>undefined\<close> is not a number and does not occur (the scripts test for it first).
\<close>

fun js_num_of :: "js_val \<Rightarrow> int" where
  "js_num_of (JNum n) = n"
| "js_num_of (JBool b) = (if b then 1 else 0)"
| "js_num_of _ = 0"

fun is_stringish :: "js_val \<Rightarrow> bool" where
  "is_stringish (JStr _) = True"
| "is_stringish (JArr _) = True"
| "is_stringish (JObj _) = True"
| "is_stringish _ = False"

definition js_add :: "js_val \<Rightarrow> js_val \<Rightarrow> js_val" where
  "js_add a b =
     (if is_stringish a \<or> is_stringish b then JStr (js_to_string a @ js_to_string b)
      else JNum (js_num_of a + js_num_of b))"

section \<open>Proxies of the lists (utils/proxy.ts)\<close>

record base_proxy =
  px_name :: js_val
  px_type :: string
  px_encryption :: js_val
  px_compression :: js_val
  px_conns :: js_val
  px_traffic_in :: js_val
  px_traffic_out :: js_val
  px_last_start_time :: js_val
  px_last_close_time :: js_val
  px_status :: js_val
  px_client_version :: js_val
  px_addr :: js_val
  px_port :: js_val
  px_custom_domains :: js_val
  px_host_header_rewrite :: js_val
  px_locations :: js_val
  px_subdomain :: js_val

text \<open>The constructors take an element of the answer's list, an object.\<close>

definition BaseProxy :: "js_val \<Rightarrow> base_proxy" where
  "BaseProxy st =
     (let conf = fld st ''conf'' in
      \<lparr>px_name = fld st ''name'', px_type = '''',
       px_encryption = (if non_null conf then fld conf ''use_encryption'' else JBool False),
       px_compression = (if non_null conf then fld conf ''use_compression'' else JBool False),
       px_conns = fld st ''cur_conns'',
       px_traffic_in = fld st ''today_traffic_in'', px_traffic_out = fld st ''today_traffic_out'',
       px_last_start_time = fld st ''last_start_time'', px_last_close_time = fld st ''last_close_time'',
       px_status = fld st ''status'', px_client_version = fld st ''client_version'',
       px_addr = JStr '''', px_port = JNum 0, px_custom_domains = JStr '''',
       px_host_header_rewrite = JStr '''', px_locations = JStr '''', px_subdomain = JStr ''''\<rparr>)"

definition TCPProxy :: "js_val \<Rightarrow> base_proxy" where
  "TCPProxy st =
     (let p = (BaseProxy st)\<lparr>px_type := ''tcp''\<rparr>; conf = fld st ''conf'' in
      if non_null conf
      then p\<lparr>px_addr := js_add (JStr '':'') (fld conf ''remote_port''), px_port := fld conf ''remote_port''\<rparr>
      else p\<lparr>px_addr := JStr '''', px_port := JNum 0\<rparr>)"

definition UDPProxy :: "js_val \<Rightarrow> base_proxy" where
  "UDPProxy st =
     (let p = (BaseProxy st)\<lparr>px_type := ''udp''\<rparr>; conf = fld st ''conf'' in
      if non_null conf
      then p\<lparr>px_addr := js_add (JStr '':'') (fld conf ''remote_port''), px_port := fld conf ''remote_port''\<rparr>
      else p\<lparr>px_addr := JStr '''', px_port := JNum 0\<rparr>)"

definition subdomain_of :: "js_val \<Rightarrow> js_val \<Rightarrow> js_val" where
  "subdomain_of conf host =
     (if \<not> eq_empty (fld conf ''subdomain'')
      then js_add (js_add (fld conf ''subdomain'') (JStr ''.'')) host else JStr '''')"

definition HTTPProxy :: "js_val \<Rightarrow> js_val \<Rightarrow> js_val \<Rightarrow> base_proxy" where
  "HTTPProxy st port subdomain_host =
     (let p = (BaseProxy st)\<lparr>px_type := ''http'', px_port := port\<rparr>; conf = fld st ''conf'' in
      if non_null conf
      then p\<lparr>px_custom_domains := fld conf ''custom_domains'',
             px_host_header_rewrite := fld conf ''host_header_rewrite'',
             px_locations := fld conf ''locations'', px_subdomain := subdomain_of conf subdomain_host\<rparr>
      else p\<lparr>px_custom_domains := JStr '''', px_host_header_rewrite := JStr '''',
             px_subdomain := JStr '''', px_locations := JStr ''''\<rparr>)"

definition HTTPSProxy :: "js_val \<Rightarrow> js_val \<Rightarrow> js_val \<Rightarrow> base_proxy" where
  "HTTPSProxy st port subdomain_host =
     (let p = (BaseProxy st)\<lparr>px_type := ''https'', px_port := port\<rparr>; conf = fld st ''conf'' in
      if non_null conf
      then p\<lparr>px_custom_domains := fld conf ''custom_domains'', px_subdomain := subdomain_of conf subdomain_host\<rparr>
      else p\<lparr>px_custom_domains := JStr '''', px_subdomain := JStr ''''\<rparr>)"

definition STCPProxy :: "js_val \<Rightarrow> base_proxy" where
  "STCPProxy st = (BaseProxy st)\<lparr>px_type := ''stcp''\<rparr>"

definition SUDPProxy :: "js_val \<Rightarrow> base_proxy" where
  "SUDPProxy st = (BaseProxy st)\<lparr>px_type := ''sudp''\<rparr>"

section \<open>Charts (utils/chart.ts)\<close>

text \<open>
  A chart shows a loading mask until its option is set. Of an option the model keeps the
  data; colours, positions and sizes are left out.
\<close>

datatype 'a chart = Loading | Shown 'a

record pie_option =
  po_text :: string
  po_subtext :: string
  po_legend :: "string list"
  po_data :: "(js_val \<times> string) list"

definition DrawTrafficChart :: "js_val \<Rightarrow> js_val \<Rightarrow> pie_option chart" where
  "DrawTrafficChart trafficIn trafficOut =
     Shown \<lparr>po_text = ''Network Traffic'', po_subtext = ''today'',
       po_legend = [''Traffic In'', ''Traffic Out''],
       po_data = [(trafficIn, ''Traffic In''), (trafficOut, ''Traffic Out'')]\<rparr>"

text \<open>The tooltip, for the formatter \<open>fileSize\<close> of humanize-plus and the share of a slice.\<close>

definition traffic_tooltip :: "(js_val \<Rightarrow> string) \<Rightarrow> js_val \<Rightarrow> string \<Rightarrow> string" where
  "traffic_tooltip fileSize val percent = fileSize val @ '' ('' @ percent @ ''%)''"

text \<open>One of the seven conditional blocks of \<open>DrawProxyChart\<close>.\<close>

definition push_count :: "js_val \<Rightarrow> string \<times> string \<Rightarrow> pie_option \<Rightarrow> js_exn + pie_option" where
  "push_count counts kl opt =
     (case kl of (key, label) \<Rightarrow>
        (case js_get counts key of
           Inl e \<Rightarrow> Inl e
         | Inr v \<Rightarrow>
             Inr (if non_null v \<and> \<not> eq_zero v
                  then opt\<lparr>po_data := po_data opt @ [(v, label)], po_legend := po_legend opt @ [label]\<rparr>
                  else opt)))"

fun push_counts :: "js_val \<Rightarrow> (string \<times> string) list \<Rightarrow> pie_option \<Rightarrow> js_exn + pie_option" where
  "push_counts counts [] opt = Inr opt"
| "push_counts counts (kl # kls) opt =
     (case push_count counts kl opt of Inl e \<Rightarrow> Inl e | Inr opt' \<Rightarrow> push_counts counts kls opt')"

definition chart_types :: "(string \<times> string) list" where
  "chart_types = [(''tcp'', ''TCP''), (''udp'', ''UDP''), (''http'', ''HTTP''), (''https'', ''HTTPS''),
     (''stcp'', ''STCP''), (''sudp'', ''SUDP''), (''xtcp'', ''XTCP'')]"

definition DrawProxyChart :: "js_val \<Rightarrow> js_exn option \<times> pie_option chart" where
  "DrawProxyChart serverInfo =
     (case js_get serverInfo ''proxy_type_count'' of
        Inl e \<Rightarrow> (Some e, Loading)
      | Inr counts \<Rightarrow>
          (case push_counts counts chart_types
                  \<lparr>po_text = ''Proxies'', po_subtext = ''now'', po_legend = [], po_data = []\<rparr> of
             Inl e \<Rightarrow> (Some e, Loading)
           | Inr opt \<Rightarrow> (None, Shown opt)))"

text \<open>
  \<open>new Date(y, m, d)\<close> in local time, of which only the date is used, for years from 100 on,
  and the text \<open>y-m-d\<close> of a date.
\<close>

definition js_new_date :: "int \<Rightarrow> int \<Rightarrow> int \<Rightarrow> civil" where
  "js_new_date y m d = civil_of_day (make_day y m d)"

definition date_text :: "civil \<Rightarrow> string" where
  "date_text c = show_int (cv_year c) @ ''-'' @ show_int (int (cv_month c) + 1) @ ''-'' @ show_int (cv_day c)"

fun dates_loop :: "nat \<Rightarrow> civil \<Rightarrow> string list" where
  "dates_loop 0 now = []"
| "dates_loop (Suc n) now =
     date_text now # dates_loop n (js_new_date (cv_year now) (int (cv_month now)) (cv_day now + 1))"

record bar_option =
  bo_dates :: "string list"
  bo_in :: "js_val list"
  bo_out :: "js_val list"

fun js_reverse :: "js_val \<Rightarrow> js_exn + js_val list" where
  "js_reverse (JArr vs) = Inr (rev vs)"
| "js_reverse _ = Inl TypeError"

definition DrawProxyTrafficChart :: "civil \<Rightarrow> js_val \<Rightarrow> js_val \<Rightarrow> js_exn option \<times> bar_option chart" where
  "DrawProxyTrafficChart now trafficInArr trafficOutArr =
     (case js_reverse trafficInArr of
        Inl e \<Rightarrow> (Some e, Loading)
      | Inr tin \<Rightarrow>
          (case js_reverse trafficOutArr of
             Inl e \<Rightarrow> (Some e, Loading)
           | Inr tout \<Rightarrow>
               let first = js_new_date (cv_year now) (int (cv_month now)) (cv_day now - 6)
               in (None, Shown \<lparr>bo_dates = dates_loop 7 first, bo_in = tin, bo_out = tout\<rparr>)))"

text \<open>The tooltip of the bars: the date, then a line per series with its colour and name.\<close>

fun bar_lines :: "(js_val \<Rightarrow> string) \<Rightarrow> (string \<times> string \<times> string \<times> js_val) list \<Rightarrow> string" where
  "bar_lines fileSize [] = []"
| "bar_lines fileSize ((name, color, seriesName, val) # vs) =
     ''<span style=\"display:inline-block;margin-right:5px;'' @
     ''border-radius:10px;width:9px;height:9px;background-color:'' @ color @ ''\"></span>'' @
     seriesName @ '': '' @ fileSize val @ ''<br/>'' @ bar_lines fileSize vs"

definition bar_tooltip :: "(js_val \<Rightarrow> string) \<Rightarrow> (string \<times> string \<times> string \<times> js_val) list \<Rightarrow> string" where
  "bar_tooltip fileSize data =
     (case data of [] \<Rightarrow> '''' | (name, _) # _ \<Rightarrow> name @ ''<br/>'') @ bar_lines fileSize data"

section \<open>The overview (components/ServerOverview.vue, LongSpan.vue)\<close>

record overview =
  ov_version :: js_val
  ov_bind_port :: js_val
  ov_kcp_bind_port :: js_val
  ov_quic_bind_port :: js_val
  ov_vhost_http_port :: js_val
  ov_vhost_https_port :: js_val
  ov_tcpmux_httpconnect_port :: js_val
  ov_subdomain_host :: js_val
  ov_max_pool_count :: js_val
  ov_max_ports_per_client :: js_val
  ov_allow_ports_str :: js_val
  ov_tls_only :: js_val
  ov_heart_beat_timeout :: js_val
  ov_client_counts :: js_val
  ov_cur_conns :: js_val
  ov_proxy_counts :: js_val

definition overview_init :: overview where
  "overview_init = \<lparr>ov_version = JStr '''', ov_bind_port = JNum 0, ov_kcp_bind_port = JNum 0,
     ov_quic_bind_port = JNum 0, ov_vhost_http_port = JNum 0, ov_vhost_https_port = JNum 0,
     ov_tcpmux_httpconnect_port = JNum 0, ov_subdomain_host = JStr '''', ov_max_pool_count = JNum 0,
     ov_max_ports_per_client = JStr '''', ov_allow_ports_str = JStr '''', ov_tls_only = JBool False,
     ov_heart_beat_timeout = JNum 0, ov_client_counts = JNum 0, ov_cur_conns = JNum 0,
     ov_proxy_counts = JNum 0\<rparr>"

fun add_counts :: "js_val \<Rightarrow> string list \<Rightarrow> js_val \<Rightarrow> js_val" where
  "add_counts counts [] acc = acc"
| "add_counts counts (k # ks) acc =
     add_counts counts ks (if non_null (fld counts k) then js_add acc (fld counts k) else acc)"

definition read_overview :: "js_val \<Rightarrow> overview" where
  "read_overview json =
     (let limit = fld json ''max_ports_per_client''; counts = fld json ''proxy_type_count'' in
      \<lparr>ov_version = fld json ''version'', ov_bind_port = fld json ''bind_port'',
       ov_kcp_bind_port = fld json ''kcp_bind_port'', ov_quic_bind_port = fld json ''quic_bind_port'',
       ov_vhost_http_port = fld json ''vhost_http_port'', ov_vhost_https_port = fld json ''vhost_https_port'',
       ov_tcpmux_httpconnect_port = fld json ''tcpmux_httpconnect_port'',
       ov_subdomain_host = fld json ''subdomain_host'', ov_max_pool_count = fld json ''max_pool_count'',
       ov_max_ports_per_client = (if eq_zero_str limit then JStr ''no limit'' else limit),
       ov_allow_ports_str = fld json ''allow_ports_str'', ov_tls_only = fld json ''tls_only'',
       ov_heart_beat_timeout = fld json ''heart_beat_timeout'', ov_client_counts = fld json ''client_counts'',
       ov_cur_conns = fld json ''cur_conns'',
       ov_proxy_counts = (if non_null counts then add_counts counts (map fst chart_types) (JNum 0) else JNum 0)\<rparr>)"

record overview_page =
  op_data :: overview
  op_traffic :: "pie_option chart option"
  op_proxies :: "pie_option chart option"
  op_message :: "string option"

text \<open>\<open>fetchData\<close>, for the parsed answer, or \<open>None\<close> when the request or the parsing fails.\<close>

definition overview_fetchData :: "js_val option \<Rightarrow> overview_page" where
  "overview_fetchData answer =
     (let failed = Some ''Get server info from frps failed!'';
          start = \<lparr>op_data = overview_init, op_traffic = None, op_proxies = None, op_message = failed\<rparr>
      in case answer of
           None \<Rightarrow> start
         | Some json \<Rightarrow>
             if \<not> non_null json then start
             else let (exn, proxies) = DrawProxyChart json in
               \<lparr>op_data = read_overview json,
                op_traffic = Some (DrawTrafficChart (fld json ''total_traffic_in'') (fld json ''total_traffic_out'')),
                op_proxies = Some proxies,
                op_message = (if exn = None then None else failed)\<rparr>)"

text \<open>
  \<open>LongSpan\<close>: the texts of the spans that are visible. Both spans are rendered, so that a
  \<open>content\<close> that is not a string throws.
\<close>

definition LongSpan :: "js_val \<Rightarrow> int \<Rightarrow> js_exn + string list" where
  "LongSpan content len =
     (case content of
        JStr s \<Rightarrow> Inr ((if int (length s) > len then [take (nat len) s @ ''...''] else []) @
                       (if length s < 30 then [s] else []))
      | _ \<Rightarrow> Inl TypeError)"

datatype overview_item = Plain js_val | Long "js_exn + string list"

text \<open>The items of the form, from the template.\<close>

definition overview_items :: "overview \<Rightarrow> (string \<times> overview_item) list" where
  "overview_items d =
     [(''Version'', Plain (ov_version d)), (''BindPort'', Plain (ov_bind_port d))] @
     (if \<not> eq_zero (ov_kcp_bind_port d) then [(''KCP Bind Port'', Plain (ov_kcp_bind_port d))] else []) @
     (if \<not> eq_zero (ov_quic_bind_port d) then [(''QUIC Bind Port'', Plain (ov_quic_bind_port d))] else []) @
     (if \<not> eq_zero (ov_vhost_http_port d) then [(''Http Port'', Plain (ov_vhost_http_port d))] else []) @
     (if \<not> eq_zero (ov_vhost_https_port d) then [(''Https Port'', Plain (ov_vhost_https_port d))] else []) @
     (if \<not> eq_zero (ov_tcpmux_httpconnect_port d)
      then [(''TCPMux HTTPConnect Port'', Plain (ov_tcpmux_httpconnect_port d))] else []) @
     (if \<not> eq_empty (ov_subdomain_host d)
      then [(''Subdomain Host'', Long (LongSpan (ov_subdomain_host d) 30))] else []) @
     [(''Max PoolCount'', Plain (ov_max_pool_count d)),
      (''Max Ports Per Client'', Plain (ov_max_ports_per_client d))] @
     (if \<not> eq_empty (ov_allow_ports_str d)
      then [(''Allow Ports'', Long (LongSpan (ov_allow_ports_str d) 30))] else []) @
     (if ov_tls_only d = JBool True then [(''TLS Only'', Plain (ov_tls_only d))] else []) @
     [(''HeartBeat Timeout'', Plain (ov_heart_beat_timeout d)),
      (''Client Counts'', Plain (ov_client_counts d)),
      (''Current Connections'', Plain (ov_cur_conns d)),
      (''Proxy Counts'', Plain (ov_proxy_counts d))]"

section \<open>The lists of proxies (components/Proxies*.vue, ProxyView.vue, ProxyViewExpand.vue)\<close>

text \<open>The values that \<open>for ... of\<close> runs through; \<open>None\<close>: the value is not iterable.\<close>

fun js_iter :: "js_val \<Rightarrow> js_val list option" where
  "js_iter (JArr vs) = Some vs"
| "js_iter (JStr s) = Some (map (\<lambda>c. JStr [c]) s)"
| "js_iter _ = None"

text \<open>The loop that pushes the proxies; a constructor throws on \<open>null\<close> and \<open>undefined\<close>.\<close>

fun push_proxies :: "(js_val \<Rightarrow> base_proxy) \<Rightarrow> js_val list \<Rightarrow> base_proxy list \<Rightarrow> js_exn option \<times> base_proxy list" where
  "push_proxies mk [] acc = (None, acc)"
| "push_proxies mk (st # sts) acc =
     (if non_null st then push_proxies mk sts (acc @ [mk st]) else (Some TypeError, acc))"

definition read_proxies :: "(js_val \<Rightarrow> base_proxy) \<Rightarrow> js_val \<Rightarrow> base_proxy list \<Rightarrow> js_exn option \<times> base_proxy list" where
  "read_proxies mk json acc =
     (case js_get json ''proxies'' of
        Inl e \<Rightarrow> (Some e, acc)
      | Inr v \<Rightarrow> (case js_iter v of None \<Rightarrow> (Some TypeError, acc) | Some sts \<Rightarrow> push_proxies mk sts acc))"

text \<open>
  \<open>fetch url\<close> is the parsed answer to a request, \<open>None\<close> when it fails. The pages do not
  handle failures: the promise is rejected and the list stays as it is.
\<close>

type_synonym fetch = "string \<Rightarrow> js_val option"

definition simple_fetch ::
    "string \<Rightarrow> (js_val \<Rightarrow> base_proxy) \<Rightarrow> fetch \<Rightarrow> base_proxy list \<Rightarrow> base_proxy list" where
  "simple_fetch url mk fetch proxies =
     (case fetch url of None \<Rightarrow> proxies | Some json \<Rightarrow> snd (read_proxies mk json proxies))"

definition ProxiesTCP_fetchData :: "fetch \<Rightarrow> base_proxy list \<Rightarrow> base_proxy list" where
  "ProxiesTCP_fetchData = simple_fetch ''../api/proxy/tcp'' TCPProxy"

definition ProxiesUDP_fetchData :: "fetch \<Rightarrow> base_proxy list \<Rightarrow> base_proxy list" where
  "ProxiesUDP_fetchData = simple_fetch ''../api/proxy/udp'' UDPProxy"

definition ProxiesSTCP_fetchData :: "fetch \<Rightarrow> base_proxy list \<Rightarrow> base_proxy list" where
  "ProxiesSTCP_fetchData = simple_fetch ''../api/proxy/stcp'' STCPProxy"

definition ProxiesSUDP_fetchData :: "fetch \<Rightarrow> base_proxy list \<Rightarrow> base_proxy list" where
  "ProxiesSUDP_fetchData = simple_fetch ''../api/proxy/sudp'' SUDPProxy"

text \<open>The pages of virtual host proxies ask for the port and the subdomain host first.\<close>

definition vhost_fetch ::
    "string \<Rightarrow> string \<Rightarrow> (js_val \<Rightarrow> js_val \<Rightarrow> js_val \<Rightarrow> base_proxy) \<Rightarrow> fetch \<Rightarrow> base_proxy list \<Rightarrow> base_proxy list" where
  "vhost_fetch port_field url mk fetch proxies =
     (case fetch ''../api/serverinfo'' of
        None \<Rightarrow> proxies
      | Some info \<Rightarrow>
          (case js_get info port_field of
             Inl _ \<Rightarrow> proxies
           | Inr port \<Rightarrow>
               if \<not> non_null port \<or> eq_zero port then proxies
               else (case fetch url of
                       None \<Rightarrow> proxies
                     | Some json \<Rightarrow>
                         snd (read_proxies (\<lambda>st. mk st port (fld info ''subdomain_host'')) json proxies))))"

definition ProxiesHTTP_fetchData :: "fetch \<Rightarrow> base_proxy list \<Rightarrow> base_proxy list" where
  "ProxiesHTTP_fetchData = vhost_fetch ''vhost_http_port'' ''../api/proxy/http'' HTTPProxy"

definition ProxiesHTTPS_fetchData :: "fetch \<Rightarrow> base_proxy list \<Rightarrow> base_proxy list" where
  "ProxiesHTTPS_fetchData = vhost_fetch ''vhost_https_port'' ''../api/proxy/https'' HTTPSProxy"

text \<open>A row of the table: its columns and the colour of the status tag.\<close>

record table_row =
  row_name :: js_val
  row_port :: js_val
  row_conns :: js_val
  row_traffic_in :: string
  row_traffic_out :: string
  row_client_version :: js_val
  row_status :: js_val
  row_tag :: string

definition ProxyView_row :: "(js_val \<Rightarrow> string) \<Rightarrow> base_proxy \<Rightarrow> table_row" where
  "ProxyView_row fileSize p =
     \<lparr>row_name = px_name p, row_port = px_port p, row_conns = px_conns p,
      row_traffic_in = fileSize (px_traffic_in p), row_traffic_out = fileSize (px_traffic_out p),
      row_client_version = px_client_version p, row_status = px_status p,
      row_tag = (if px_status p = JStr ''online'' then ''success'' else ''danger'')\<rparr>"

definition ProxyViewExpand :: "string \<Rightarrow> base_proxy \<Rightarrow> (string \<times> js_val) list" where
  "ProxyViewExpand proxyType p =
     (if proxyType = ''http'' \<or> proxyType = ''https'' then
        [(''Name'', px_name p), (''Type'', JStr (px_type p)), (''Domains'', px_custom_domains p),
         (''SubDomain'', px_subdomain p), (''locations'', px_locations p),
         (''HostRewrite'', px_host_header_rewrite p), (''Encryption'', px_encryption p),
         (''Compression'', px_compression p), (''Last Start'', px_last_start_time p),
         (''Last Close'', px_last_close_time p)]
      else
        [(''Name'', px_name p), (''Type'', JStr (px_type p)), (''Addr'', px_addr p),
         (''Encryption'', px_encryption p), (''Compression'', px_compression p),
         (''Last Start'', px_last_start_time p), (''Last Close'', px_last_close_time p)])"

section \<open>Traffic of a proxy (components/Traffic.vue)\<close>

text \<open>The chart, and the warning when the request or the drawing fails.\<close>

definition Traffic_fetchData :: "fetch \<Rightarrow> civil \<Rightarrow> string \<Rightarrow> bar_option chart option \<times> bool" where
  "Traffic_fetchData fetch now proxy_name =
     (case fetch (''../api/traffic/'' @ proxy_name) of
        None \<Rightarrow> (None, True)
      | Some json \<Rightarrow>
          (case js_get json ''traffic_in'' of
             Inl _ \<Rightarrow> (None, True)
           | Inr tin \<Rightarrow>
               let (exn, c) = DrawProxyTrafficChart now tin (fld json ''traffic_out'')
               in (Some c, exn \<noteq> None)))"

section \<open>Navigation (App.vue, router/index.ts)\<close>

text \<open>Paths and names of the routes, and the entries of the menu.\<close>

definition frps_routes :: "(string \<times> string) list" where
  "frps_routes = [(''/'', ''ServerOverview''), (''/proxies/tcp'', ''ProxiesTCP''),
     (''/proxies/udp'', ''ProxiesUDP''), (''/proxies/http'', ''ProxiesHTTP''),
     (''/proxies/https'', ''ProxiesHTTPS''), (''/proxies/stcp'', ''ProxiesSTCP''),
     (''/proxies/sudp'', ''ProxiesSUDP'')]"

definition frpc_routes :: "(string \<times> string) list" where
  "frpc_routes = [(''/'', ''Overview''), (''/configure'', ''ClientConfigure'')]"

definition frps_menu :: "(string \<times> string) list" where
  "frps_menu = [(''/'', ''Overview''), (''/proxies/tcp'', ''TCP''), (''/proxies/udp'', ''UDP''),
     (''/proxies/http'', ''HTTP''), (''/proxies/https'', ''HTTPS''), (''/proxies/stcp'', ''STCP''),
     (''/proxies/sudp'', ''SUDP''), ('''', ''Help'')]"

definition frpc_menu :: "(string \<times> string) list" where
  "frpc_menu = [(''/'', ''Overview''), (''/configure'', ''Configure''), ('''', ''Help'')]"

text \<open>\<open>handleSelect\<close>: the address that is opened in a new window, if any; else the router navigates.\<close>

definition handleSelect :: "string \<Rightarrow> string option" where
  "handleSelect key = (if key = '''' then Some ''https://github.com/fatedier/frp'' else None)"

section \<open>The client's pages (Overview.vue, ClientConfigure.vue)\<close>

text \<open>
  \<open>fetchData\<close> of the status page: the rows, collected over the keys of the answer, and
  whether the warning is shown. Rows pushed before a failure stay.
\<close>

fun push_status :: "(string \<times> js_val) list \<Rightarrow> js_val list \<Rightarrow> js_exn option \<times> js_val list" where
  "push_status [] acc = (None, acc)"
| "push_status ((_, v) # kvs) acc =
     (case js_iter v of None \<Rightarrow> (Some TypeError, acc) | Some ps \<Rightarrow> push_status kvs (acc @ ps))"

text \<open>The properties that \<open>for ... in\<close> runs through.\<close>

fun js_entries :: "js_val \<Rightarrow> (string \<times> js_val) list" where
  "js_entries (JObj ps) = ps"
| "js_entries (JArr vs) = zip (map show_nat [0..<length vs]) vs"
| "js_entries (JStr s) = zip (map show_nat [0..<length s]) (map (\<lambda>c. JStr [c]) s)"
| "js_entries _ = []"

definition status_fetchData :: "js_val option \<Rightarrow> js_val list \<Rightarrow> js_val list \<times> bool" where
  "status_fetchData answer status =
     (case answer of
        None \<Rightarrow> (status, True)
      | Some json \<Rightarrow> let (exn, rows) = push_status (js_entries json) [] in (rows, exn \<noteq> None))"

definition configure_fetchData :: "string option \<Rightarrow> string \<Rightarrow> string \<times> string list" where
  "configure_fetchData answer textarea =
     (case answer of
        None \<Rightarrow> (textarea, [''Get configure content from frpc failed!''])
      | Some text \<Rightarrow> (text, []))"

text \<open>
  \<open>uploadConfig\<close> for the user's choice in the confirmation box and the outcome of the two
  requests (a promise of \<open>fetch\<close> is rejected on a network error only, not for a status such
  as 400 or 500): the requests that are sent and the messages shown.
\<close>

datatype upload_request = PutConfig string | Reload

definition uploadConfig ::
    "bool \<Rightarrow> bool \<Rightarrow> string option \<Rightarrow> string \<Rightarrow> upload_request list \<times> string list" where
  "uploadConfig confirmed put_sent reload_error textarea =
     (if \<not> confirmed then ([], [''Canceled''])
      else if textarea = '''' then ([], [''Configure content can not be empty!''])
      else if \<not> put_sent then ([PutConfig textarea], [''Put config to frpc and hot reload failed!''])
      else case reload_error of
        None \<Rightarrow> ([PutConfig textarea, Reload], [''Success''])
      | Some err \<Rightarrow> ([PutConfig textarea, Reload], [''Reload frpc configure file error, '' @ err]))"

section \<open>The answers of the server (server/dashboard_api.go)\<close>

record dash_cfg =
  cf_BindPort :: int
  cf_BindUDPPort :: int
  cf_VhostHTTPPort :: int
  cf_VhostHTTPSPort :: int
  cf_TCPMuxHTTPConnectPort :: int
  cf_KCPBindPort :: int
  cf_QUICBindPort :: int
  cf_SubDomainHost :: string
  cf_MaxPoolCount :: int
  cf_MaxPortsPerClient :: int
  cf_HeartbeatTimeout :: int
  cf_AllowPortsStr :: string
  cf_TLSOnly :: bool

text \<open>
  The fields that gopsutil supplies, with arbitrary values \<open>sys\<close>; a field that is marked
  \<open>omitempty\<close> is left out when it is empty.
\<close>

definition sys_fields :: "string list" where
  "sys_fields = [''cpu_usage'', ''cpu_info'', ''num_cores'', ''memory_total'', ''memory_used'',
     ''page_tables'', ''storage_total'', ''storage_used'', ''upload_bandwidth'', ''download_bandwidth'',
     ''load1'', ''load5'', ''load15'', ''uptime_seconds'', ''sent_packets'', ''recv_packets'',
     ''active_conn'', ''passive_conn'']"

definition jint64 :: "i64 \<Rightarrow> js_val" where "jint64 w = JNum (sint w)"

definition serverInfoResp :: "string \<Rightarrow> dash_cfg \<Rightarrow> server_stats \<Rightarrow> (string \<Rightarrow> js_val) \<Rightarrow> js_val" where
  "serverInfoResp version cfg st sys =
     JObj ([(''version'', JStr version), (''bind_port'', JNum (cf_BindPort cfg)),
            (''bind_udp_port'', JNum (cf_BindUDPPort cfg)), (''vhost_http_port'', JNum (cf_VhostHTTPPort cfg)),
            (''vhost_https_port'', JNum (cf_VhostHTTPSPort cfg)),
            (''tcpmux_httpconnect_port'', JNum (cf_TCPMuxHTTPConnectPort cfg)),
            (''kcp_bind_port'', JNum (cf_KCPBindPort cfg)), (''quic_bind_port'', JNum (cf_QUICBindPort cfg)),
            (''subdomain_host'', JStr (cf_SubDomainHost cfg)), (''max_pool_count'', JNum (cf_MaxPoolCount cfg)),
            (''max_ports_per_client'', JNum (cf_MaxPortsPerClient cfg)),
            (''heart_beat_timeout'', JNum (cf_HeartbeatTimeout cfg))] @
           (if cf_AllowPortsStr cfg = '''' then [] else [(''allow_ports_str'', JStr (cf_AllowPortsStr cfg))]) @
           (if cf_TLSOnly cfg then [(''tls_only'', JBool True)] else []) @
           [(''total_traffic_in'', jint64 (ss_TotalTrafficIn st)),
            (''total_traffic_out'', jint64 (ss_TotalTrafficOut st)),
            (''cur_conns'', jint64 (ss_CurConns st)), (''client_counts'', jint64 (ss_ClientCounts st)),
            (''proxy_type_counts'', JObj (map (\<lambda>(k, n). (k, jint64 n)) (ss_ProxyTypeCounts st)))] @
           map (\<lambda>k. (k, sys k)) sys_fields)"

text \<open>\<open>/api/traffic/:name\<close>: the status code and the body.\<close>

datatype api_body = Text string | Json js_val

definition APIProxyTraffic ::
    "location \<Rightarrow> instant \<Rightarrow> string \<Rightarrow> server_statistics \<Rightarrow> (int \<times> api_body) \<times> server_statistics" where
  "APIProxyTraffic loc now name m =
     (case GetProxyTraffic loc now name m of
        (None, m') \<Rightarrow> ((404, Text ''no proxy info found''), m')
      | (Some (tin, tout), m') \<Rightarrow>
          ((200, Json (JObj [(''name'', JStr name), (''traffic_in'', JArr (map jint64 tin)),
                             (''traffic_out'', JArr (map jint64 tout))])), m'))"

section \<open>Lemmas on the charts\<close>

lemma js_get_object [simp]: "js_get (JObj ps) k = Inr (fld (JObj ps) k)"
  by (simp add: fld_def)

lemma fld_object: "fld (JObj ps) k = (case map_of ps k of None \<Rightarrow> JUndef | Some v \<Rightarrow> v)"
  by (simp add: fld_def)

declare js_get.simps(1) [simp del]

lemma non_null_simps [simp]:
  "non_null (JNum n)" "non_null (JStr s)" "non_null (JObj ps)" "non_null (JArr vs)" "non_null (JBool b)"
  "\<not> non_null JUndef" "\<not> non_null JNull"
  by (simp_all add: non_null_def)

text \<open>An object whose properties are numbers, and the number of a property, 0 if it is absent.\<close>

definition num_object :: "(string \<times> int) list \<Rightarrow> js_val" where
  "num_object cs = JObj (map (\<lambda>(k, n). (k, JNum n)) cs)"

definition count_of :: "(string \<times> int) list \<Rightarrow> string \<Rightarrow> int" where
  "count_of cs k = (case map_of cs k of None \<Rightarrow> 0 | Some n \<Rightarrow> n)"

lemma fld_num_object: "fld (num_object cs) k = (case map_of cs k of None \<Rightarrow> JUndef | Some n \<Rightarrow> JNum n)"
  by (simp add: num_object_def fld_object map_of_map split: option.splits)

lemma push_counts_num:
  "push_counts (num_object cs) kls opt =
     Inr (opt\<lparr>po_data := po_data opt @ [(JNum (count_of cs k), l). (k, l) \<leftarrow> kls, count_of cs k \<noteq> 0],
              po_legend := po_legend opt @ [l. (k, l) \<leftarrow> kls, count_of cs k \<noteq> 0]\<rparr>)"
proof (induction kls arbitrary: opt)
  case (Cons kl kls)
  obtain k l where kl: "kl = (k, l)" by (cases kl)
  have "js_get (num_object cs) k = Inr (fld (num_object cs) k)" by (simp add: num_object_def)
  with Cons show ?case
    by (cases "map_of cs k") (auto simp: kl push_count_def fld_num_object count_of_def)
qed simp

lemma add_counts_num:
  "add_counts (num_object cs) ks (JNum n) = JNum (n + sum_list (map (count_of cs) ks))"
proof (induction ks arbitrary: n)
  case (Cons k ks)
  then show ?case by (cases "map_of cs k") (simp_all add: fld_num_object count_of_def js_add_def add.assoc)
qed simp

lemma dates_loop_civil:
  "dates_loop n (civil_of_day x) = map (\<lambda>k. date_text (civil_of_day (x + int k))) [0..<n]"
proof (induction n arbitrary: x)
  case (Suc n)
  have "js_new_date (cv_year (civil_of_day x)) (int (cv_month (civil_of_day x))) (cv_day (civil_of_day x) + 1) =
      civil_of_day (x + 1)"
    by (simp add: js_new_date_def make_day_civil day_of_civil_of_day)
  moreover have "map (\<lambda>k. date_text (civil_of_day (x + int k))) [0..<Suc n] =
      date_text (civil_of_day x) # map (\<lambda>k. date_text (civil_of_day (x + 1 + int k))) [0..<n]"
    by (simp add: upt_conv_Cons map_Suc_upt [symmetric] comp_def add.assoc del: upt_Suc)
  ultimately show ?case using Suc.IH [of "x + 1"] by simp
qed simp

lemma rev_singleton_conv: "rev [x] = [x]"
  by simp

lemma week_dates:
  "dates_loop 7 (js_new_date (cv_year today) (int (cv_month today)) (cv_day today - 6)) =
     map (\<lambda>k. date_text (civil_of_day (day_of_civil today - 6 + int k))) [0..<7]"
  using dates_loop_civil [of 7 "day_of_civil today - 6"] make_day_civil [of today "-6"]
  by (simp add: js_new_date_def)

lemma upto_offset: "[D - 6..D] = map (\<lambda>k. D - 6 + int k) [0..<7]"
proof (rule nth_equalityI)
  fix i
  assume "i < length [D - 6..D]"
  then show "[D - 6..D] ! i = map (\<lambda>k. D - 6 + int k) [0..<7] ! i"
    by (simp add: nth_upto del: upt_rec_numeral)
qed simp

lemma serverInfoResp_fields:
  "fld (serverInfoResp v cfg st sys) ''proxy_type_count'' = JUndef"
  "fld (serverInfoResp v cfg st sys) ''allow_ports_str'' =
     (if cf_AllowPortsStr cfg = '''' then JUndef else JStr (cf_AllowPortsStr cfg))"
  "fld (serverInfoResp v cfg st sys) ''client_counts'' = jint64 (ss_ClientCounts st)"
  "fld (serverInfoResp v cfg st sys) ''total_traffic_in'' = jint64 (ss_TotalTrafficIn st)"
  "fld (serverInfoResp v cfg st sys) ''total_traffic_out'' = jint64 (ss_TotalTrafficOut st)"
  by (simp_all add: serverInfoResp_def fld_object sys_fields_def)

lemma serverInfoResp_object [simp]:
  "non_null (serverInfoResp v cfg st sys)"
  "js_get (serverInfoResp v cfg st sys) k = Inr (fld (serverInfoResp v cfg st sys) k)"
  by (simp_all add: serverInfoResp_def)

section \<open>Properties\<close>

text \<open>
  For an answer whose \<open>proxy_type_count\<close> is an object of numbers the overview shows what
  it should: the proxy count is the sum over the seven types, the pie has exactly one slice
  for each type whose count is not 0, in the order of the types and with its legend entry,
  and no warning is shown.
\<close>

theorem overview_counts:
  assumes "fld (JObj ps) ''proxy_type_count'' = num_object cs"
  shows "let page = overview_fetchData (Some (JObj ps)) in
    ov_proxy_counts (op_data page) = JNum (\<Sum>(k, l) \<leftarrow> chart_types. count_of cs k) \<and>
    op_proxies page = Some (Shown \<lparr>po_text = ''Proxies'', po_subtext = ''now'',
      po_legend = [l. (k, l) \<leftarrow> chart_types, count_of cs k \<noteq> 0],
      po_data = [(JNum (count_of cs k), l). (k, l) \<leftarrow> chart_types, count_of cs k \<noteq> 0]\<rparr>) \<and>
    op_message page = None"
proof -
  have nn: "non_null (num_object cs)" by (simp add: num_object_def)
  have "ov_proxy_counts (read_overview (JObj ps)) = JNum (\<Sum>(k, l) \<leftarrow> chart_types. count_of cs k)"
    using assms nn by (simp add: read_overview_def Let_def add_counts_num comp_def case_prod_unfold)
  moreover have "DrawProxyChart (JObj ps) = (None, Shown \<lparr>po_text = ''Proxies'', po_subtext = ''now'',
      po_legend = [l. (k, l) \<leftarrow> chart_types, count_of cs k \<noteq> 0],
      po_data = [(JNum (count_of cs k), l). (k, l) \<leftarrow> chart_types, count_of cs k \<noteq> 0]\<rparr>)"
    using assms by (simp add: DrawProxyChart_def push_counts_num)
  ultimately show ?thesis by (simp add: overview_fetchData_def Let_def)
qed

theorem overview_counts_witness:
  "ov_proxy_counts (op_data (overview_fetchData
     (Some (JObj [(''proxy_type_count'', num_object [(''tcp'', 2), (''http'', 3)])])))) = JNum 5"
proof -
  have "fld (JObj [(''proxy_type_count'', num_object [(''tcp'', 2), (''http'', 3)])]) ''proxy_type_count'' =
      num_object [(''tcp'', 2), (''http'', 3)]" by (simp add: fld_object)
  from overview_counts [OF this] show ?thesis
    by (simp add: Let_def chart_types_def count_of_def)
qed

text \<open>
  But the server's answer has no such property: \<open>/api/serverinfo\<close> names it
  \<open>proxy_type_counts\<close>. Whatever the server's state, the overview shows the proxy count 0,
  the pie of the proxies never leaves its loading mask, and the page warns that the
  request failed.
\<close>

theorem overview_of_server_answer:
  "let page = overview_fetchData (Some (serverInfoResp v cfg st sys)) in
   ov_proxy_counts (op_data page) = JNum 0 \<and> op_proxies page = Some Loading \<and>
   op_message page = Some ''Get server info from frps failed!'' \<and>
   ov_client_counts (op_data page) = jint64 (ss_ClientCounts st)"
proof -
  have "DrawProxyChart (serverInfoResp v cfg st sys) = (Some TypeError, Loading)"
    by (simp add: DrawProxyChart_def serverInfoResp_fields chart_types_def push_count_def)
  then show ?thesis
    by (simp add: overview_fetchData_def Let_def read_overview_def serverInfoResp_fields)
qed

text \<open>
  The texts of the overview that do not appear: when no ports are restricted the server
  leaves \<open>allow_ports_str\<close> out, and the overview, which tests for the empty string only,
  renders \<open>LongSpan\<close> with \<open>undefined\<close> and throws; and a text of exactly 30 characters is
  shown by neither of the two spans, while every other text is shown by exactly one of them.
\<close>

theorem overview_missing_texts:
  "(cf_AllowPortsStr cfg = '''' \<longrightarrow>
      (''Allow Ports'', Long (Inl TypeError)) \<in>
        set (overview_items (op_data (overview_fetchData (Some (serverInfoResp v cfg st sys)))))) \<and>
   LongSpan (JStr s) 30 = Inr (if length s < 30 then [s] else if length s = 30 then [] else [take 30 s @ ''...''])"
proof -
  have "DrawProxyChart (serverInfoResp v cfg st sys) = (Some TypeError, Loading)"
    by (simp add: DrawProxyChart_def serverInfoResp_fields chart_types_def push_count_def)
  then have "(''Allow Ports'', Long (Inl TypeError)) \<in>
      set (overview_items (op_data (overview_fetchData (Some (serverInfoResp v cfg st sys)))))"
    if "cf_AllowPortsStr cfg = ''''"
    using that by (simp add: overview_fetchData_def Let_def overview_items_def read_overview_def
        serverInfoResp_fields LongSpan_def)
  then show ?thesis by (auto simp: LongSpan_def)
qed

theorem overview_missing_texts_witness:
  "LongSpan (JStr ''123456789012345678901234567890'') 30 = Inr []"
  using overview_missing_texts [of undefined undefined undefined undefined
      "''123456789012345678901234567890''"] by simp

text \<open>
  The traffic chart labels its bars with the seven days that end today, oldest first, each
  label being the date of its day, and the last one today's date, and shows the values of
  the answer in reverse order.
\<close>

theorem traffic_chart_week:
  assumes "valid_civil today"
  shows "DrawProxyTrafficChart today (JArr tin) (JArr tout) =
    (None, Shown \<lparr>bo_dates = map (\<lambda>k. date_text (civil_of_day (day_of_civil today - 6 + int k))) [0..<7],
                  bo_in = rev tin, bo_out = rev tout\<rparr>) \<and>
    date_text (civil_of_day (day_of_civil today - 6 + int 6)) = date_text today"
  using civil_of_day_of_civil [OF assms] by (simp add: DrawProxyTrafficChart_def week_dates Let_def)

theorem traffic_chart_week_witness:
  "DrawProxyTrafficChart \<lparr>cv_year = 2024, cv_month = 2, cv_day = 3\<rparr> (JArr [JNum 7]) (JArr [JNum 9]) =
    (None, Shown \<lparr>bo_dates = map date_text
       [\<lparr>cv_year = 2024, cv_month = 1, cv_day = 26\<rparr>, \<lparr>cv_year = 2024, cv_month = 1, cv_day = 27\<rparr>,
        \<lparr>cv_year = 2024, cv_month = 1, cv_day = 28\<rparr>, \<lparr>cv_year = 2024, cv_month = 1, cv_day = 29\<rparr>,
        \<lparr>cv_year = 2024, cv_month = 2, cv_day = 1\<rparr>, \<lparr>cv_year = 2024, cv_month = 2, cv_day = 2\<rparr>,
        \<lparr>cv_year = 2024, cv_month = 2, cv_day = 3\<rparr>], bo_in = [JNum 7], bo_out = [JNum 9]\<rparr>)"
proof -
  let ?d = "\<lparr>cv_year = 2024, cv_month = 2, cv_day = 3\<rparr>"
  have v: "valid_civil ?d" by code_simp
  have days: "map (\<lambda>k. civil_of_day (day_of_civil ?d - 6 + int k)) [0..<7] =
      [\<lparr>cv_year = 2024, cv_month = 1, cv_day = 26\<rparr>, \<lparr>cv_year = 2024, cv_month = 1, cv_day = 27\<rparr>,
        \<lparr>cv_year = 2024, cv_month = 1, cv_day = 28\<rparr>, \<lparr>cv_year = 2024, cv_month = 1, cv_day = 29\<rparr>,
        \<lparr>cv_year = 2024, cv_month = 2, cv_day = 1\<rparr>, \<lparr>cv_year = 2024, cv_month = 2, cv_day = 2\<rparr>, ?d]"
    by code_simp
  have dates: "map (\<lambda>k. date_text (civil_of_day (day_of_civil ?d - 6 + int k))) [0..<7] =
      map date_text (map (\<lambda>k. civil_of_day (day_of_civil ?d - 6 + int k)) [0..<7])"
    by (simp only: map_map comp_def)
  show ?thesis
    using conjunct1 [OF traffic_chart_week [OF v, of "[JNum 7]" "[JNum 9]"]]
    by (simp only: dates days rev_singleton_conv)
qed



text \<open>
  Uploading a configuration: nothing is sent unless the user confirms and the text is not
  empty; the reload is requested only after the configuration was sent, at most once, and
  success is reported only if both requests were answered.
\<close>

theorem upload_order:
  "let (reqs, msgs) = uploadConfig confirmed put_sent reload_error textarea in
   (reqs \<noteq> [] \<longleftrightarrow> confirmed \<and> textarea \<noteq> '''') \<and>
   prefix reqs [PutConfig textarea, Reload] \<and> length msgs = 1 \<and>
   (msgs = [''Success''] \<longleftrightarrow> reqs = [PutConfig textarea, Reload] \<and> reload_error = None)"
  by (auto simp: uploadConfig_def Let_def split: option.splits)

text \<open>
  Every entry of the two menus leads somewhere: an entry is either the path of exactly one
  route, to which the router navigates, or the help entry, which opens the project's page.
\<close>

theorem menus_lead_somewhere:
  "(\<forall>(path, label) \<in> set frps_menu. (handleSelect path = None) = (path \<in> fst ` set frps_routes)) \<and>
   (\<forall>(path, label) \<in> set frpc_menu. (handleSelect path = None) = (path \<in> fst ` set frpc_routes)) \<and>
   distinct (map fst frps_routes) \<and> distinct (map fst frpc_routes) \<and>
   fst ` set frps_routes \<subseteq> fst ` set frps_menu \<and> fst ` set frpc_routes \<subseteq> fst ` set frpc_menu"
  by (simp add: frps_menu_def frpc_menu_def frps_routes_def frpc_routes_def handleSelect_def)

end
