(* ===== verification/Frp_TcpGroup.thy ===== *)
theory Frp_TcpGroup
  imports Frp_Ports Frp_HttpGroup
begin

text \<open>
  Load balancing of TCP proxies, \<open>server/group/tcp.go\<close>: the proxies of a group share one
  port, which the first of them acquires and the last one releases; and of TCP proxies
  behind the HTTP CONNECT multiplexer, \<open>server/group/tcpmux.go\<close>, which share one route of
  the multiplexer. Groups and listeners are heap objects. \<open>avail\<close>, \<open>order\<close> and \<open>now\<close> are the
  arguments of \<^const>\<open>Acquire\<close>, \<open>listen_ok\<close> says whether \<open>net.Listen\<close> succeeds.
\<close>

section \<open>Groups of TCP proxies\<close>

datatype listen_error = ErrAcquire port_error | ErrListen | ErrGroup group_error

record tcp_group =
  tg_group :: string
  tg_groupKey :: string
  tg_addr :: string
  tg_port :: int
  tg_realPort :: int
  tg_lns :: "nat list"
  tg_acceptCh_closed :: bool
  tg_tcpLn :: "int option"

record tcp_group_ctl =
  tc_groups :: "string \<rightharpoonup> nat"
  tc_store :: "nat \<Rightarrow> tcp_group"
  tc_next :: nat
  tc_ln_next :: nat
  tc_ports :: port_manager

definition NewTCPGroup :: tcp_group where
  "NewTCPGroup = \<lparr>tg_group = '''', tg_groupKey = '''', tg_addr = '''', tg_port = 0, tg_realPort = 0,
     tg_lns = [], tg_acceptCh_closed = False, tg_tcpLn = None\<rparr>"

definition NewTCPGroupCtl :: "port_manager \<Rightarrow> tcp_group_ctl" where
  "NewTCPGroupCtl pm = \<lparr>tc_groups = Map.empty, tc_store = (\<lambda>_. NewTCPGroup), tc_next = 0,
     tc_ln_next = 0, tc_ports = pm\<rparr>"

text \<open>
  \<open>TCPGroup.Listen\<close> for the new listener \<open>ln\<close>. \<open>tg_tcpLn\<close> is the port that is passed to
  \<open>net.Listen\<close>: the one asked for, not the one acquired. An acquired port is kept when
  \<open>net.Listen\<close> fails.
\<close>

definition tcp_group_Listen ::
    "(nat \<Rightarrow> int \<Rightarrow> bool) \<Rightarrow> int list \<Rightarrow> int \<Rightarrow> bool \<Rightarrow> port_manager \<Rightarrow> tcp_group \<Rightarrow> nat \<Rightarrow>
     string \<Rightarrow> string \<Rightarrow> string \<Rightarrow> string \<Rightarrow> int \<Rightarrow> (listen_error + int) \<times> tcp_group \<times> port_manager" where
  "tcp_group_Listen avail order now listen_ok pm g ln proxyName grp groupKey addr port =
     (if tg_lns g = [] then
        (case Acquire avail order now pm proxyName port of
           (Inl e, pm') \<Rightarrow> (Inl (ErrAcquire e), g, pm')
         | (Inr realPort, pm') \<Rightarrow>
             if \<not> listen_ok then (Inl ErrListen, g, pm')
             else (Inr realPort,
                   g\<lparr>tg_group := grp, tg_groupKey := groupKey, tg_addr := addr, tg_port := port,
                     tg_realPort := realPort, tg_tcpLn := Some port, tg_lns := tg_lns g @ [ln]\<rparr>, pm'))
      else if tg_group g \<noteq> grp \<or> tg_addr g \<noteq> addr then (Inl (ErrGroup ErrGroupParamsInvalid), g, pm)
      else if tg_port g \<noteq> port then (Inl (ErrGroup ErrGroupDifferentPort), g, pm)
      else if tg_groupKey g \<noteq> groupKey then (Inl (ErrGroup ErrGroupAuthFailed), g, pm)
      else (Inr (tg_realPort g), g\<lparr>tg_lns := tg_lns g @ [ln]\<rparr>, pm))"

definition tcp_find_or_create :: "tcp_group_ctl \<Rightarrow> string \<Rightarrow> nat \<times> tcp_group_ctl" where
  "tcp_find_or_create c grp =
     (case tc_groups c grp of
        Some gid \<Rightarrow> (gid, c)
      | None \<Rightarrow>
          let gid = tc_next c in
          (gid, c\<lparr>tc_groups := (tc_groups c)(grp \<mapsto> gid),
                  tc_store := (tc_store c)(gid := NewTCPGroup), tc_next := Suc gid\<rparr>))"

text \<open>\<open>TCPGroupCtl.Listen\<close>: the listener (the group and its number) and the real port.\<close>

definition tcp_ctl_Listen ::
    "(nat \<Rightarrow> int \<Rightarrow> bool) \<Rightarrow> int list \<Rightarrow> int \<Rightarrow> bool \<Rightarrow> tcp_group_ctl \<Rightarrow>
     string \<Rightarrow> string \<Rightarrow> string \<Rightarrow> string \<Rightarrow> int \<Rightarrow> (listen_error + (nat \<times> nat) \<times> int) \<times> tcp_group_ctl" where
  "tcp_ctl_Listen avail order now listen_ok c proxyName grp groupKey addr port =
     (let (gid, c) = tcp_find_or_create c grp;
          ln = tc_ln_next c;
          (res, g, pm) = tcp_group_Listen avail order now listen_ok (tc_ports c) (tc_store c gid) ln
                           proxyName grp groupKey addr port
      in (map_sum id (\<lambda>realPort. ((gid, ln), realPort)) res,
          c\<lparr>tc_store := (tc_store c)(gid := g), tc_ports := pm, tc_ln_next := Suc ln\<rparr>))"

text \<open>\<open>TCPGroup.CloseListener\<close>, with \<open>RemoveGroup\<close>.\<close>

definition tcp_CloseListener :: "int \<Rightarrow> tcp_group_ctl \<Rightarrow> nat \<Rightarrow> nat \<Rightarrow> tcp_group_ctl" where
  "tcp_CloseListener now c gid ln =
     (let g = (tc_store c gid)\<lparr>tg_lns := slice_remove ln (tg_lns (tc_store c gid))\<rparr>
      in if tg_lns g = [] then
           c\<lparr>tc_store := (tc_store c)(gid := g\<lparr>tg_acceptCh_closed := True, tg_tcpLn := None\<rparr>),
             tc_ports := Release now (tc_ports c) (tg_realPort g),
             tc_groups := (tc_groups c)(tg_group g := None)\<rparr>
         else c\<lparr>tc_store := (tc_store c)(gid := g)\<rparr>)"

section \<open>Groups behind the multiplexer\<close>

text \<open>The listeners of a \<open>Muxer\<close>, registered in its router; \<open>ml_id\<close> is the object's identity.\<close>

record mux_listener =
  ml_name :: string
  ml_location :: string
  ml_routeByHTTPUser :: string
  ml_rewriteHost :: string
  ml_username :: string
  ml_password :: string
  ml_id :: nat

type_synonym mux_router = "mux_listener routers"

definition Muxer_Listen :: "mux_router \<Rightarrow> nat \<Rightarrow> route_config \<Rightarrow> (router_error + mux_listener) \<times> mux_router" where
  "Muxer_Listen r i cfg =
     (let l = \<lparr>ml_name = rc_Domain cfg, ml_location = rc_Location cfg,
               ml_routeByHTTPUser = rc_RouteByHTTPUser cfg, ml_rewriteHost = rc_RewriteHost cfg,
               ml_username = rc_Username cfg, ml_password = rc_Password cfg, ml_id = i\<rparr>
      in case routers_Add r (rc_Domain cfg) (rc_Location cfg) (rc_RouteByHTTPUser cfg) l of
           (r', Some e) \<Rightarrow> (Inl e, r')
         | (r', None) \<Rightarrow> (Inr l, r'))"

definition mux_Listener_Close :: "mux_router \<Rightarrow> mux_listener \<Rightarrow> mux_router" where
  "mux_Listener_Close r l = routers_Del r (ml_name l) (ml_location l) (ml_routeByHTTPUser l)"

record mux_group =
  mg_group :: string
  mg_groupKey :: string
  mg_domain :: string
  mg_routeByHTTPUser :: string
  mg_username :: string
  mg_password :: string
  mg_lns :: "nat list"
  mg_acceptCh_closed :: bool
  mg_tcpMuxLn :: "mux_listener option"

record mux_group_ctl =
  mc_groups :: "string \<rightharpoonup> nat"
  mc_store :: "nat \<Rightarrow> mux_group"
  mc_next :: nat
  mc_ln_next :: nat
  mc_router :: mux_router

definition NewTCPMuxGroup :: mux_group where
  "NewTCPMuxGroup = \<lparr>mg_group = '''', mg_groupKey = '''', mg_domain = '''', mg_routeByHTTPUser = '''',
     mg_username = '''', mg_password = '''', mg_lns = [], mg_acceptCh_closed = False, mg_tcpMuxLn = None\<rparr>"

definition NewTCPMuxGroupCtl :: "mux_router \<Rightarrow> mux_group_ctl" where
  "NewTCPMuxGroupCtl r = \<lparr>mc_groups = Map.empty, mc_store = (\<lambda>_. NewTCPMuxGroup), mc_next = 0,
     mc_ln_next = 0, mc_router = r\<rparr>"

definition HTTPConnectListen ::
    "mux_router \<Rightarrow> mux_group \<Rightarrow> nat \<Rightarrow> string \<Rightarrow> string \<Rightarrow> route_config \<Rightarrow> group_error option \<times> mux_group \<times> mux_router" where
  "HTTPConnectListen r g ln grp groupKey cfg =
     (if mg_lns g = [] then
        (case Muxer_Listen r ln cfg of
           (Inl e, r') \<Rightarrow> (Some (ErrRouter e), g, r')
         | (Inr l, r') \<Rightarrow>
             (None, g\<lparr>mg_group := grp, mg_groupKey := groupKey, mg_domain := rc_Domain cfg,
                mg_routeByHTTPUser := rc_RouteByHTTPUser cfg, mg_username := rc_Username cfg,
                mg_password := rc_Password cfg, mg_tcpMuxLn := Some l, mg_lns := mg_lns g @ [ln]\<rparr>, r'))
      else if mg_group g \<noteq> grp \<or> mg_domain g \<noteq> rc_Domain cfg \<or>
              mg_routeByHTTPUser g \<noteq> rc_RouteByHTTPUser cfg \<or>
              mg_username g \<noteq> rc_Username cfg \<or> mg_password g \<noteq> rc_Password cfg
      then (Some ErrGroupParamsInvalid, g, r)
      else if mg_groupKey g \<noteq> groupKey then (Some ErrGroupAuthFailed, g, r)
      else (None, g\<lparr>mg_lns := mg_lns g @ [ln]\<rparr>, r))"

definition mux_find_or_create :: "mux_group_ctl \<Rightarrow> string \<Rightarrow> nat \<times> mux_group_ctl" where
  "mux_find_or_create c grp =
     (case mc_groups c grp of
        Some gid \<Rightarrow> (gid, c)
      | None \<Rightarrow>
          let gid = mc_next c in
          (gid, c\<lparr>mc_groups := (mc_groups c)(grp \<mapsto> gid),
                  mc_store := (mc_store c)(gid := NewTCPMuxGroup), mc_next := Suc gid\<rparr>))"

datatype mux_listen_error = MuxGroup group_error | UnknownMultiplexer string

definition mux_ctl_Listen ::
    "mux_group_ctl \<Rightarrow> string \<Rightarrow> string \<Rightarrow> string \<Rightarrow> route_config \<Rightarrow> (mux_listen_error + nat \<times> nat) \<times> mux_group_ctl" where
  "mux_ctl_Listen c multiplexer grp groupKey cfg =
     (let (gid, c) = mux_find_or_create c grp;
          ln = mc_ln_next c
      in if multiplexer = ''httpconnect'' then
           (let (err, g, r) = HTTPConnectListen (mc_router c) (mc_store c gid) ln grp groupKey cfg
            in (case err of None \<Rightarrow> Inr (gid, ln) | Some e \<Rightarrow> Inl (MuxGroup e),
                c\<lparr>mc_store := (mc_store c)(gid := g), mc_router := r, mc_ln_next := Suc ln\<rparr>))
         else (Inl (UnknownMultiplexer multiplexer), c))"

definition mux_CloseListener :: "mux_group_ctl \<Rightarrow> nat \<Rightarrow> nat \<Rightarrow> mux_group_ctl" where
  "mux_CloseListener c gid ln =
     (let g = (mc_store c gid)\<lparr>mg_lns := slice_remove ln (mg_lns (mc_store c gid))\<rparr>
      in if mg_lns g = [] then
           c\<lparr>mc_store := (mc_store c)(gid := g\<lparr>mg_acceptCh_closed := True, mg_tcpMuxLn := None\<rparr>),
             mc_router := (case mg_tcpMuxLn g of None \<Rightarrow> mc_router c | Some l \<Rightarrow> mux_Listener_Close (mc_router c) l),
             mc_groups := (mc_groups c)(mg_group g := None)\<rparr>
         else c\<lparr>mc_store := (mc_store c)(gid := g)\<rparr>)"

section \<open>Steps and invariant of the TCP groups\<close>

text \<open>
  A port in use cannot be bound a second time, so that the probe of the operating system
  fails for it.
\<close>

definition probe_ok :: "port_manager \<Rightarrow> (nat \<Rightarrow> int \<Rightarrow> bool) \<Rightarrow> int list \<Rightarrow> bool" where
  "probe_ok pm avail order \<longleftrightarrow>
     (\<forall>i p. usedPorts pm p \<noteq> None \<longrightarrow> \<not> avail i p) \<and> set order \<subseteq> freePorts pm"

text \<open>The groups that listen: they have a listener and are registered.\<close>

definition listening :: "tcp_group_ctl \<Rightarrow> string \<Rightarrow> nat \<Rightarrow> bool" where
  "listening c name gid \<longleftrightarrow> tc_groups c name = Some gid \<and> tg_lns (tc_store c gid) \<noteq> []"

text \<open>
  What can happen: a proxy joins a group, a listener is closed, or the port manager is used
  by other proxies, which do not touch the ports of groups.
\<close>

inductive tcp_step :: "tcp_group_ctl \<Rightarrow> tcp_group_ctl \<Rightarrow> bool" where
  listen: "probe_ok (tc_ports c) avail order \<Longrightarrow>
    tcp_step c (snd (tcp_ctl_Listen avail order now listen_ok c p grp key addr port))"
| close: "tc_groups c grp = Some gid \<Longrightarrow> ln \<in> set (tg_lns (tc_store c gid)) \<Longrightarrow>
    tcp_step c (tcp_CloseListener now c gid ln)"
| other: "port_step (tc_ports c) pm \<Longrightarrow>
    (\<And>name gid. listening c name gid \<Longrightarrow>
       usedPorts pm (tg_realPort (tc_store c gid)) = usedPorts (tc_ports c) (tg_realPort (tc_store c gid))) \<Longrightarrow>
    tcp_step c (c\<lparr>tc_ports := pm\<rparr>)"

inductive_cases tcp_stepE: "tcp_step c c'"

inductive tcp_reachable :: "int set \<Rightarrow> tcp_group_ctl \<Rightarrow> bool" for allow where
  start: "tcp_reachable allow (NewTCPGroupCtl (NewPortManager allow))"
| step: "tcp_reachable allow c \<Longrightarrow> tcp_step c c' \<Longrightarrow> tcp_reachable allow c'"

definition tcp_ctl_inv :: "int set \<Rightarrow> tcp_group_ctl \<Rightarrow> bool" where
  "tcp_ctl_inv P c \<longleftrightarrow>
     port_inv P (tc_ports c) \<and>
     (\<forall>n m gid. tc_groups c n = Some gid \<and> tc_groups c m = Some gid \<longrightarrow> n = m) \<and>
     (\<forall>n gid. tc_groups c n = Some gid \<longrightarrow> gid < tc_next c \<and> \<not> tg_acceptCh_closed (tc_store c gid) \<and>
        distinct (tg_lns (tc_store c gid)) \<and> (\<forall>l \<in> set (tg_lns (tc_store c gid)). l < tc_ln_next c)) \<and>
     (\<forall>n gid. listening c n gid \<longrightarrow> tg_group (tc_store c gid) = n \<and>
        usedPorts (tc_ports c) (tg_realPort (tc_store c gid)) \<noteq> None) \<and>
     (\<forall>n m gid gid'. listening c n gid \<and> listening c m gid' \<and>
        tg_realPort (tc_store c gid) = tg_realPort (tc_store c gid') \<longrightarrow> gid = gid')"

lemma take_port_used: "usedPorts (take_port pm n now p) = (usedPorts pm)(p \<mapsto> ctx_next pm)"
  by (simp add: take_port_def Let_def)

lemma Acquire_fresh:
  assumes "port_inv P pm" and "probe_ok pm avail order"
  shows "case Acquire avail order now pm name port of
      (Inl e, pm') \<Rightarrow> (\<forall>q. usedPorts pm q \<noteq> None \<longrightarrow> usedPorts pm' q = usedPorts pm q)
    | (Inr p, pm') \<Rightarrow> usedPorts pm p = None \<and> usedPorts pm' p \<noteq> None \<and>
        (\<forall>q. q \<noteq> p \<longrightarrow> usedPorts pm' q = usedPorts pm q)"
proof -
  have free: "usedPorts pm p = None" if "p \<in> freePorts pm" for p
    using assms(1) that by (auto simp: port_inv_def)
  have "usedPorts pm k = None" if "random_port avail 0 order = Some k" for k
    using random_port_in [OF that] assms(2) free by (auto simp: probe_ok_def)
  moreover have "usedPorts pm k = None" if "avail i k" for i k
    using assms(2) that unfolding probe_ok_def by blast
  ultimately show ?thesis
    using free by (auto simp: Acquire_def acquire_random_def take_port_used split: option.splits if_splits)
qed

lemma tcp_ctl_invD:
  assumes "tcp_ctl_inv P c"
  shows "port_inv P (tc_ports c)"
    and "tc_groups c n = Some gid \<Longrightarrow> tc_groups c m = Some gid \<Longrightarrow> n = m"
    and "tc_groups c n = Some gid \<Longrightarrow> gid < tc_next c \<and> \<not> tg_acceptCh_closed (tc_store c gid) \<and>
        distinct (tg_lns (tc_store c gid)) \<and> (\<forall>l \<in> set (tg_lns (tc_store c gid)). l < tc_ln_next c)"
    and "listening c n gid \<Longrightarrow> tg_group (tc_store c gid) = n \<and>
        usedPorts (tc_ports c) (tg_realPort (tc_store c gid)) \<noteq> None"
    and "listening c n gid \<Longrightarrow> listening c m gid' \<Longrightarrow>
        tg_realPort (tc_store c gid) = tg_realPort (tc_store c gid') \<Longrightarrow> gid = gid'"
  using assms unfolding tcp_ctl_inv_def by blast+

lemma tcp_find_or_create_inv:
  assumes "tcp_ctl_inv P c" and "tcp_find_or_create c grp = (gid, c')"
  shows "tcp_ctl_inv P c'" "tc_groups c' grp = Some gid" "tc_ports c' = tc_ports c" "tc_ln_next c' = tc_ln_next c"
proof -
  have "tcp_ctl_inv P c' \<and> tc_groups c' grp = Some gid \<and> tc_ports c' = tc_ports c \<and> tc_ln_next c' = tc_ln_next c"
  proof (cases "tc_groups c grp")
    case (Some g)
    with assms show ?thesis by (simp add: tcp_find_or_create_def)
  next
    case None
    have lt: "n < tc_next c" if "tc_groups c m = Some n" for m n
      using tcp_ctl_invD(3) [OF assms(1) that] by simp
    have c': "gid = tc_next c" "c' = c\<lparr>tc_groups := (tc_groups c)(grp \<mapsto> tc_next c),
        tc_store := (tc_store c)(tc_next c := NewTCPGroup), tc_next := Suc (tc_next c)\<rparr>"
      using None assms(2) by (auto simp: tcp_find_or_create_def Let_def)
    have fresh: "tc_groups c m \<noteq> Some (tc_next c)" for m using lt [of m] by auto
    have lis: "listening c' n i \<longleftrightarrow> listening c n i" for n i
      using fresh None by (auto simp: listening_def c' NewTCPGroup_def)
    have st: "tc_store c' i = tc_store c i" if "listening c n i" for n i
      using that fresh by (auto simp: listening_def c')
    have "tcp_ctl_inv P c'"
      unfolding tcp_ctl_inv_def lis
    proof (intro conjI allI impI)
      fix n i
      assume l: "listening c n i"
      show "tg_group (tc_store c' i) = n" "usedPorts (tc_ports c') (tg_realPort (tc_store c' i)) \<noteq> None"
        using tcp_ctl_invD(4) [OF assms(1) l] st [OF l] by (simp_all add: c')
    next
      fix n m i j
      assume l: "listening c n i \<and> listening c m j \<and> tg_realPort (tc_store c' i) = tg_realPort (tc_store c' j)"
      then show "i = j" using tcp_ctl_invD(5) [OF assms(1), of n i m j] st by auto
    qed (use assms(1) fresh in \<open>auto simp: c' NewTCPGroup_def less_Suc_eq dest: tcp_ctl_invD
        split: if_splits\<close>)
    then show ?thesis by (simp add: c')
  qed
  then show "tcp_ctl_inv P c'" "tc_groups c' grp = Some gid" "tc_ports c' = tc_ports c" "tc_ln_next c' = tc_ln_next c"
    by blast+
qed

lemma tcp_replace_inv:
  assumes inv: "tcp_ctl_inv P c" and gid: "tc_groups c grp = Some gid" and pm: "port_inv P pm"
    and g: "\<not> tg_acceptCh_closed g" "distinct (tg_lns g)" "\<forall>l \<in> set (tg_lns g). l < N" "tc_ln_next c \<le> N"
    and own: "tg_lns g \<noteq> [] \<Longrightarrow> tg_group g = grp \<and> usedPorts pm (tg_realPort g) \<noteq> None \<and>
       (\<forall>n i. listening c n i \<and> i \<noteq> gid \<longrightarrow> tg_realPort (tc_store c i) \<noteq> tg_realPort g)"
    and others: "\<And>n i. listening c n i \<Longrightarrow> i \<noteq> gid \<Longrightarrow> usedPorts pm (tg_realPort (tc_store c i)) \<noteq> None"
  shows "tcp_ctl_inv P (c\<lparr>tc_store := (tc_store c)(gid := g), tc_ports := pm, tc_ln_next := N\<rparr>)"
    (is "tcp_ctl_inv P ?c")
proof -
  have lis: "listening ?c n i \<longleftrightarrow> (if i = gid then n = grp \<and> tg_lns g \<noteq> [] else listening c n i)" for n i
    using gid tcp_ctl_invD(2) [OF inv] by (auto simp: listening_def)
  show ?thesis
    unfolding tcp_ctl_inv_def
  proof (intro conjI allI impI)
    fix n i
    assume "tc_groups ?c n = Some i"
    then have n: "tc_groups c n = Some i" by simp
    note d = tcp_ctl_invD(3) [OF inv n]
    show "i < tc_next ?c" "\<not> tg_acceptCh_closed (tc_store ?c i)" "distinct (tg_lns (tc_store ?c i))"
      "\<forall>l \<in> set (tg_lns (tc_store ?c i)). l < tc_ln_next ?c"
      using d g by (auto intro: less_le_trans)
  next
    fix n i
    assume l: "listening ?c n i"
    show "tg_group (tc_store ?c i) = n" "usedPorts (tc_ports ?c) (tg_realPort (tc_store ?c i)) \<noteq> None"
      using l own others [of n i] tcp_ctl_invD(4) [OF inv, of n i] by (auto simp: lis split: if_splits)
  next
    fix n m i j
    assume "listening ?c n i \<and> listening ?c m j \<and> tg_realPort (tc_store ?c i) = tg_realPort (tc_store ?c j)"
    then show "i = j"
      using own tcp_ctl_invD(5) [OF inv, of n i m j] by (auto simp: lis split: if_splits)
  qed (use pm tcp_ctl_invD(2) [OF inv] in auto)
qed

lemma tcp_group_Listen_inv:
  assumes inv: "tcp_ctl_inv P c" and gid: "tc_groups c grp = Some gid" and ok: "probe_ok (tc_ports c) avail order"
    and l: "tcp_group_Listen avail order now listen_ok (tc_ports c) (tc_store c gid) (tc_ln_next c) p grp key addr port =
      (res, g, pm)"
  shows "tcp_ctl_inv P (c\<lparr>tc_store := (tc_store c)(gid := g), tc_ports := pm, tc_ln_next := Suc (tc_ln_next c)\<rparr>)"
proof (rule tcp_replace_inv [OF inv gid])
  let ?g = "tc_store c gid" and ?pm = "tc_ports c"
  obtain r pm' where acq: "Acquire avail order now ?pm p port = (r, pm')" by fastforce
  note fresh = Acquire_fresh [OF tcp_ctl_invD(1) [OF inv] ok, of now p port, unfolded acq]
  have pminv: "port_inv P pm'"
    using Acquire_inv [OF tcp_ctl_invD(1) [OF inv], of order avail now p port] ok acq by (simp add: probe_ok_def)
  have cases: "(tg_lns ?g = [] \<and> pm = pm' \<and> (g = ?g \<or> (\<exists>rp. r = Inr rp \<and>
        g = ?g\<lparr>tg_group := grp, tg_groupKey := key, tg_addr := addr, tg_port := port, tg_realPort := rp,
               tg_tcpLn := Some port, tg_lns := [tc_ln_next c]\<rparr>))) \<or>
      (tg_lns ?g \<noteq> [] \<and> pm = ?pm \<and> (g = ?g \<or> g = ?g\<lparr>tg_lns := tg_lns ?g @ [tc_ln_next c]\<rparr>))"
    using l acq by (auto simp: tcp_group_Listen_def split: if_splits sum.splits)
  have keep: "usedPorts pm' q \<noteq> None" if "usedPorts ?pm q \<noteq> None" for q
    using fresh that by (cases r; cases "r = Inr q") auto
  note d = tcp_ctl_invD(3) [OF inv gid]
  show "port_inv P pm" using cases pminv tcp_ctl_invD(1) [OF inv] by auto
  show "\<not> tg_acceptCh_closed g" "distinct (tg_lns g)" "\<forall>l \<in> set (tg_lns g). l < Suc (tc_ln_next c)"
    using cases d by (auto intro: less_SucI)
  show "usedPorts pm (tg_realPort (tc_store c i)) \<noteq> None" if "listening c n i" "i \<noteq> gid" for n i
    using cases keep tcp_ctl_invD(4) [OF inv that(1)] by auto
  show "tg_group g = grp \<and> usedPorts pm (tg_realPort g) \<noteq> None \<and>
      (\<forall>n i. listening c n i \<and> i \<noteq> gid \<longrightarrow> tg_realPort (tc_store c i) \<noteq> tg_realPort g)" if ne: "tg_lns g \<noteq> []"
  proof (cases "tg_lns ?g = []")
    case True
    with cases ne obtain rp where rp: "r = Inr rp" "tg_realPort g = rp" "tg_group g = grp" "pm = pm'" by auto
    moreover have "tg_realPort (tc_store c i) \<noteq> rp" if "listening c n i" for n i
      using fresh tcp_ctl_invD(4) [OF inv that] rp(1) by auto
    ultimately show ?thesis using fresh by auto
  next
    case False
    then have lis: "listening c grp gid" using gid by (simp add: listening_def)
    have "tg_realPort g = tg_realPort ?g" "tg_group g = tg_group ?g" "pm = ?pm" using cases False by auto
    with tcp_ctl_invD(4,5) [OF inv] lis show ?thesis by metis
  qed
qed simp

lemma tcp_ctl_Listen_inv [inv_intros]:
  assumes "tcp_ctl_inv P c" and "probe_ok (tc_ports c) avail order"
  shows "tcp_ctl_inv P (snd (tcp_ctl_Listen avail order now listen_ok c p grp key addr port))"
proof -
  obtain gid c' where fc: "tcp_find_or_create c grp = (gid, c')" by fastforce
  note c' = tcp_find_or_create_inv [OF assms(1) fc]
  obtain res g pm where l: "tcp_group_Listen avail order now listen_ok (tc_ports c') (tc_store c' gid) (tc_ln_next c')
      p grp key addr port = (res, g, pm)" by (metis prod_cases3)
  have "tcp_ctl_inv P (c'\<lparr>tc_store := (tc_store c')(gid := g), tc_ports := pm, tc_ln_next := Suc (tc_ln_next c')\<rparr>)"
    using assms(2) by (intro tcp_group_Listen_inv [OF c'(1,2) _ l]) (simp add: c'(3))
  then show ?thesis by (simp add: tcp_ctl_Listen_def fc l Let_def)
qed

lemma Release_used_other: "q \<noteq> p \<Longrightarrow> usedPorts (Release now pm p) q = usedPorts pm q"
  by (simp add: Release_def split: option.splits)

text \<open>A group that leaves the controller may be changed at will.\<close>

lemma tcp_drop_inv:
  assumes inv: "tcp_ctl_inv P c" and gid: "tc_groups c grp = Some gid"
  shows "tcp_ctl_inv P (c\<lparr>tc_store := (tc_store c)(gid := g), tc_groups := (tc_groups c)(grp := None)\<rparr>)"
    (is "tcp_ctl_inv P ?c")
proof -
  have g: "tc_groups ?c n = Some i \<longleftrightarrow> i \<noteq> gid \<and> tc_groups c n = Some i" for n i
    using tcp_ctl_invD(2) [OF inv, of n i grp] gid by auto
  then have l: "listening ?c n i \<longleftrightarrow> i \<noteq> gid \<and> listening c n i" for n i
    unfolding listening_def by auto
  show ?thesis
    unfolding tcp_ctl_inv_def g l
  proof (intro conjI allI impI)
    fix n m i
    assume "(i \<noteq> gid \<and> tc_groups c n = Some i) \<and> i \<noteq> gid \<and> tc_groups c m = Some i"
    then show "n = m" using tcp_ctl_invD(2) [OF inv] by blast
  next
    fix n i
    assume "i \<noteq> gid \<and> tc_groups c n = Some i"
    then show "i < tc_next ?c" "\<not> tg_acceptCh_closed (tc_store ?c i)" "distinct (tg_lns (tc_store ?c i))"
      "\<forall>l \<in> set (tg_lns (tc_store ?c i)). l < tc_ln_next ?c"
      using tcp_ctl_invD(3) [OF inv, of n i] by simp_all
  next
    fix n i
    assume "i \<noteq> gid \<and> listening c n i"
    then show "tg_group (tc_store ?c i) = n" "usedPorts (tc_ports ?c) (tg_realPort (tc_store ?c i)) \<noteq> None"
      using tcp_ctl_invD(4) [OF inv, of n i] by simp_all
  next
    fix n m i j
    assume "(i \<noteq> gid \<and> listening c n i) \<and> (j \<noteq> gid \<and> listening c m j) \<and>
      tg_realPort (tc_store ?c i) = tg_realPort (tc_store ?c j)"
    then show "i = j" using tcp_ctl_invD(5) [OF inv, of n i m j] by auto
  qed (use tcp_ctl_invD(1) [OF inv] in simp)
qed

lemma tcp_CloseListener_inv [inv_intros]:
  assumes inv: "tcp_ctl_inv P c" and gid: "tc_groups c grp = Some gid" and ln: "ln \<in> set (tg_lns (tc_store c gid))"
  shows "tcp_ctl_inv P (tcp_CloseListener now c gid ln)"
proof -
  let ?g = "(tc_store c gid)\<lparr>tg_lns := slice_remove ln (tg_lns (tc_store c gid))\<rparr>"
  have lis: "listening c grp gid" using gid ln by (auto simp: listening_def)
  note own = tcp_ctl_invD(4) [OF inv lis] and d = tcp_ctl_invD(3) [OF inv gid]
  have sub: "set (tg_lns ?g) \<subseteq> set (tg_lns (tc_store c gid))" by (simp add: set_remove1_subset)
  have other: "tg_realPort (tc_store c i) \<noteq> tg_realPort (tc_store c gid)" if "listening c n i" "i \<noteq> gid" for n i
    using tcp_ctl_invD(5) [OF inv that(1) lis] that(2) by auto
  show ?thesis
  proof (cases "tg_lns ?g = []")
    case False
    have "tcp_ctl_inv P (c\<lparr>tc_store := (tc_store c)(gid := ?g), tc_ports := tc_ports c, tc_ln_next := tc_ln_next c\<rparr>)"
    proof (rule tcp_replace_inv [OF inv gid tcp_ctl_invD(1) [OF inv]])
      show "\<forall>l \<in> set (tg_lns ?g). l < tc_ln_next c" using sub d by blast
      show "usedPorts (tc_ports c) (tg_realPort (tc_store c i)) \<noteq> None" if "listening c n i" for n i
        using tcp_ctl_invD(4) [OF inv that] by simp
    qed (use d own other in auto)
    with False show ?thesis by (simp add: tcp_CloseListener_def)
  next
    case True
    let ?pm = "Release now (tc_ports c) (tg_realPort (tc_store c gid))"
    let ?h = "?g\<lparr>tg_tcpLn := None\<rparr>"
    have "tcp_ctl_inv P (c\<lparr>tc_store := (tc_store c)(gid := ?h), tc_ports := ?pm, tc_ln_next := tc_ln_next c\<rparr>)"
    proof (rule tcp_replace_inv [OF inv gid Release_inv [OF tcp_ctl_invD(1) [OF inv]]])
      show "usedPorts ?pm (tg_realPort (tc_store c i)) \<noteq> None" if "listening c n i" "i \<noteq> gid" for n i
        using Release_used_other [OF other [OF that]] tcp_ctl_invD(4) [OF inv that(1)] by simp
    qed (use d True in auto)
    from tcp_drop_inv [OF this, of grp gid "?g\<lparr>tg_acceptCh_closed := True, tg_tcpLn := None\<rparr>"] gid
    have "tcp_ctl_inv P (c\<lparr>tc_ports := ?pm, tc_store := (tc_store c)
        (gid := ?g\<lparr>tg_acceptCh_closed := True, tg_tcpLn := None\<rparr>), tc_groups := (tc_groups c)(grp := None)\<rparr>)"
      (is "tcp_ctl_inv P ?c'") by simp
    moreover have "tcp_CloseListener now c gid ln = ?c'"
      using True own by (intro tcp_group_ctl.equality) (simp_all add: tcp_CloseListener_def)
    ultimately show ?thesis by simp
  qed
qed

lemma tcp_step_inv [inv_intros]:
  assumes "tcp_step c c'" and inv: "tcp_ctl_inv P c"
  shows "tcp_ctl_inv P c'"
  using assms(1)
proof (cases rule: tcp_step.cases)
  case (other pm)
  have lis: "listening (c\<lparr>tc_ports := pm\<rparr>) = listening c" by (simp add: listening_def fun_eq_iff)
  have "port_inv P pm" using port_step_inv [OF other(2)] tcp_ctl_invD(1) [OF inv] by simp
  with inv other show ?thesis unfolding other(1) tcp_ctl_inv_def lis by auto
qed (use inv in \<open>auto intro: tcp_ctl_Listen_inv tcp_CloseListener_inv\<close>)

lemma tcp_reachable_inv: "tcp_reachable allow c \<Longrightarrow> tcp_ctl_inv (allowed allow) c"
proof (induction rule: tcp_reachable.induct)
  case start
  show ?case by (simp add: tcp_ctl_inv_def NewTCPGroupCtl_def NewPortManager_inv listening_def)
qed (rule tcp_step_inv)

section \<open>Properties\<close>


definition demo_tcp :: tcp_group_ctl where
  "demo_tcp = snd (tcp_ctl_Listen (\<lambda>_ _. True) [] 0 True
     (NewTCPGroupCtl (NewPortManager {7000, 7001})) ''p1'' ''web'' ''k'' ''0.0.0.0'' 7000)"

lemma demo_tcp_reachable: "tcp_reachable {7000, 7001} demo_tcp"
  unfolding demo_tcp_def
  by (rule tcp_reachable.step [OF tcp_reachable.start tcp_step.listen])
    (simp add: probe_ok_def NewTCPGroupCtl_def NewPortManager_def)

lemma demo_tcp_group:
  "tc_groups demo_tcp ''web'' = Some 0" "tg_lns (tc_store demo_tcp 0) = [0]"
  "tg_realPort (tc_store demo_tcp 0) = 7000" "tg_port (tc_store demo_tcp 0) = 7000"
  "tg_addr (tc_store demo_tcp 0) = ''0.0.0.0''" "tg_groupKey (tc_store demo_tcp 0) = ''k''"
  by (simp_all add: demo_tcp_def tcp_ctl_Listen_def tcp_find_or_create_def NewTCPGroupCtl_def
      tcp_group_Listen_def NewTCPGroup_def Acquire_def NewPortManager_def Let_def)


text \<open>
  A proxy joins a group that has listeners only if address, port and group key agree, and
  the error tells which differs; it then shares the group's port and no other port is
  acquired. A refused proxy changes neither the groups nor the ports.
\<close>

theorem tcp_group_join:
  assumes "tcp_reachable allow c" and "tc_groups c grp = Some gid" and "tg_lns (tc_store c gid) \<noteq> []"
  shows "let g = tc_store c gid; (res, c') = tcp_ctl_Listen avail order now listen_ok c p grp key addr port in
    res = (if addr \<noteq> tg_addr g then Inl (ErrGroup ErrGroupParamsInvalid)
           else if port \<noteq> tg_port g then Inl (ErrGroup ErrGroupDifferentPort)
           else if key \<noteq> tg_groupKey g then Inl (ErrGroup ErrGroupAuthFailed)
           else Inr ((gid, tc_ln_next c), tg_realPort g)) \<and>
    tc_ports c' = tc_ports c \<and> tc_groups c' = tc_groups c \<and>
    tg_lns (tc_store c' gid) = (if isl res then tg_lns g else tg_lns g @ [tc_ln_next c])"
proof -
  have "listening c grp gid" using assms(2,3) by (simp add: listening_def)
  then have "tg_group (tc_store c gid) = grp" using tcp_ctl_invD(4) [OF tcp_reachable_inv [OF assms(1)]] by blast
  then show ?thesis
    using assms(2,3) by (auto simp: tcp_ctl_Listen_def tcp_find_or_create_def tcp_group_Listen_def Let_def)
qed

theorem tcp_group_join_witness:
  "fst (tcp_ctl_Listen (\<lambda>_ _. False) [] 0 True demo_tcp ''p2'' ''web'' ''bad'' ''0.0.0.0'' 7000) =
     Inl (ErrGroup ErrGroupAuthFailed)"
  using tcp_group_join [OF demo_tcp_reachable demo_tcp_group(1), of "\<lambda>_ _. False" "[]" 0 True "''p2''" "''bad''" "''0.0.0.0''" 7000]
  by (simp add: demo_tcp_group Let_def case_prod_unfold)

text \<open>
  When \<open>net.Listen\<close> fails for the first member, the acquired port is never given back:
  the group has no listener, yet the port is in use, and the next attempt of any proxy to
  get this port fails.
\<close>

theorem tcp_group_leaks_port:
  assumes "tcp_reachable allow c" and "tc_groups c grp = None" and "port \<noteq> 0"
    and "port \<in> freePorts (tc_ports c)" and "avail 0 port"
  shows "let (res, c') = tcp_ctl_Listen avail order now False c p grp key addr port in
    res = Inl ErrListen \<and> usedPorts (tc_ports c') port \<noteq> None \<and>
    (\<forall>gid. tc_groups c' grp = Some gid \<longrightarrow> tg_lns (tc_store c' gid) = []) \<and>
    fst (Acquire avail' order' now' (tc_ports c') p' port) = Inl ErrPortAlreadyUsed"
  using assms(2-5)
  by (auto simp: tcp_ctl_Listen_def tcp_find_or_create_def tcp_group_Listen_def NewTCPGroup_def
      Acquire_def take_port_def Let_def)

theorem tcp_group_leaks_port_witness:
  "fst (tcp_ctl_Listen (\<lambda>_ _. True) [] 0 False (NewTCPGroupCtl (NewPortManager {7000}))
      ''p'' ''web'' ''k'' ''0.0.0.0'' 7000) = Inl ErrListen"
  using tcp_group_leaks_port [OF tcp_reachable.start, of "{7000}" "''web''" 7000 "\<lambda>_ _. True" "[]" 0 "''p''" "''k''" "''0.0.0.0''"]
  by (simp add: NewTCPGroupCtl_def NewPortManager_def Let_def case_prod_unfold)

end
