(* ===== verification/Frp_Auth.thy ===== *)
theory Frp_Auth
  imports Frp_Util
begin

text \<open>
  Authentication by token (\<open>pkg/auth/token.go\<close>, with \<open>GetAuthKey\<close> and
  \<open>ConstantTimeEqString\<close> of \<open>pkg/util/util/util.go\<close>) and the admission of visitors to secret
  proxies (\<open>server/visitor/visitor.go\<close>). The digest function \<open>md5\<close> is an argument: it maps
  the bytes of a message to its 16 bytes.
\<close>

section \<open>Keys\<close>

type_synonym digest = "string \<Rightarrow> nat list"

definition GetAuthKey :: "digest \<Rightarrow> string \<Rightarrow> int \<Rightarrow> string" where
  "GetAuthKey md5 token timestamp = hex_encode (md5 (token @ show_int timestamp))"

text \<open>\<open>subtle.ConstantTimeCompare\<close>: unequal lengths, else the disjunction of all differences.\<close>

definition ConstantTimeEqString :: "string \<Rightarrow> string \<Rightarrow> bool" where
  "ConstantTimeEqString a b \<longleftrightarrow>
     length a = length b \<and>
     fold (\<lambda>(x, y) v. or v (xor (of_char x) (of_char y))) (zip a b) (0 :: nat) = 0"

section \<open>Token authentication\<close>

record auth_cfg =
  ac_token :: string
  ac_AuthenticateHeartBeats :: bool
  ac_AuthenticateNewWorkConns :: bool

text \<open>The fields of the messages \<open>Login\<close>, \<open>Ping\<close> and \<open>NewWorkConn\<close> that matter here.\<close>

record auth_msg =
  am_Timestamp :: int
  am_PrivilegeKey :: string

datatype auth_error = LoginMismatch | HeartbeatMismatch | NewWorkConnMismatch

definition SetLogin :: "digest \<Rightarrow> auth_cfg \<Rightarrow> auth_msg \<Rightarrow> auth_msg" where
  "SetLogin md5 a m = m\<lparr>am_PrivilegeKey := GetAuthKey md5 (ac_token a) (am_Timestamp m)\<rparr>"

definition SetPing :: "digest \<Rightarrow> auth_cfg \<Rightarrow> int \<Rightarrow> auth_msg \<Rightarrow> auth_msg" where
  "SetPing md5 a now m =
     (if \<not> ac_AuthenticateHeartBeats a then m
      else m\<lparr>am_Timestamp := now, am_PrivilegeKey := GetAuthKey md5 (ac_token a) now\<rparr>)"

definition SetNewWorkConn :: "digest \<Rightarrow> auth_cfg \<Rightarrow> int \<Rightarrow> auth_msg \<Rightarrow> auth_msg" where
  "SetNewWorkConn md5 a now m =
     (if \<not> ac_AuthenticateNewWorkConns a then m
      else m\<lparr>am_Timestamp := now, am_PrivilegeKey := GetAuthKey md5 (ac_token a) now\<rparr>)"

definition VerifyLogin :: "digest \<Rightarrow> auth_cfg \<Rightarrow> auth_msg \<Rightarrow> auth_error option" where
  "VerifyLogin md5 a m =
     (if \<not> ConstantTimeEqString (GetAuthKey md5 (ac_token a) (am_Timestamp m)) (am_PrivilegeKey m)
      then Some LoginMismatch else None)"

definition VerifyPing :: "digest \<Rightarrow> auth_cfg \<Rightarrow> auth_msg \<Rightarrow> auth_error option" where
  "VerifyPing md5 a m =
     (if \<not> ac_AuthenticateHeartBeats a then None
      else if \<not> ConstantTimeEqString (GetAuthKey md5 (ac_token a) (am_Timestamp m)) (am_PrivilegeKey m)
      then Some HeartbeatMismatch else None)"

definition VerifyNewWorkConn :: "digest \<Rightarrow> auth_cfg \<Rightarrow> auth_msg \<Rightarrow> auth_error option" where
  "VerifyNewWorkConn md5 a m =
     (if \<not> ac_AuthenticateNewWorkConns a then None
      else if \<not> ConstantTimeEqString (GetAuthKey md5 (ac_token a) (am_Timestamp m)) (am_PrivilegeKey m)
      then Some NewWorkConnMismatch else None)"

section \<open>Visitors\<close>

record listener_bundle =
  lb_listener :: nat
  lb_sk :: string
  lb_allowUsers :: "string list"

type_synonym visitor_manager = "string \<rightharpoonup> listener_bundle"

datatype visitor_error =
    ListenerRepeated string
  | VisitorAuthFailed string
  | VisitorNotAllowed string string
  | EncryptionFailed
  | ListenerMissing string
  | PutConnFailed

definition visitor_Listen ::
    "visitor_manager \<Rightarrow> nat \<Rightarrow> string \<Rightarrow> string \<Rightarrow> string list \<Rightarrow> (visitor_error + nat) \<times> visitor_manager" where
  "visitor_Listen vm l name sk allowUsers =
     (case vm name of
        Some _ \<Rightarrow> (Inl (ListenerRepeated name), vm)
      | None \<Rightarrow> (Inr l, vm(name \<mapsto> \<lparr>lb_listener = l, lb_sk = sk, lb_allowUsers = allowUsers\<rparr>)))"

text \<open>
  \<open>NewConn\<close>: the listener that the connection is handed to. \<open>enc_ok\<close> says whether the
  encrypted stream can be set up, \<open>put_ok\<close> whether the listener takes the connection.
\<close>

definition visitor_NewConn ::
    "digest \<Rightarrow> bool \<Rightarrow> bool \<Rightarrow> visitor_manager \<Rightarrow> string \<Rightarrow> int \<Rightarrow> string \<Rightarrow> bool \<Rightarrow> string \<Rightarrow> visitor_error + nat" where
  "visitor_NewConn md5 enc_ok put_ok vm name timestamp signKey useEncryption visitorUser =
     (case vm name of
        None \<Rightarrow> Inl (ListenerMissing name)
      | Some l \<Rightarrow>
          if GetAuthKey md5 (lb_sk l) timestamp \<noteq> signKey then Inl (VisitorAuthFailed name)
          else if visitorUser \<notin> set (lb_allowUsers l) \<and> ''*'' \<notin> set (lb_allowUsers l)
          then Inl (VisitorNotAllowed name visitorUser)
          else if useEncryption \<and> \<not> enc_ok then Inl EncryptionFailed
          else if \<not> put_ok then Inl PutConnFailed
          else Inr (lb_listener l))"

definition visitor_CloseListener :: "visitor_manager \<Rightarrow> string \<Rightarrow> visitor_manager" where
  "visitor_CloseListener vm name = vm(name := None)"

text \<open>The users of a secret proxy (\<open>STCPProxy.Run\<close>): by default the proxy's own user.\<close>

definition allow_users_of :: "string list \<Rightarrow> string \<Rightarrow> string list" where
  "allow_users_of allowUsers user = (if allowUsers = [] then [user] else allowUsers)"

section \<open>Lemmas\<close>

lemma xor_zero_iff: "xor a b = 0 \<longleftrightarrow> a = (b :: nat)"
proof
  assume "xor a b = 0"
  then have "bit (xor a b) n = bit (0 :: nat) n" for n by simp
  then have "bit a n = bit b n" for n by (auto simp: bit_xor_iff)
  then show "a = b" by (simp add: bit_eq_iff)
qed simp

lemma fold_or_zero:
  "fold (\<lambda>(x, y) v. or v (xor (of_char x) (of_char y))) ps (n :: nat) = 0 \<longleftrightarrow>
     n = 0 \<and> (\<forall>(x, y) \<in> set ps. x = y)"
proof (induction ps arbitrary: n)
  case (Cons p ps)
  obtain x y where p: "p = (x, y)" by (cases p)
  have xz: "xor (of_char x) (of_char y) = (0 :: nat) \<longleftrightarrow> x = y"
    by (simp add: xor_zero_iff)
  have oz: "or n m = 0 \<longleftrightarrow> n = 0 \<and> m = 0" for n m :: nat by (rule or_eq_0_iff)
  show ?case using Cons by (simp add: p xz oz)
qed simp

lemma ConstantTimeEqString_iff [simp]: "ConstantTimeEqString a b \<longleftrightarrow> a = b"
proof
  assume "ConstantTimeEqString a b"
  then have "length a = length b" "\<forall>(x, y) \<in> set (zip a b). x = y"
    by (auto simp: ConstantTimeEqString_def fold_or_zero)
  then show "a = b" by (auto simp: list_eq_iff_zip_eq)
qed (auto simp: ConstantTimeEqString_def fold_or_zero in_set_zip)

lemma hex_digit_inj: "a < 16 \<Longrightarrow> b < 16 \<Longrightarrow> hex_digit a = hex_digit b \<Longrightarrow> a = b"
proof -
  assume ab: "a < 16" "b < 16" "hex_digit a = hex_digit b"
  have "distinct (map hex_digit [0..<16])" unfolding hex_digits by simp
  then have "inj_on hex_digit {0..<16}" by (simp add: distinct_map)
  with ab show "a = b" by (auto simp: inj_on_def)
qed

lemma hex_encode_inj:
  "\<forall>x \<in> set xs. x < 256 \<Longrightarrow> \<forall>y \<in> set ys. y < 256 \<Longrightarrow> hex_encode xs = hex_encode ys \<Longrightarrow> xs = ys"
proof (induction xs arbitrary: ys)
  case Nil
  then show ?case by (cases ys) auto
next
  case (Cons x xs)
  then obtain y ys' where ys: "ys = y # ys'" by (cases ys) auto
  have b: "x < 256" "y < 256" using Cons.prems ys by auto
  have "hex_digit (x div 16) = hex_digit (y div 16)" "hex_digit (x mod 16) = hex_digit (y mod 16)"
    using Cons.prems(3) ys by simp_all
  moreover have "x div 16 < 16" "y div 16 < 16" "x mod 16 < 16" "y mod 16 < 16" using b by simp_all
  ultimately have "x div 16 = y div 16" "x mod 16 = y mod 16" using hex_digit_inj by blast+
  then have "x div 16 * 16 + x mod 16 = y div 16 * 16 + y mod 16" by (simp only:)
  then have "x = y" by (simp only: div_mult_mod_eq)
  moreover have "hex_encode xs = hex_encode ys'"
    using Cons.prems(3) unfolding ys by (simp only: hex_encode.simps list.inject)
  then have "xs = ys'" using Cons.prems(1,2) unfolding ys by (intro Cons.IH) simp_all
  ultimately show ?case by (simp only: ys)
qed

section \<open>Properties\<close>



text \<open>
  A visitor is admitted to a secret proxy exactly if the proxy listens, the key is made
  from the proxy's secret and the given timestamp, and the visitor's user is among the
  allowed users or everybody is; without a list of allowed users only the proxy's own user
  is admitted. A closed proxy admits nobody.
\<close>

theorem visitor_admission:
  assumes "vm name = None"
  shows "let vm' = snd (visitor_Listen vm l name sk (allow_users_of users owner)) in
    (visitor_NewConn md5 True True vm' name t key enc user = Inr l' \<longleftrightarrow>
       l' = l \<and> key = GetAuthKey md5 sk t \<and>
       (if users = [] then user = owner \<or> owner = ''*'' else user \<in> set users \<or> ''*'' \<in> set users)) \<and>
    visitor_NewConn md5 e p (visitor_CloseListener vm' name) name t key enc user = Inl (ListenerMissing name) \<and>
    (\<forall>name'. name' \<noteq> name \<longrightarrow> vm' name' = vm name')"
  using assms
  by (auto simp: Let_def visitor_Listen_def visitor_NewConn_def visitor_CloseListener_def allow_users_of_def)

theorem visitor_admission_witness:
  "visitor_NewConn (map of_char) True True (snd (visitor_Listen Map.empty 3 ''ssh'' ''k'' (allow_users_of [] ''bob'')))
     ''ssh'' 7 (GetAuthKey (map of_char) ''k'' 7) False ''bob'' = Inr 3"
  using visitor_admission [of Map.empty "''ssh''" 3 "''k''" "[]" "''bob''" "map of_char" 7
      "GetAuthKey (map of_char) ''k'' 7" False "''bob''" 3 True True] by (simp add: Let_def)

end
