(* ===== verification/Frp_Config.thy ===== *)
theory Frp_Config
  imports Frp_Util
begin

text \<open>
  The configuration of a proxy (\<open>pkg/config/proxy.go\<close>, \<open>pkg/config/types.go\<close>,
  \<open>pkg/config/utils.go\<close>) and the message \<open>NewProxy\<close> that carries it from the client to the
  server (\<open>pkg/msg/msg.go\<close>): defaults, decoration, the translations to and from the
  message, and the validation on both sides. A Go map of strings is an association list.
  \<open>pf\<close> is \<open>strconv.ParseFloat\<close> followed by the product with the unit and the conversion to
  \<open>int64\<close>; the ini library's \<open>MapTo\<close> is an argument too.
\<close>

section \<open>Bandwidth\<close>

record bandwidth_quantity =
  bq_s :: string
  bq_i :: int

definition KB :: int where "KB = 1024"

definition MB :: int where "MB = 1024 * 1024"

datatype bandwidth_error = UnitNotSupported | NotAFloat

type_synonym parse_float = "string \<Rightarrow> int \<Rightarrow> int option"

definition has_suffix :: "string \<Rightarrow> string \<Rightarrow> bool" where
  "has_suffix s suf = has_prefix (rev s) (rev suf)"

definition UnmarshalString ::
    "parse_float \<Rightarrow> bandwidth_quantity \<Rightarrow> string \<Rightarrow> bandwidth_quantity \<times> bandwidth_error option" where
  "UnmarshalString pf q s0 =
     (let s = trim_space s0;
          read = (\<lambda>suf base. case pf (trim_suffix s suf) base of
                    None \<Rightarrow> (q, Some NotAFloat)
                  | Some i \<Rightarrow> (\<lparr>bq_s = s, bq_i = i\<rparr>, None))
      in if s = '''' then (q, None)
         else if has_suffix s ''MB'' then read ''MB'' MB
         else if has_suffix s ''KB'' then read ''KB'' KB
         else (q, Some UnitNotSupported))"

definition zero_quantity :: bandwidth_quantity where
  "zero_quantity = \<lparr>bq_s = '''', bq_i = 0\<rparr>"

definition NewBandwidthQuantity ::
    "parse_float \<Rightarrow> string \<Rightarrow> bandwidth_quantity \<times> bandwidth_error option" where
  "NewBandwidthQuantity pf s = UnmarshalString pf zero_quantity s"

section \<open>Data\<close>

type_synonym str_map = "(string \<times> string) list"

record local_svr_conf =
  ls_LocalIP :: string
  ls_LocalPort :: int
  ls_Plugin :: string
  ls_PluginParams :: str_map

record health_check_conf =
  hk_Type :: string
  hk_TimeoutS :: int
  hk_MaxFailed :: int
  hk_IntervalS :: int
  hk_URL :: string
  hk_Addr :: string

record base_proxy_conf =
  bc_ProxyName :: string
  bc_ProxyType :: string
  bc_UseEncryption :: bool
  bc_UseCompression :: bool
  bc_Group :: string
  bc_GroupKey :: string
  bc_ProxyProtocolVersion :: string
  bc_BandwidthLimit :: bandwidth_quantity
  bc_BandwidthLimitMode :: string
  bc_Metas :: str_map
  bc_LocalSvrConf :: local_svr_conf
  bc_HealthCheckConf :: health_check_conf

record domain_conf =
  dm_CustomDomains :: "string list"
  dm_SubDomain :: string

record role_server_conf =
  rs_Role :: string
  rs_Sk :: string
  rs_AllowUsers :: "string list"

record http_fields =
  hf_Locations :: "string list"
  hf_HTTPUser :: string
  hf_HTTPPwd :: string
  hf_HostHeaderRewrite :: string
  hf_Headers :: str_map
  hf_RouteByHTTPUser :: string

record tcpmux_fields =
  mf_HTTPUser :: string
  mf_HTTPPwd :: string
  mf_RouteByHTTPUser :: string
  mf_Multiplexer :: string

datatype proxy_conf =
    TCPProxyConf base_proxy_conf int
  | TCPMuxProxyConf base_proxy_conf domain_conf tcpmux_fields
  | UDPProxyConf base_proxy_conf int
  | HTTPProxyConf base_proxy_conf domain_conf http_fields
  | HTTPSProxyConf base_proxy_conf domain_conf
  | STCPProxyConf base_proxy_conf role_server_conf
  | XTCPProxyConf base_proxy_conf role_server_conf
  | SUDPProxyConf base_proxy_conf role_server_conf

record new_proxy_msg =
  np_ProxyName :: string
  np_ProxyType :: string
  np_UseEncryption :: bool
  np_UseCompression :: bool
  np_BandwidthLimit :: string
  np_BandwidthLimitMode :: string
  np_Group :: string
  np_GroupKey :: string
  np_Metas :: str_map
  np_RemotePort :: int
  np_CustomDomains :: "string list"
  np_SubDomain :: string
  np_Locations :: "string list"
  np_HTTPUser :: string
  np_HTTPPwd :: string
  np_HostHeaderRewrite :: string
  np_Headers :: str_map
  np_RouteByHTTPUser :: string
  np_Sk :: string
  np_AllowUsers :: "string list"
  np_Multiplexer :: string

text \<open>The settings of the server (\<open>ServerCommonConf\<close>) that the modelled code reads.\<close>

record server_conf =
  sc_ProxyBindAddr :: string
  sc_VhostHTTPPort :: int
  sc_VhostHTTPSPort :: int
  sc_TCPMuxHTTPConnectPort :: int
  sc_SubDomainHost :: string
  sc_MaxPortsPerClient :: int
  sc_MaxPoolCount :: int
  sc_TCPMux :: bool
  sc_HeartbeatTimeout :: int
  sc_EnableApi :: bool
  sc_DetailedErrorsToClient :: bool

section \<open>Zero values and defaults\<close>

definition zero_base :: base_proxy_conf where
  "zero_base = \<lparr>bc_ProxyName = '''', bc_ProxyType = '''', bc_UseEncryption = False, bc_UseCompression = False,
     bc_Group = '''', bc_GroupKey = '''', bc_ProxyProtocolVersion = '''', bc_BandwidthLimit = zero_quantity,
     bc_BandwidthLimitMode = '''', bc_Metas = [],
     bc_LocalSvrConf = \<lparr>ls_LocalIP = '''', ls_LocalPort = 0, ls_Plugin = '''', ls_PluginParams = []\<rparr>,
     bc_HealthCheckConf = \<lparr>hk_Type = '''', hk_TimeoutS = 0, hk_MaxFailed = 0, hk_IntervalS = 0, hk_URL = '''', hk_Addr = ''''\<rparr>\<rparr>"

definition zero_domain :: domain_conf where
  "zero_domain = \<lparr>dm_CustomDomains = [], dm_SubDomain = ''''\<rparr>"

definition zero_role :: role_server_conf where
  "zero_role = \<lparr>rs_Role = '''', rs_Sk = '''', rs_AllowUsers = []\<rparr>"

definition zero_http :: http_fields where
  "zero_http = \<lparr>hf_Locations = [], hf_HTTPUser = '''', hf_HTTPPwd = '''', hf_HostHeaderRewrite = '''',
     hf_Headers = [], hf_RouteByHTTPUser = ''''\<rparr>"

definition zero_tcpmux :: tcpmux_fields where
  "zero_tcpmux = \<lparr>mf_HTTPUser = '''', mf_HTTPPwd = '''', mf_RouteByHTTPUser = '''', mf_Multiplexer = ''''\<rparr>"

definition zero_msg :: new_proxy_msg where
  "zero_msg = \<lparr>np_ProxyName = '''', np_ProxyType = '''', np_UseEncryption = False, np_UseCompression = False,
     np_BandwidthLimit = '''', np_BandwidthLimitMode = '''', np_Group = '''', np_GroupKey = '''', np_Metas = [],
     np_RemotePort = 0, np_CustomDomains = [], np_SubDomain = '''', np_Locations = [], np_HTTPUser = '''',
     np_HTTPPwd = '''', np_HostHeaderRewrite = '''', np_Headers = [], np_RouteByHTTPUser = '''', np_Sk = '''',
     np_AllowUsers = [], np_Multiplexer = ''''\<rparr>"

definition NewConfByType :: "string \<Rightarrow> proxy_conf option" where
  "NewConfByType proxyType =
     map_of [(''tcp'', TCPProxyConf zero_base 0), (''tcpmux'', TCPMuxProxyConf zero_base zero_domain zero_tcpmux),
       (''udp'', UDPProxyConf zero_base 0), (''http'', HTTPProxyConf zero_base zero_domain zero_http),
       (''https'', HTTPSProxyConf zero_base zero_domain), (''stcp'', STCPProxyConf zero_base zero_role),
       (''xtcp'', XTCPProxyConf zero_base zero_role), (''sudp'', SUDPProxyConf zero_base zero_role)] proxyType"

fun GetBaseConfig :: "proxy_conf \<Rightarrow> base_proxy_conf" where
  "GetBaseConfig (TCPProxyConf b _) = b"
| "GetBaseConfig (TCPMuxProxyConf b _ _) = b"
| "GetBaseConfig (UDPProxyConf b _) = b"
| "GetBaseConfig (HTTPProxyConf b _ _) = b"
| "GetBaseConfig (HTTPSProxyConf b _) = b"
| "GetBaseConfig (STCPProxyConf b _) = b"
| "GetBaseConfig (XTCPProxyConf b _) = b"
| "GetBaseConfig (SUDPProxyConf b _) = b"

fun upd_base :: "(base_proxy_conf \<Rightarrow> base_proxy_conf) \<Rightarrow> proxy_conf \<Rightarrow> proxy_conf" where
  "upd_base f (TCPProxyConf b p) = TCPProxyConf (f b) p"
| "upd_base f (TCPMuxProxyConf b d m) = TCPMuxProxyConf (f b) d m"
| "upd_base f (UDPProxyConf b p) = UDPProxyConf (f b) p"
| "upd_base f (HTTPProxyConf b d h) = HTTPProxyConf (f b) d h"
| "upd_base f (HTTPSProxyConf b d) = HTTPSProxyConf (f b) d"
| "upd_base f (STCPProxyConf b r) = STCPProxyConf (f b) r"
| "upd_base f (XTCPProxyConf b r) = XTCPProxyConf (f b) r"
| "upd_base f (SUDPProxyConf b r) = SUDPProxyConf (f b) r"

definition base_SetDefaultValues :: "base_proxy_conf \<Rightarrow> base_proxy_conf" where
  "base_SetDefaultValues b =
     b\<lparr>bc_LocalSvrConf := \<lparr>ls_LocalIP = ''127.0.0.1'', ls_LocalPort = 0, ls_Plugin = '''', ls_PluginParams = []\<rparr>,
       bc_BandwidthLimitMode := ''client''\<rparr>"

definition role_setDefaultValues :: "role_server_conf \<Rightarrow> role_server_conf" where
  "role_setDefaultValues r = r\<lparr>rs_Role := ''server''\<rparr>"

text \<open>The secret proxy types override \<open>SetDefaultValues\<close>, the others inherit it.\<close>

fun SetDefaultValues :: "proxy_conf \<Rightarrow> proxy_conf" where
  "SetDefaultValues (STCPProxyConf b r) = STCPProxyConf (base_SetDefaultValues b) (role_setDefaultValues r)"
| "SetDefaultValues (XTCPProxyConf b r) = XTCPProxyConf (base_SetDefaultValues b) (role_setDefaultValues r)"
| "SetDefaultValues (SUDPProxyConf b r) = SUDPProxyConf (base_SetDefaultValues b) (role_setDefaultValues r)"
| "SetDefaultValues c = upd_base base_SetDefaultValues c"

definition DefaultProxyConf :: "string \<Rightarrow> proxy_conf option" where
  "DefaultProxyConf proxyType = map_option SetDefaultValues (NewConfByType proxyType)"

section \<open>Translation to and from the message\<close>

definition base_marshalToMsg :: "base_proxy_conf \<Rightarrow> new_proxy_msg \<Rightarrow> new_proxy_msg" where
  "base_marshalToMsg b m =
     (let m = m\<lparr>np_ProxyName := bc_ProxyName b, np_ProxyType := bc_ProxyType b,
                np_UseEncryption := bc_UseEncryption b, np_UseCompression := bc_UseCompression b,
                np_BandwidthLimit := bq_s (bc_BandwidthLimit b)\<rparr>;
          m = (if bc_BandwidthLimitMode b \<noteq> ''client''
               then m\<lparr>np_BandwidthLimitMode := bc_BandwidthLimitMode b\<rparr> else m)
      in m\<lparr>np_Group := bc_Group b, np_GroupKey := bc_GroupKey b, np_Metas := bc_Metas b\<rparr>)"

definition base_unmarshalFromMsg :: "parse_float \<Rightarrow> new_proxy_msg \<Rightarrow> base_proxy_conf \<Rightarrow> base_proxy_conf" where
  "base_unmarshalFromMsg pf m b =
     (let b = b\<lparr>bc_ProxyName := np_ProxyName m, bc_ProxyType := np_ProxyType m,
                bc_UseEncryption := np_UseEncryption m, bc_UseCompression := np_UseCompression m\<rparr>;
          b = (if np_BandwidthLimit m \<noteq> ''''
               then b\<lparr>bc_BandwidthLimit := fst (NewBandwidthQuantity pf (np_BandwidthLimit m))\<rparr> else b);
          b = (if np_BandwidthLimitMode m \<noteq> ''''
               then b\<lparr>bc_BandwidthLimitMode := np_BandwidthLimitMode m\<rparr> else b)
      in b\<lparr>bc_Group := np_Group m, bc_GroupKey := np_GroupKey m, bc_Metas := np_Metas m\<rparr>)"

definition role_marshalToMsg :: "role_server_conf \<Rightarrow> new_proxy_msg \<Rightarrow> new_proxy_msg" where
  "role_marshalToMsg r m = m\<lparr>np_Sk := rs_Sk r, np_AllowUsers := rs_AllowUsers r\<rparr>"

definition role_unmarshalFromMsg :: "new_proxy_msg \<Rightarrow> role_server_conf \<Rightarrow> role_server_conf" where
  "role_unmarshalFromMsg m r = r\<lparr>rs_Sk := np_Sk m, rs_AllowUsers := np_AllowUsers m\<rparr>"

fun MarshalToMsg :: "proxy_conf \<Rightarrow> new_proxy_msg \<Rightarrow> new_proxy_msg" where
  "MarshalToMsg (TCPProxyConf b port) m = (base_marshalToMsg b m)\<lparr>np_RemotePort := port\<rparr>"
| "MarshalToMsg (TCPMuxProxyConf b d f) m =
     (base_marshalToMsg b m)\<lparr>np_CustomDomains := dm_CustomDomains d, np_SubDomain := dm_SubDomain d,
        np_Multiplexer := mf_Multiplexer f, np_HTTPUser := mf_HTTPUser f, np_HTTPPwd := mf_HTTPPwd f,
        np_RouteByHTTPUser := mf_RouteByHTTPUser f\<rparr>"
| "MarshalToMsg (UDPProxyConf b port) m = (base_marshalToMsg b m)\<lparr>np_RemotePort := port\<rparr>"
| "MarshalToMsg (HTTPProxyConf b d f) m =
     (base_marshalToMsg b m)\<lparr>np_CustomDomains := dm_CustomDomains d, np_SubDomain := dm_SubDomain d,
        np_Locations := hf_Locations f, np_HostHeaderRewrite := hf_HostHeaderRewrite f,
        np_HTTPUser := hf_HTTPUser f, np_HTTPPwd := hf_HTTPPwd f, np_Headers := hf_Headers f,
        np_RouteByHTTPUser := hf_RouteByHTTPUser f\<rparr>"
| "MarshalToMsg (HTTPSProxyConf b d) m =
     (base_marshalToMsg b m)\<lparr>np_CustomDomains := dm_CustomDomains d, np_SubDomain := dm_SubDomain d\<rparr>"
| "MarshalToMsg (STCPProxyConf b r) m = role_marshalToMsg r (base_marshalToMsg b m)"
| "MarshalToMsg (XTCPProxyConf b r) m = role_marshalToMsg r (base_marshalToMsg b m)"
| "MarshalToMsg (SUDPProxyConf b r) m = role_marshalToMsg r (base_marshalToMsg b m)"

fun UnmarshalFromMsg :: "parse_float \<Rightarrow> new_proxy_msg \<Rightarrow> proxy_conf \<Rightarrow> proxy_conf" where
  "UnmarshalFromMsg pf m (TCPProxyConf b port) = TCPProxyConf (base_unmarshalFromMsg pf m b) (np_RemotePort m)"
| "UnmarshalFromMsg pf m (TCPMuxProxyConf b d f) =
     TCPMuxProxyConf (base_unmarshalFromMsg pf m b)
       (d\<lparr>dm_CustomDomains := np_CustomDomains m, dm_SubDomain := np_SubDomain m\<rparr>)
       (f\<lparr>mf_Multiplexer := np_Multiplexer m, mf_HTTPUser := np_HTTPUser m, mf_HTTPPwd := np_HTTPPwd m,
          mf_RouteByHTTPUser := np_RouteByHTTPUser m\<rparr>)"
| "UnmarshalFromMsg pf m (UDPProxyConf b port) = UDPProxyConf (base_unmarshalFromMsg pf m b) (np_RemotePort m)"
| "UnmarshalFromMsg pf m (HTTPProxyConf b d f) =
     HTTPProxyConf (base_unmarshalFromMsg pf m b)
       (d\<lparr>dm_CustomDomains := np_CustomDomains m, dm_SubDomain := np_SubDomain m\<rparr>)
       (f\<lparr>hf_Locations := np_Locations m, hf_HostHeaderRewrite := np_HostHeaderRewrite m,
          hf_HTTPUser := np_HTTPUser m, hf_HTTPPwd := np_HTTPPwd m, hf_Headers := np_Headers m,
          hf_RouteByHTTPUser := np_RouteByHTTPUser m\<rparr>)"
| "UnmarshalFromMsg pf m (HTTPSProxyConf b d) =
     HTTPSProxyConf (base_unmarshalFromMsg pf m b)
       (d\<lparr>dm_CustomDomains := np_CustomDomains m, dm_SubDomain := np_SubDomain m\<rparr>)"
| "UnmarshalFromMsg pf m (STCPProxyConf b r) = STCPProxyConf (base_unmarshalFromMsg pf m b) (role_unmarshalFromMsg m r)"
| "UnmarshalFromMsg pf m (XTCPProxyConf b r) = XTCPProxyConf (base_unmarshalFromMsg pf m b) (role_unmarshalFromMsg m r)"
| "UnmarshalFromMsg pf m (SUDPProxyConf b r) = SUDPProxyConf (base_unmarshalFromMsg pf m b) (role_unmarshalFromMsg m r)"

section \<open>Reading an ini section\<close>

fun map_put :: "string \<Rightarrow> string \<Rightarrow> str_map \<Rightarrow> str_map" where
  "map_put k v [] = [(k, v)]"
| "map_put k v ((k', v') # m) = (if k = k' then (k, v) # m else (k', v') # map_put k v m)"

definition GetMapWithoutPrefix :: "str_map \<Rightarrow> string \<Rightarrow> str_map" where
  "GetMapWithoutPrefix kvs pre =
     fold (\<lambda>(key, value) m. if has_prefix key pre then map_put (drop (length pre) key) value m else m) kvs []"

definition GetMapByPrefix :: "str_map \<Rightarrow> string \<Rightarrow> str_map" where
  "GetMapByPrefix kvs pre =
     fold (\<lambda>(key, value) m. if has_prefix key pre then map_put key value m else m) kvs []"

text \<open>\<open>keys\<close> is the hash of the section's keys.\<close>

definition decorate ::
    "parse_float \<Rightarrow> string \<Rightarrow> string \<Rightarrow> str_map \<Rightarrow> base_proxy_conf \<Rightarrow> base_proxy_conf \<times> bandwidth_error option" where
  "decorate pf pre name keys b =
     (let b = b\<lparr>bc_ProxyName := pre @ name, bc_Metas := GetMapWithoutPrefix keys ''meta_''\<rparr>;
          (b, err) = (case map_of keys ''bandwidth_limit'' of
                 None \<Rightarrow> (b, None)
               | Some v \<Rightarrow> (let (q, e) = NewBandwidthQuantity pf v in (b\<lparr>bc_BandwidthLimit := q\<rparr>, e)))
      in if err \<noteq> None then (b, err)
         else
           let b = b\<lparr>bc_LocalSvrConf := (bc_LocalSvrConf b)\<lparr>ls_PluginParams := GetMapByPrefix keys ''plugin_''\<rparr>\<rparr>;
               l = bc_LocalSvrConf b;
               h = bc_HealthCheckConf b;
               h = (if hk_Type h = ''tcp'' \<and> ls_Plugin l = ''''
                    then h\<lparr>hk_Addr := ls_LocalIP l @ '':'' @ show_int (ls_LocalPort l)\<rparr> else h);
               h = (if hk_Type h = ''http'' \<and> ls_Plugin l = '''' \<and> hk_URL h \<noteq> ''''
                    then h\<lparr>hk_URL := (''http://'' @ join_host_port (ls_LocalIP l) (show_int (ls_LocalPort l)) @
                             (if \<not> has_prefix (hk_URL h) ''/'' then ''/'' else '''')) @ hk_URL h\<rparr> else h)
           in (b\<lparr>bc_HealthCheckConf := h\<rparr>, None))"

text \<open>\<open>mapTo\<close> is \<open>section.MapTo\<close> of the ini library, which fills in the fields with an ini tag.\<close>

datatype conf_error =
    MapToFailed
  | BadBandwidth bandwidth_error
  | BadProxyProtocolVersion string
  | BadBandwidthLimitMode
  | LocalIPRequired
  | BadLocalPort
  | BadHealthCheckType
  | HealthCheckURLRequired
  | DomainsRequired
  | BelongsToSubDomainHost string string
  | SubDomainNotEnabled
  | SubDomainChars
  | IncorrectMultiplexer string
  | RequiresTCPMuxPort
  | RequiresVhostHTTPPort
  | RequiresVhostHTTPSPort
  | BadRole
  | InvalidProxyType string

definition preUnmarshalFromIni ::
    "parse_float \<Rightarrow> (proxy_conf \<Rightarrow> proxy_conf option) \<Rightarrow> proxy_conf \<Rightarrow> string \<Rightarrow> string \<Rightarrow> str_map \<Rightarrow> conf_error + proxy_conf" where
  "preUnmarshalFromIni pf mapTo cfg pre name keys =
     (case mapTo cfg of
        None \<Rightarrow> Inl MapToFailed
      | Some c \<Rightarrow>
          (let (b, err) = decorate pf pre name keys (GetBaseConfig c)
           in case err of Some e \<Rightarrow> Inl (BadBandwidth e) | None \<Rightarrow> Inr (upd_base (\<lambda>_. b) c)))"

definition default_role :: "role_server_conf \<Rightarrow> role_server_conf" where
  "default_role r = (if rs_Role r = '''' then r\<lparr>rs_Role := ''server''\<rparr> else r)"

definition UnmarshalFromIni ::
    "parse_float \<Rightarrow> (proxy_conf \<Rightarrow> proxy_conf option) \<Rightarrow> proxy_conf \<Rightarrow> string \<Rightarrow> string \<Rightarrow> str_map \<Rightarrow> conf_error + proxy_conf" where
  "UnmarshalFromIni pf mapTo cfg pre name keys =
     (case preUnmarshalFromIni pf mapTo cfg pre name keys of
        Inl e \<Rightarrow> Inl e
      | Inr c \<Rightarrow> Inr (case c of
            HTTPProxyConf b d f \<Rightarrow> HTTPProxyConf b d (f\<lparr>hf_Headers := GetMapWithoutPrefix keys ''header_''\<rparr>)
          | STCPProxyConf b r \<Rightarrow> STCPProxyConf b (default_role r)
          | XTCPProxyConf b r \<Rightarrow> XTCPProxyConf b (default_role r)
          | c \<Rightarrow> c))"

section \<open>Validation\<close>

definition local_validateForClient :: "local_svr_conf \<Rightarrow> conf_error option" where
  "local_validateForClient l =
     (if ls_Plugin l = '''' then
        if ls_LocalIP l = '''' then Some LocalIPRequired
        else if ls_LocalPort l \<le> 0 then Some BadLocalPort else None
      else None)"

definition health_validateForClient :: "health_check_conf \<Rightarrow> conf_error option" where
  "health_validateForClient h =
     (if hk_Type h \<noteq> '''' \<and> hk_Type h \<noteq> ''tcp'' \<and> hk_Type h \<noteq> ''http'' then Some BadHealthCheckType
      else if hk_Type h \<noteq> '''' \<and> hk_Type h = ''http'' \<and> hk_URL h = '''' then Some HealthCheckURLRequired
      else None)"

definition base_validateForClient :: "base_proxy_conf \<Rightarrow> conf_error option" where
  "base_validateForClient b =
     (if bc_ProxyProtocolVersion b \<noteq> '''' \<and> bc_ProxyProtocolVersion b \<noteq> ''v1'' \<and> bc_ProxyProtocolVersion b \<noteq> ''v2''
      then Some (BadProxyProtocolVersion (bc_ProxyProtocolVersion b))
      else if bc_BandwidthLimitMode b \<noteq> ''client'' \<and> bc_BandwidthLimitMode b \<noteq> ''server''
      then Some BadBandwidthLimitMode
      else case local_validateForClient (bc_LocalSvrConf b) of
             Some e \<Rightarrow> Some e
           | None \<Rightarrow> health_validateForClient (bc_HealthCheckConf b))"

definition base_validateForServer :: "base_proxy_conf \<Rightarrow> conf_error option" where
  "base_validateForServer b =
     (if bc_BandwidthLimitMode b \<noteq> ''client'' \<and> bc_BandwidthLimitMode b \<noteq> ''server''
      then Some BadBandwidthLimitMode else None)"

definition domain_check :: "domain_conf \<Rightarrow> conf_error option" where
  "domain_check d =
     (if length (dm_CustomDomains d) = 0 \<and> dm_SubDomain d = '''' then Some DomainsRequired else None)"

definition domain_validateForClient :: "domain_conf \<Rightarrow> conf_error option" where
  "domain_validateForClient d = domain_check d"

fun custom_domains_loop :: "string \<Rightarrow> string list \<Rightarrow> conf_error option" where
  "custom_domains_loop host [] = None"
| "custom_domains_loop host (domain # ds) =
     (if host \<noteq> '''' \<and> length (go_split (CHR ''.'') host) < length (go_split (CHR ''.'') domain) \<and>
         go_contains domain host
      then Some (BelongsToSubDomainHost domain host)
      else custom_domains_loop host ds)"

definition domain_validateForServer :: "server_conf \<Rightarrow> domain_conf \<Rightarrow> conf_error option" where
  "domain_validateForServer s d =
     (case domain_check d of
        Some e \<Rightarrow> Some e
      | None \<Rightarrow>
          (case custom_domains_loop (sc_SubDomainHost s) (dm_CustomDomains d) of
             Some e \<Rightarrow> Some e
           | None \<Rightarrow>
               if dm_SubDomain d \<noteq> '''' then
                 if sc_SubDomainHost s = '''' then Some SubDomainNotEnabled
                 else if go_contains (dm_SubDomain d) ''.'' \<or> go_contains (dm_SubDomain d) ''*''
                 then Some SubDomainChars
                 else None
               else None))"

definition or_else :: "conf_error option \<Rightarrow> conf_error option \<Rightarrow> conf_error option" where
  "or_else a b = (case a of Some e \<Rightarrow> Some e | None \<Rightarrow> b)"

definition role_validateForClient :: "role_server_conf \<Rightarrow> conf_error option" where
  "role_validateForClient r = (if rs_Role r \<noteq> ''server'' then Some BadRole else None)"

fun ValidateForClient :: "proxy_conf \<Rightarrow> conf_error option" where
  "ValidateForClient (TCPProxyConf b _) = base_validateForClient b"
| "ValidateForClient (TCPMuxProxyConf b d f) =
     or_else (base_validateForClient b) (or_else (domain_validateForClient d)
       (if mf_Multiplexer f \<noteq> ''httpconnect'' then Some (IncorrectMultiplexer (mf_Multiplexer f)) else None))"
| "ValidateForClient (UDPProxyConf b _) = base_validateForClient b"
| "ValidateForClient (HTTPProxyConf b d _) = or_else (base_validateForClient b) (domain_validateForClient d)"
| "ValidateForClient (HTTPSProxyConf b d) = or_else (base_validateForClient b) (domain_validateForClient d)"
| "ValidateForClient (STCPProxyConf b r) = or_else (base_validateForClient b) (role_validateForClient r)"
| "ValidateForClient (XTCPProxyConf b r) = or_else (base_validateForClient b) (role_validateForClient r)"
| "ValidateForClient (SUDPProxyConf b r) = or_else (base_validateForClient b) (role_validateForClient r)"

fun ValidateForServer :: "server_conf \<Rightarrow> proxy_conf \<Rightarrow> conf_error option" where
  "ValidateForServer s (TCPProxyConf b _) = base_validateForServer b"
| "ValidateForServer s (TCPMuxProxyConf b d f) =
     or_else (base_validateForServer b)
       (if mf_Multiplexer f \<noteq> ''httpconnect'' then Some (IncorrectMultiplexer (mf_Multiplexer f))
        else if mf_Multiplexer f = ''httpconnect'' \<and> sc_TCPMuxHTTPConnectPort s = 0 then Some RequiresTCPMuxPort
        else domain_validateForServer s d)"
| "ValidateForServer s (UDPProxyConf b _) = base_validateForServer b"
| "ValidateForServer s (HTTPProxyConf b d _) =
     or_else (base_validateForServer b)
       (if sc_VhostHTTPPort s = 0 then Some RequiresVhostHTTPPort else domain_validateForServer s d)"
| "ValidateForServer s (HTTPSProxyConf b d) =
     or_else (base_validateForServer b)
       (if sc_VhostHTTPSPort s = 0 then Some RequiresVhostHTTPSPort else domain_validateForServer s d)"
| "ValidateForServer s (STCPProxyConf b _) = base_validateForServer b"
| "ValidateForServer s (XTCPProxyConf b _) = base_validateForServer b"
| "ValidateForServer s (SUDPProxyConf b _) = base_validateForServer b"

section \<open>Loaders\<close>

definition NewProxyConfFromIni ::
    "parse_float \<Rightarrow> (proxy_conf \<Rightarrow> proxy_conf option) \<Rightarrow> string \<Rightarrow> string \<Rightarrow> str_map \<Rightarrow> conf_error + proxy_conf" where
  "NewProxyConfFromIni pf mapTo pre name keys =
     (let proxyType = (case map_of keys ''type'' of None \<Rightarrow> '''' | Some t \<Rightarrow> t);
          proxyType = (if proxyType = '''' then ''tcp'' else proxyType)
      in case DefaultProxyConf proxyType of
           None \<Rightarrow> Inl (InvalidProxyType proxyType)
         | Some conf \<Rightarrow>
             (case UnmarshalFromIni pf mapTo conf pre name keys of
                Inl e \<Rightarrow> Inl e
              | Inr c \<Rightarrow> (case ValidateForClient c of Some e \<Rightarrow> Inl e | None \<Rightarrow> Inr c)))"

definition NewProxyConfFromMsg :: "parse_float \<Rightarrow> server_conf \<Rightarrow> new_proxy_msg \<Rightarrow> conf_error + proxy_conf" where
  "NewProxyConfFromMsg pf s m =
     (let m = (if np_ProxyType m = '''' then m\<lparr>np_ProxyType := ''tcp''\<rparr> else m)
      in case DefaultProxyConf (np_ProxyType m) of
           None \<Rightarrow> Inl (InvalidProxyType (np_ProxyType m))
         | Some conf \<Rightarrow>
             let c = UnmarshalFromMsg pf m conf
             in (case ValidateForServer s c of Some e \<Rightarrow> Inl e | None \<Rightarrow> Inr c))"

text \<open>The configurations are stored under the names of their proxies.\<close>

definition keyed :: "(string \<rightharpoonup> proxy_conf) \<Rightarrow> bool" where
  "keyed cfgs \<longleftrightarrow> (\<forall>n c. cfgs n = Some c \<longrightarrow> bc_ProxyName (GetBaseConfig c) = n)"

section \<open>Lemmas\<close>

lemma find_None_all: "find P xs = None \<longleftrightarrow> (\<forall>x \<in> set xs. \<not> P x)"
  by (auto simp: find_None_iff)

lemma strip_runes_stable: "find (has_prefix s) rs = None \<Longrightarrow> strip_runes n rs s = s"
  by (cases n) auto

lemma strip_runes_done:
  "length s \<le> n \<Longrightarrow> [] \<notin> set rs \<Longrightarrow> find (has_prefix (strip_runes n rs s)) rs = None"
proof (induction n arbitrary: s)
  case 0
  then show ?case by (auto simp: find_None_all has_prefix_iff)
next
  case (Suc n)
  show ?case
  proof (cases "find (has_prefix s) rs")
    case (Some r)
    then have "r \<in> set rs" "has_prefix s r" by (auto simp: find_Some_iff)
    with Suc.prems have "r \<noteq> []" "prefix r s" by (auto simp: has_prefix_iff)
    then have "length (drop (length r) s) \<le> n"
      using Suc.prems(1) by (cases r; cases s) auto
    with Suc.IH Suc.prems(2) Some show ?thesis by simp
  qed simp
qed

lemma strip_runes_suffix: "suffix (strip_runes n rs s) s"
proof (induction n rs s rule: strip_runes.induct)
  case (2 n rs s)
  show ?case
  proof (cases "find (has_prefix s) rs")
    case (Some r)
    then have "suffix (strip_runes n rs (drop (length r) s)) (drop (length r) s)" using 2 by simp
    then show ?thesis using Some by (simp, meson suffix_drop suffix_order.order_trans)
  qed simp
qed simp

lemma space_runes_ne: "[] \<notin> set space_runes" "[] \<notin> set (map rev space_runes)"
  by (simp_all add: space_runes_def)

lemma trim_space_idem [simp]: "trim_space (trim_space s) = trim_space s"
proof -
  define l where "l = trim_left_space s"
  define t where "t = trim_right_space l"
  have l: "find (has_prefix l) space_runes = None"
    by (simp add: l_def trim_left_space_def strip_runes_done space_runes_ne)
  have "suffix (rev t) (rev l)" by (simp add: t_def trim_right_space_def strip_runes_suffix)
  then have "prefix t l" by (simp add: suffix_to_prefix)
  then have "find (has_prefix t) space_runes = None"
    using l by (auto simp: find_None_all has_prefix_iff dest: prefix_order.order_trans)
  then have a: "trim_left_space t = t" by (simp add: trim_left_space_def strip_runes_stable)
  have "find (has_prefix (rev t)) (map rev space_runes) = None"
    unfolding t_def trim_right_space_def rev_rev_ident
    by (rule strip_runes_done) (simp_all only: length_rev space_runes_ne not_False_eq_True order_refl)
  then have "trim_right_space t = t" by (simp add: trim_right_space_def strip_runes_stable)
  with a show ?thesis by (simp add: trim_space_def t_def l_def)
qed

lemma trim_space_Nil [simp]: "trim_space '''' = ''''"
  by (simp add: trim_space_def trim_left_space_def trim_right_space_def)

lemma NewBandwidthQuantity_again:
  "NewBandwidthQuantity pf s = (q, None) \<Longrightarrow> NewBandwidthQuantity pf (bq_s q) = (q, None)"
  by (auto simp: NewBandwidthQuantity_def UnmarshalString_def Let_def zero_quantity_def
      split: if_splits option.splits)

lemma go_split_length: "length (go_split sep s) = Suc (length (filter (\<lambda>c. c = sep) s))"
  by (induction s) (auto split: list.splits)

lemma go_contains_char [simp]: "go_contains s [c] \<longleftrightarrow> c \<in> set s"
  by (auto simp: go_contains_iff in_set_conv_decomp)

lemma custom_domains_loop_None:
  "custom_domains_loop host ds = None \<longleftrightarrow>
     (host \<noteq> '''' \<longrightarrow> (\<forall>d \<in> set ds. \<not> (length (go_split (CHR ''.'') host) < length (go_split (CHR ''.'') d) \<and>
        go_contains d host)))"
  by (induction host ds rule: custom_domains_loop.induct) auto

text \<open>What of a configuration the message carries: the client's local settings are left out.\<close>

fun type_name :: "proxy_conf \<Rightarrow> string" where
  "type_name (TCPProxyConf _ _) = ''tcp''"
| "type_name (TCPMuxProxyConf _ _ _) = ''tcpmux''"
| "type_name (UDPProxyConf _ _) = ''udp''"
| "type_name (HTTPProxyConf _ _ _) = ''http''"
| "type_name (HTTPSProxyConf _ _) = ''https''"
| "type_name (STCPProxyConf _ _) = ''stcp''"
| "type_name (XTCPProxyConf _ _) = ''xtcp''"
| "type_name (SUDPProxyConf _ _) = ''sudp''"

fun domains_of :: "proxy_conf \<Rightarrow> domain_conf" where
  "domains_of (TCPMuxProxyConf _ d _) = d"
| "domains_of (HTTPProxyConf _ d _) = d"
| "domains_of (HTTPSProxyConf _ d) = d"
| "domains_of _ = zero_domain"

definition forget_local :: "string \<Rightarrow> base_proxy_conf \<Rightarrow> base_proxy_conf" where
  "forget_local t b = b\<lparr>bc_ProxyType := t, bc_ProxyProtocolVersion := '''',
     bc_LocalSvrConf := bc_LocalSvrConf (base_SetDefaultValues zero_base),
     bc_HealthCheckConf := bc_HealthCheckConf zero_base\<rparr>"

definition server_view :: "proxy_conf \<Rightarrow> proxy_conf" where
  "server_view c = upd_base (forget_local (type_name c)) c"

definition conf_wf :: "parse_float \<Rightarrow> proxy_conf \<Rightarrow> bool" where
  "conf_wf pf c \<longleftrightarrow>
     (bc_ProxyType (GetBaseConfig c) = type_name c \<or>
        bc_ProxyType (GetBaseConfig c) = '''' \<and> type_name c = ''tcp'') \<and>
     (\<exists>s. NewBandwidthQuantity pf s = (bc_BandwidthLimit (GetBaseConfig c), None))"

lemma base_valid_mode: "base_validateForClient b = None \<Longrightarrow>
    bc_BandwidthLimitMode b = ''client'' \<or> bc_BandwidthLimitMode b = ''server''"
  by (auto simp: base_validateForClient_def split: if_splits option.splits)

lemma ValidateForClient_base:
  "ValidateForClient c = None \<Longrightarrow> base_validateForClient (GetBaseConfig c) = None"
  by (cases c) (auto simp: or_else_def split: option.splits)

lemma bandwidth_empty: "NewBandwidthQuantity pf s = (q, None) \<Longrightarrow> bq_s q = '''' \<Longrightarrow> q = zero_quantity"
  by (drule NewBandwidthQuantity_again) (simp add: NewBandwidthQuantity_def UnmarshalString_def)

lemma base_roundtrip:
  assumes "bc_BandwidthLimitMode b = ''client'' \<or> bc_BandwidthLimitMode b = ''server''"
    and "NewBandwidthQuantity pf s = (bc_BandwidthLimit b, None)"
    and "np_ProxyName m = bc_ProxyName b" "np_UseEncryption m = bc_UseEncryption b"
    "np_UseCompression m = bc_UseCompression b" "np_Group m = bc_Group b" "np_GroupKey m = bc_GroupKey b"
    "np_Metas m = bc_Metas b" "np_BandwidthLimit m = bq_s (bc_BandwidthLimit b)"
    "np_BandwidthLimitMode m = (if bc_BandwidthLimitMode b \<noteq> ''client'' then bc_BandwidthLimitMode b else '''')"
  shows "base_unmarshalFromMsg pf m (base_SetDefaultValues zero_base) = forget_local (np_ProxyType m) b"
proof -
  let ?b0 = "base_SetDefaultValues zero_base"
  have b0: "bc_BandwidthLimit ?b0 = zero_quantity" "bc_BandwidthLimitMode ?b0 = ''client''" "bc_ProxyProtocolVersion ?b0 = ''''"
    "bc_HealthCheckConf ?b0 = bc_HealthCheckConf zero_base"
    by (simp_all add: base_SetDefaultValues_def zero_base_def)
  have limit: "(if np_BandwidthLimit m \<noteq> '''' then fst (NewBandwidthQuantity pf (np_BandwidthLimit m)) else zero_quantity) =
      bc_BandwidthLimit b"
    using NewBandwidthQuantity_again [OF assms(2)] bandwidth_empty [OF assms(2)] assms(9) by auto
  have mode: "(if np_BandwidthLimitMode m \<noteq> '''' then np_BandwidthLimitMode m else ''client'') = bc_BandwidthLimitMode b"
    using assms(1,10) by auto
  have u: "base_unmarshalFromMsg pf m ?b0 = ?b0\<lparr>bc_ProxyName := np_ProxyName m, bc_ProxyType := np_ProxyType m,
      bc_UseEncryption := np_UseEncryption m, bc_UseCompression := np_UseCompression m,
      bc_BandwidthLimit := (if np_BandwidthLimit m \<noteq> '''' then fst (NewBandwidthQuantity pf (np_BandwidthLimit m)) else bc_BandwidthLimit ?b0),
      bc_BandwidthLimitMode := (if np_BandwidthLimitMode m \<noteq> '''' then np_BandwidthLimitMode m else bc_BandwidthLimitMode ?b0),
      bc_Group := np_Group m, bc_GroupKey := np_GroupKey m, bc_Metas := np_Metas m\<rparr>"
    by (simp add: base_unmarshalFromMsg_def Let_def)
  show ?thesis
    unfolding u b0 limit mode by (rule base_proxy_conf.equality) (simp_all add: forget_local_def b0 assms)
qed

lemma MarshalToMsg_base:
  fixes c pf
  defines "m \<equiv> MarshalToMsg c zero_msg" and "b \<equiv> GetBaseConfig c"
  shows "np_ProxyName m = bc_ProxyName b" "np_ProxyType m = bc_ProxyType b" "np_UseEncryption m = bc_UseEncryption b"
    "np_UseCompression m = bc_UseCompression b" "np_Group m = bc_Group b" "np_GroupKey m = bc_GroupKey b"
    "np_Metas m = bc_Metas b" "np_BandwidthLimit m = bq_s (bc_BandwidthLimit b)"
    "np_BandwidthLimitMode m = (if bc_BandwidthLimitMode b \<noteq> ''client'' then bc_BandwidthLimitMode b else '''')"
  by (cases c; simp add: m_def b_def base_marshalToMsg_def role_marshalToMsg_def zero_msg_def Let_def)+

definition sent_msg :: "proxy_conf \<Rightarrow> new_proxy_msg" where
  "sent_msg c = (MarshalToMsg c zero_msg)\<lparr>np_ProxyType := type_name c\<rparr>"

lemma sent_msg_unmarshal:
  assumes "ValidateForClient c = None" and "conf_wf pf c"
  shows "base_unmarshalFromMsg pf (sent_msg c) (base_SetDefaultValues zero_base) = forget_local (type_name c) (GetBaseConfig c)"
proof -
  obtain s where s: "NewBandwidthQuantity pf s = (bc_BandwidthLimit (GetBaseConfig c), None)"
    using assms(2) by (auto simp: conf_wf_def)
  show ?thesis
    using base_roundtrip [OF base_valid_mode [OF ValidateForClient_base [OF assms(1)]] s, of "sent_msg c"]
    by (simp add: sent_msg_def MarshalToMsg_base)
qed

lemma sent_msg_default:
  assumes "ValidateForClient c = None" and "conf_wf pf c"
  shows "\<exists>d. DefaultProxyConf (type_name c) = Some d \<and> UnmarshalFromMsg pf (sent_msg c) d = server_view c"
  using assms(1) sent_msg_unmarshal [OF assms]
  by (cases c) (simp_all add: DefaultProxyConf_def NewConfByType_def server_view_def,
     auto simp: sent_msg_def zero_domain_def zero_http_def zero_tcpmux_def zero_role_def
      role_setDefaultValues_def role_marshalToMsg_def role_unmarshalFromMsg_def role_validateForClient_def
      or_else_def zero_msg_def split: option.splits if_splits)

section \<open>Properties\<close>

text \<open>
  (C25) What a client that passes its own validation sends is what the server works with:
  the server decodes the message to the client's configuration without its local settings,
  and accepts it exactly if that configuration passes the server's validation.
\<close>

theorem proxy_conf_roundtrip:
  assumes "ValidateForClient c = None" and "conf_wf pf c"
  shows "NewProxyConfFromMsg pf s (MarshalToMsg c zero_msg) =
    (case ValidateForServer s (server_view c) of Some e \<Rightarrow> Inl e | None \<Rightarrow> Inr (server_view c))"
proof -
  obtain d where d: "DefaultProxyConf (type_name c) = Some d" "UnmarshalFromMsg pf (sent_msg c) d = server_view c"
    using sent_msg_default [OF assms] by blast
  let ?m = "MarshalToMsg c zero_msg"
  have t: "np_ProxyType ?m = type_name c \<or> np_ProxyType ?m = '''' \<and> type_name c = ''tcp''"
    using assms(2) MarshalToMsg_base(2) [of c] by (auto simp: conf_wf_def)
  then have "(if np_ProxyType ?m = '''' then ?m\<lparr>np_ProxyType := ''tcp''\<rparr> else ?m) = sent_msg c"
    by (cases c) (auto simp: sent_msg_def)
  with d t show ?thesis by (simp add: NewProxyConfFromMsg_def sent_msg_def Let_def)
qed

definition demo_http :: proxy_conf where
  "demo_http = HTTPProxyConf
     (zero_base\<lparr>bc_ProxyName := ''web'', bc_ProxyType := ''http'', bc_BandwidthLimitMode := ''server'',
        bc_LocalSvrConf := \<lparr>ls_LocalIP = ''10.0.0.1'', ls_LocalPort = 80, ls_Plugin = '''', ls_PluginParams = []\<rparr>\<rparr>)
     \<lparr>dm_CustomDomains = [''a.org''], dm_SubDomain = ''''\<rparr> zero_http"

definition demo_server :: server_conf where
  "demo_server = \<lparr>sc_ProxyBindAddr = ''0.0.0.0'', sc_VhostHTTPPort = 80, sc_VhostHTTPSPort = 443,
     sc_TCPMuxHTTPConnectPort = 0, sc_SubDomainHost = ''frps.com'', sc_MaxPortsPerClient = 2, sc_MaxPoolCount = 5,
     sc_TCPMux = False, sc_HeartbeatTimeout = 90, sc_EnableApi = False, sc_DetailedErrorsToClient = True\<rparr>"

theorem proxy_conf_roundtrip_witness:
  "NewProxyConfFromMsg (\<lambda>_ _. None) demo_server (MarshalToMsg demo_http zero_msg) = Inr (server_view demo_http)"
proof -
  have v: "ValidateForClient demo_http = None"
    by (simp add: demo_http_def zero_base_def or_else_def base_validateForClient_def local_validateForClient_def
        health_validateForClient_def domain_validateForClient_def domain_check_def)
  have "NewBandwidthQuantity (\<lambda>_ _. None) '''' = (zero_quantity, None)"
    by (simp add: NewBandwidthQuantity_def UnmarshalString_def)
  then have w: "conf_wf (\<lambda>_ _. None) demo_http"
    by (auto simp: conf_wf_def demo_http_def zero_base_def)
  have "ValidateForServer demo_server (server_view demo_http) = None"
    by (simp add: demo_http_def demo_server_def zero_base_def server_view_def forget_local_def or_else_def
        base_validateForServer_def domain_validateForServer_def domain_check_def)
  then show ?thesis using proxy_conf_roundtrip [OF v w] by simp
qed

text \<open>
  The names under \<open>subdomain_host\<close> belong to the server: if a configuration with
  \<open>subdomain\<close> and another one are accepted, no custom domain of the latter lies under
  \<open>subdomain_host\<close>, so none is the name given to the former, a name below it, or the
  wildcard that covers it; and the subdomain is a single label in front of the host.
\<close>

theorem subdomain_names_protected:
  assumes "ValidateForServer s c1 = None" and "ValidateForServer s c2 = None"
    and "dm_SubDomain (domains_of c2) \<noteq> ''''"
  shows "(\<forall>pre. pre @ ''.'' @ sc_SubDomainHost s \<notin> set (dm_CustomDomains (domains_of c1))) \<and>
    go_split (CHR ''.'') (dm_SubDomain (domains_of c2) @ ''.'' @ sc_SubDomainHost s) =
      dm_SubDomain (domains_of c2) # go_split (CHR ''.'') (sc_SubDomainHost s)"
proof -
  have dv: "domain_validateForServer s (domains_of c) = None"
    if "ValidateForServer s c = None" and "domains_of c \<noteq> zero_domain" for c
    using that by (cases c) (auto simp: or_else_def split: option.splits if_splits)
  have "domains_of c2 \<noteq> zero_domain" using assms(3) by (auto simp: zero_domain_def)
  from dv [OF assms(2) this] assms(3) have host: "sc_SubDomainHost s \<noteq> ''''"
    and dot: "CHR ''.'' \<notin> set (dm_SubDomain (domains_of c2))"
    by (auto simp: domain_validateForServer_def split: option.splits if_splits)
  have free: "pre @ ''.'' @ sc_SubDomainHost s \<notin> set (dm_CustomDomains (domains_of c1))" for pre
  proof (cases "domains_of c1 = zero_domain")
    case False
    from dv [OF assms(1) False] have "custom_domains_loop (sc_SubDomainHost s) (dm_CustomDomains (domains_of c1)) = None"
      by (auto simp: domain_validateForServer_def split: option.splits)
    moreover have "go_contains (pre @ ''.'' @ sc_SubDomainHost s) (sc_SubDomainHost s)"
      unfolding go_contains_iff by (metis append.assoc append_Nil2)
    ultimately show ?thesis using host by (auto simp: custom_domains_loop_None go_split_length)
  qed (simp add: zero_domain_def)
  then show ?thesis using dot by (simp add: go_split_append_sep)
qed

theorem subdomain_names_protected_witness:
  "''blog.frps.com'' \<notin> set (dm_CustomDomains (domains_of demo_http))"
proof -
  let ?c2 = "HTTPSProxyConf (zero_base\<lparr>bc_BandwidthLimitMode := ''client''\<rparr>) \<lparr>dm_CustomDomains = [], dm_SubDomain = ''blog''\<rparr>"
  have "ValidateForServer demo_server demo_http = None"
    by (simp add: demo_http_def demo_server_def zero_base_def or_else_def
        base_validateForServer_def domain_validateForServer_def domain_check_def)
  moreover have "ValidateForServer demo_server ?c2 = None"
    by (simp add: demo_server_def zero_base_def or_else_def base_validateForServer_def
        domain_validateForServer_def domain_check_def)
  ultimately show ?thesis
    using subdomain_names_protected [of demo_server demo_http ?c2] by (auto simp: demo_server_def dest!: spec [of _ "''blog''"])
qed

text \<open>
  The test for names under \<open>subdomain_host\<close> looks for it anywhere in the custom domain, so
  that a domain that only contains it is refused.
\<close>

theorem foreign_domain_refused:
  "domain_validateForServer demo_server \<lparr>dm_CustomDomains = [''frps.com.example.org''], dm_SubDomain = ''''\<rparr> =
     Some (BelongsToSubDomainHost ''frps.com.example.org'' ''frps.com'')"
  by (simp add: domain_validateForServer_def domain_check_def demo_server_def)

end
