(* ===== verification/Frp_Nathole.thy ===== *)
theory Frp_Nathole
  imports Frp_Auth
begin

text \<open>
  Hole punching between clients behind NATs (\<open>pkg/nathole\<close>): the classification of a NAT from
  the addresses seen outside (\<open>classify.go\<close>), the choice of a behavior from the scores of
  earlier attempts (\<open>analysis.go\<close>) and the controller on the server that matches visitors
  and clients (\<open>controller.go\<close>). The third-party package \<open>lo\<close> is an argument, a record of the
  functions that the code calls; \<open>lo_ok\<close> is its documentation. The STUN requests and the
  UDP packets are not modelled.
\<close>

section \<open>The package \<open>lo\<close>\<close>

datatype nat_type = EasyNAT | HardNAT

datatype nat_behavior = BehaviorNoChange | BehaviorIPChanged | BehaviorPortChanged | BehaviorBothChanged

record nat_feature =
  nf_NatType :: nat_type
  nf_Behavior :: nat_behavior
  nf_PortsDifference :: int
  nf_RegularPortsChange :: bool
  nf_PublicNetwork :: bool

record behavior_score =
  bs_Mode :: int
  bs_Index :: int
  bs_Score :: int

text \<open>
  \<open>MaxBy\<close> returns one of the pointers of the slice, here its position, and nil for an empty
  slice.
\<close>

record lo_lib =
  lo_Contains :: "string list \<Rightarrow> string \<Rightarrow> bool"
  lo_Uniq :: "string list \<Rightarrow> string list"
  lo_Max :: "int list \<Rightarrow> int"
  lo_Min :: "int list \<Rightarrow> int"
  lo_Last :: "string list \<Rightarrow> string option"
  lo_MaxBy :: "behavior_score list \<Rightarrow> (behavior_score \<Rightarrow> behavior_score \<Rightarrow> bool) \<Rightarrow> nat option"

text \<open>
  The first position of a greatest element, for a comparison of numbers.
\<close>

definition first_max :: "int list \<Rightarrow> nat \<Rightarrow> bool" where
  "first_max xs i \<longleftrightarrow> i < length xs \<and> (\<forall>k < length xs. xs ! k \<le> xs ! i) \<and> (\<forall>k < i. xs ! k < xs ! i)"

definition lo_ok :: "lo_lib \<Rightarrow> bool" where
  "lo_ok lo \<longleftrightarrow>
     (\<forall>xs x. lo_Contains lo xs x \<longleftrightarrow> x \<in> set xs) \<and>
     (\<forall>xs. distinct (lo_Uniq lo xs) \<and> set (lo_Uniq lo xs) = set xs) \<and>
     (\<forall>xs. xs \<noteq> [] \<longrightarrow> lo_Max lo xs = Max (set xs)) \<and>
     (\<forall>xs. xs \<noteq> [] \<longrightarrow> lo_Min lo xs = Min (set xs)) \<and>
     (\<forall>xs. lo_Last lo xs = (if xs = [] then None else Some (last xs))) \<and>
     (\<forall>f. lo_MaxBy lo [] f = None) \<and>
     (\<forall>l f. l \<noteq> [] \<longrightarrow> (\<exists>i. lo_MaxBy lo l (\<lambda>a b. f a > (f b :: int)) = Some i \<and> first_max (map f l) i))"

section \<open>Classification\<close>

datatype classify_error = NotEnoughAddresses | BadAddress addr_error | BadPort num_error

record classify_state =
  cs_public :: bool
  cs_ipChanged :: bool
  cs_portChanged :: bool
  cs_baseIP :: string
  cs_basePort :: string
  cs_portMax :: int
  cs_portMin :: int

definition classify_addr :: "lo_lib \<Rightarrow> string list \<Rightarrow> classify_state \<Rightarrow> string \<Rightarrow> classify_error + classify_state" where
  "classify_addr lo localIPs st addr =
     (case split_host_port addr of
        Inl e \<Rightarrow> Inl (BadAddress e)
      | Inr (ip, port) \<Rightarrow>
          (case parse_int port of
             (_, Some e) \<Rightarrow> Inl (BadPort e)
           | (portNum, None) \<Rightarrow>
               (let st = (if lo_Contains lo localIPs ip then st\<lparr>cs_public := True\<rparr> else st)
                in if cs_baseIP st = '''' then
                     Inr (st\<lparr>cs_baseIP := ip, cs_basePort := port, cs_portMax := portNum, cs_portMin := portNum\<rparr>)
                   else
                     Inr (st\<lparr>cs_portMax := (if portNum > cs_portMax st then portNum else cs_portMax st),
                            cs_portMin := (if portNum < cs_portMin st then portNum else cs_portMin st),
                            cs_ipChanged := (cs_ipChanged st \<or> cs_baseIP st \<noteq> ip),
                            cs_portChanged := (cs_portChanged st \<or> cs_basePort st \<noteq> port)\<rparr>))))"

fun classify_loop :: "lo_lib \<Rightarrow> string list \<Rightarrow> classify_state \<Rightarrow> string list \<Rightarrow> classify_error + classify_state" where
  "classify_loop lo localIPs st [] = Inr st"
| "classify_loop lo localIPs st (addr # addrs) =
     (case classify_addr lo localIPs st addr of Inl e \<Rightarrow> Inl e | Inr st' \<Rightarrow> classify_loop lo localIPs st' addrs)"

definition start_state :: classify_state where
  "start_state = \<lparr>cs_public = False, cs_ipChanged = False, cs_portChanged = False, cs_baseIP = '''', cs_basePort = '''',
     cs_portMax = 0, cs_portMin = 0\<rparr>"

definition nat_feature_of :: "classify_state \<Rightarrow> nat_feature" where
  "nat_feature_of st =
     (let (ty, bh) =
            (if cs_ipChanged st \<and> cs_portChanged st then (HardNAT, BehaviorBothChanged)
             else if cs_ipChanged st then (HardNAT, BehaviorIPChanged)
             else if cs_portChanged st then (HardNAT, BehaviorPortChanged)
             else (EasyNAT, BehaviorNoChange));
          d = (if bh = BehaviorPortChanged then cs_portMax st - cs_portMin st else 0)
      in \<lparr>nf_NatType = ty, nf_Behavior = bh, nf_PortsDifference = d,
          nf_RegularPortsChange = (bh = BehaviorPortChanged \<and> d \<le> 5 \<and> d \<ge> 1), nf_PublicNetwork = cs_public st\<rparr>)"

definition ClassifyNATFeature :: "lo_lib \<Rightarrow> string list \<Rightarrow> string list \<Rightarrow> classify_error + nat_feature" where
  "ClassifyNATFeature lo addresses localIPs =
     (if length addresses \<le> 1 then Inl NotEnoughAddresses
      else map_sum id nat_feature_of (classify_loop lo localIPs start_state addresses))"

text \<open>The numbers of easy NATs, of hard NATs, and of hard NATs whose ports change regularly.\<close>

fun ClassifyFeatureCount :: "nat_feature list \<Rightarrow> nat \<times> nat \<times> nat" where
  "ClassifyFeatureCount [] = (0, 0, 0)"
| "ClassifyFeatureCount (f # fs) =
     (let (easy, hard, regular) = ClassifyFeatureCount fs
      in if nf_NatType f = EasyNAT then (Suc easy, hard, regular)
         else (easy, Suc hard, if nf_RegularPortsChange f then Suc regular else regular))"

section \<open>Behaviors\<close>

record recommand_behavior =
  rb_Role :: string
  rb_TTL :: int
  rb_SendDelayMs :: int
  rb_PortsRangeNumber :: int
  rb_PortsRandomNumber :: int
  rb_ListenRandomPorts :: int

definition no_behavior :: recommand_behavior where
  "no_behavior = \<lparr>rb_Role = '''', rb_TTL = 0, rb_SendDelayMs = 0, rb_PortsRangeNumber = 0, rb_PortsRandomNumber = 0,
     rb_ListenRandomPorts = 0\<rparr>"

definition sender :: recommand_behavior where "sender = no_behavior\<lparr>rb_Role := ''sender''\<rparr>"

definition receiver :: recommand_behavior where "receiver = no_behavior\<lparr>rb_Role := ''receiver''\<rparr>"

type_synonym behavior_pair = "recommand_behavior \<times> recommand_behavior"

definition mode0Behaviors :: "behavior_pair list" where
  "mode0Behaviors =
     [(sender, receiver\<lparr>rb_TTL := 7\<rparr>),
      (receiver\<lparr>rb_TTL := 7\<rparr>, sender),
      (sender, receiver\<lparr>rb_TTL := 4\<rparr>),
      (receiver\<lparr>rb_TTL := 4\<rparr>, sender),
      (sender, receiver),
      (receiver, sender),
      (sender\<lparr>rb_SendDelayMs := 5000\<rparr>, receiver),
      (sender\<lparr>rb_SendDelayMs := 10000\<rparr>, receiver),
      (receiver, sender\<lparr>rb_SendDelayMs := 5000\<rparr>),
      (receiver, sender\<lparr>rb_SendDelayMs := 10000\<rparr>)]"

definition mode1Behaviors :: "behavior_pair list" where
  "mode1Behaviors =
     [(sender, receiver\<lparr>rb_TTL := 7, rb_PortsRangeNumber := 10\<rparr>),
      (sender\<lparr>rb_SendDelayMs := 2000\<rparr>, receiver\<lparr>rb_TTL := 7, rb_PortsRangeNumber := 10\<rparr>),
      (sender, receiver\<lparr>rb_TTL := 4, rb_PortsRangeNumber := 10\<rparr>),
      (sender\<lparr>rb_SendDelayMs := 2000\<rparr>, receiver\<lparr>rb_TTL := 4, rb_PortsRangeNumber := 10\<rparr>),
      (sender, receiver\<lparr>rb_PortsRangeNumber := 10\<rparr>),
      (sender\<lparr>rb_SendDelayMs := 2000\<rparr>, receiver\<lparr>rb_PortsRangeNumber := 10\<rparr>)]"

definition mode2Behaviors :: "behavior_pair list" where
  "mode2Behaviors =
     [(sender\<lparr>rb_PortsRandomNumber := 1000, rb_SendDelayMs := 3000\<rparr>, receiver\<lparr>rb_ListenRandomPorts := 256, rb_TTL := 7\<rparr>),
      (sender\<lparr>rb_PortsRandomNumber := 1000, rb_SendDelayMs := 3000\<rparr>, receiver\<lparr>rb_ListenRandomPorts := 256, rb_TTL := 4\<rparr>),
      (sender\<lparr>rb_PortsRandomNumber := 1000, rb_SendDelayMs := 3000\<rparr>, receiver\<lparr>rb_ListenRandomPorts := 256\<rparr>)]"

definition mode3Behaviors :: "behavior_pair list" where
  "mode3Behaviors =
     [(sender\<lparr>rb_PortsRangeNumber := 10\<rparr>, receiver\<lparr>rb_TTL := 7, rb_PortsRangeNumber := 10\<rparr>),
      (sender\<lparr>rb_PortsRangeNumber := 10\<rparr>, receiver\<lparr>rb_TTL := 4, rb_PortsRangeNumber := 10\<rparr>),
      (sender\<lparr>rb_PortsRangeNumber := 10\<rparr>, receiver\<lparr>rb_PortsRangeNumber := 10\<rparr>),
      (receiver\<lparr>rb_TTL := 7, rb_PortsRangeNumber := 10\<rparr>, sender\<lparr>rb_PortsRangeNumber := 10\<rparr>),
      (receiver\<lparr>rb_TTL := 4, rb_PortsRangeNumber := 10\<rparr>, sender\<lparr>rb_PortsRangeNumber := 10\<rparr>),
      (receiver\<lparr>rb_PortsRangeNumber := 10\<rparr>, sender\<lparr>rb_PortsRangeNumber := 10\<rparr>)]"

definition mode4Behaviors :: "behavior_pair list" where
  "mode4Behaviors =
     [(sender\<lparr>rb_PortsRandomNumber := 1000, rb_SendDelayMs := 3000\<rparr>,
       receiver\<lparr>rb_ListenRandomPorts := 256, rb_TTL := 7, rb_PortsRangeNumber := 2\<rparr>),
      (sender\<lparr>rb_PortsRandomNumber := 1000, rb_SendDelayMs := 3000\<rparr>,
       receiver\<lparr>rb_ListenRandomPorts := 256, rb_TTL := 4, rb_PortsRangeNumber := 2\<rparr>),
      (sender\<lparr>rb_PortsRandomNumber := 1000, rb_SendDelayMs := 3000\<rparr>,
       receiver\<lparr>rb_ListenRandomPorts := 256, rb_PortsRangeNumber := 2\<rparr>)]"

definition getBehaviorByMode :: "int \<Rightarrow> behavior_pair list" where
  "getBehaviorByMode mode =
     (if mode = 0 then mode0Behaviors else if mode = 1 then mode1Behaviors else if mode = 2 then mode2Behaviors
      else if mode = 3 then mode3Behaviors else if mode = 4 then mode4Behaviors else mode0Behaviors)"

text \<open>Indices are never negative.\<close>

definition getBehaviorByModeAndIndex :: "int \<Rightarrow> int \<Rightarrow> behavior_pair" where
  "getBehaviorByModeAndIndex mode index =
     (let behaviors = getBehaviorByMode mode
      in if index \<ge> int (length behaviors) then (no_behavior, no_behavior) else behaviors ! nat index)"

definition getBehaviorScoresByMode2 :: "int \<Rightarrow> int \<Rightarrow> int \<Rightarrow> behavior_score list" where
  "getBehaviorScoresByMode2 mode senderScore receiverScore =
     (let behaviors = getBehaviorByMode mode
      in map (\<lambda>i. \<lparr>bs_Mode = mode, bs_Index = int i,
           bs_Score = (if rb_Role (fst (behaviors ! i)) = ''sender'' then senderScore else receiverScore)\<rparr>)
           [0..<length behaviors])"

definition getBehaviorScoresByMode :: "int \<Rightarrow> int \<Rightarrow> behavior_score list" where
  "getBehaviorScoresByMode mode defaultScore = getBehaviorScoresByMode2 mode defaultScore defaultScore"

section \<open>Scores\<close>

record make_hole_records =
  mh_scores :: "behavior_score list"
  mh_LastUpdateTime :: int

definition mode0_scores :: "nat_feature \<Rightarrow> nat_feature \<Rightarrow> behavior_score list" where
  "mode0_scores c v =
     (if nf_PublicNetwork c then getBehaviorScoresByMode2 0 0 1
      else if nf_PublicNetwork v then getBehaviorScoresByMode2 0 1 0
      else getBehaviorScoresByMode 0 0)"

definition NewMakeHoleRecords :: "int \<Rightarrow> nat_feature \<Rightarrow> nat_feature \<Rightarrow> make_hole_records" where
  "NewMakeHoleRecords now c v =
     (let (easyCount, hardCount, portsChangedRegularCount) = ClassifyFeatureCount [c, v]
      in \<lparr>mh_scores =
            (if easyCount = 2 then mode0_scores c v
             else if hardCount = 1 \<and> portsChangedRegularCount = 1 then
               getBehaviorScoresByMode 1 0 @ getBehaviorScoresByMode 2 0 @ mode0_scores c v
             else if hardCount = 1 \<and> portsChangedRegularCount = 0 then
               getBehaviorScoresByMode 2 0 @ getBehaviorScoresByMode 1 0 @ mode0_scores c v
             else if hardCount = 2 \<and> portsChangedRegularCount = 2 then
               getBehaviorScoresByMode 3 0 @ getBehaviorScoresByMode 4 0
             else if hardCount = 2 \<and> portsChangedRegularCount = 1 then getBehaviorScoresByMode 4 0
             else getBehaviorScoresByMode 0 1 @ getBehaviorScoresByMode 1 1 @ getBehaviorScoresByMode 3 1),
          mh_LastUpdateTime = now\<rparr>)"

fun report_loop :: "lo_lib \<Rightarrow> int \<Rightarrow> int \<Rightarrow> behavior_score list \<Rightarrow> behavior_score list" where
  "report_loop lo mode index [] = []"
| "report_loop lo mode index (s # ss) =
     (if bs_Mode s \<noteq> mode \<or> bs_Index s \<noteq> index then s # report_loop lo mode index ss
      else s\<lparr>bs_Score := lo_Min lo [bs_Score s + 2, 10]\<rparr> # ss)"

definition mhr_ReportSuccess :: "lo_lib \<Rightarrow> int \<Rightarrow> int \<Rightarrow> int \<Rightarrow> make_hole_records \<Rightarrow> make_hole_records" where
  "mhr_ReportSuccess lo now mode index r =
     r\<lparr>mh_LastUpdateTime := now, mh_scores := report_loop lo mode index (mh_scores r)\<rparr>"

definition Recommand :: "lo_lib \<Rightarrow> int \<Rightarrow> make_hole_records \<Rightarrow> (int \<times> int) \<times> make_hole_records" where
  "Recommand lo now r =
     (case lo_MaxBy lo (mh_scores r) (\<lambda>item max. bs_Score item > bs_Score max) of
        None \<Rightarrow> ((0, 0), r)
      | Some i \<Rightarrow>
          (let s = mh_scores r ! i
           in ((bs_Mode s, bs_Index s),
               r\<lparr>mh_scores := (mh_scores r)[i := s\<lparr>bs_Score := bs_Score s - 1\<rparr>], mh_LastUpdateTime := now\<rparr>)))"

record analyzer =
  az_records :: "string \<rightharpoonup> make_hole_records"
  az_dataReserveDuration :: int

definition NewAnalyzer :: "int \<Rightarrow> analyzer" where
  "NewAnalyzer d = \<lparr>az_records = Map.empty, az_dataReserveDuration = d\<rparr>"

text \<open>Which of the two behaviors of a pair is the client's depends on the mode.\<close>

definition assign_roles :: "int \<Rightarrow> nat_feature \<Rightarrow> behavior_pair \<Rightarrow> behavior_pair" where
  "assign_roles mode c = (\<lambda>(cBehavior, vBehavior).
     if mode = 1 \<and> nf_NatType c = EasyNAT \<or> mode = 2 \<and> nf_NatType c = HardNAT \<or> mode = 4 \<and> \<not> nf_RegularPortsChange c
     then (vBehavior, cBehavior) else (cBehavior, vBehavior))"

definition GetRecommandBehaviors ::
    "lo_lib \<Rightarrow> int \<Rightarrow> string \<Rightarrow> nat_feature \<Rightarrow> nat_feature \<Rightarrow> analyzer \<Rightarrow> (int \<times> int \<times> behavior_pair) \<times> analyzer" where
  "GetRecommandBehaviors lo now key c v a =
     (let records = (case az_records a key of None \<Rightarrow> NewMakeHoleRecords now c v | Some r \<Rightarrow> r);
          ((mode, index), records) = Recommand lo now records
      in ((mode, index, assign_roles mode c (getBehaviorByModeAndIndex mode index)),
          a\<lparr>az_records := (az_records a)(key \<mapsto> records)\<rparr>))"

definition az_ReportSuccess :: "lo_lib \<Rightarrow> int \<Rightarrow> string \<Rightarrow> int \<Rightarrow> int \<Rightarrow> analyzer \<Rightarrow> analyzer" where
  "az_ReportSuccess lo now key mode index a =
     (case az_records a key of
        None \<Rightarrow> a
      | Some r \<Rightarrow> a\<lparr>az_records := (az_records a)(key \<mapsto> mhr_ReportSuccess lo now mode index r)\<rparr>)"

definition Clean :: "int \<Rightarrow> analyzer \<Rightarrow> analyzer" where
  "Clean now a = a\<lparr>az_records := (\<lambda>key. case az_records a key of
     None \<Rightarrow> None
   | Some r \<Rightarrow> if now - mh_LastUpdateTime r > az_dataReserveDuration a then None else Some r)\<rparr>"


section \<open>Messages and sessions\<close>

record nh_visitor =
  nv_TransactionID :: string
  nv_ProxyName :: string
  nv_PreCheck :: bool
  nv_Protocol :: string
  nv_SignKey :: string
  nv_Timestamp :: int
  nv_MappedAddrs :: "string list"
  nv_AssistedAddrs :: "string list"

record nh_client =
  nl_TransactionID :: string
  nl_ProxyName :: string
  nl_Sid :: string
  nl_MappedAddrs :: "string list"
  nl_AssistedAddrs :: "string list"

record detect_behavior =
  db_Role :: string
  db_Mode :: int
  db_TTL :: int
  db_SendDelayMs :: int
  db_ReadTimeoutMs :: int
  db_CandidatePorts :: "(int \<times> int) list"
  db_SendRandomPorts :: int
  db_ListenRandomPorts :: int

record nh_resp =
  nr_TransactionID :: string
  nr_Sid :: string
  nr_Protocol :: string
  nr_CandidateAddrs :: "string list"
  nr_AssistedAddrs :: "string list"
  nr_DetectBehavior :: detect_behavior
  nr_Error :: string

record session =
  ss_sid :: string
  ss_analysisKey :: string
  ss_recommandMode :: int
  ss_recommandIndex :: int
  ss_visitorMsg :: nh_visitor
  ss_clientMsg :: "nh_client option"
  ss_notified :: bool

definition parseIPs :: "string list \<Rightarrow> string list" where
  "parseIPs addrs = concat (map (\<lambda>addr. case split_host_port addr of Inl _ \<Rightarrow> [] | Inr (ip, _) \<Rightarrow> [ip]) addrs)"

text \<open>Ports around the last address; a pair is a range.\<close>

definition getRangePorts :: "lo_lib \<Rightarrow> string list \<Rightarrow> int \<Rightarrow> int \<Rightarrow> (int \<times> int) list" where
  "getRangePorts lo addrs difference maxNumber =
     (if maxNumber \<le> 0 then []
      else case lo_Last lo addrs of
        None \<Rightarrow> []
      | Some addr \<Rightarrow>
          (case split_host_port addr of
             Inl _ \<Rightarrow> []
           | Inr (_, portStr) \<Rightarrow>
               (case parse_int portStr of
                  (_, Some _) \<Rightarrow> []
                | (port, None) \<Rightarrow>
                    [(lo_Max lo [port - difference - 5, port - maxNumber, 1],
                      lo_Min lo [port + difference + 5, port + maxNumber, 65535])])))"

fun nat_type_text :: "nat_type \<Rightarrow> string" where
  "nat_type_text EasyNAT = ''EasyNAT''"
| "nat_type_text HardNAT = ''HardNAT''"

fun behavior_text :: "nat_behavior \<Rightarrow> string" where
  "behavior_text BehaviorNoChange = ''BehaviorNoChange''"
| "behavior_text BehaviorIPChanged = ''BehaviorIPChanged''"
| "behavior_text BehaviorPortChanged = ''BehaviorPortChanged''"
| "behavior_text BehaviorBothChanged = ''BehaviorBothChanged''"

definition feature_text :: "lo_lib \<Rightarrow> string list \<Rightarrow> nat_feature \<Rightarrow> string" where
  "feature_text lo addrs f =
     (case lo_Uniq lo (parseIPs addrs) of [] \<Rightarrow> '''' | ip # _ \<Rightarrow> ip) @ nat_type_text (nf_NatType f) @
     behavior_text (nf_Behavior f) @ (if nf_RegularPortsChange f then ''true'' else ''false'')"

definition genAnalysisKey :: "digest \<Rightarrow> lo_lib \<Rightarrow> nh_visitor \<Rightarrow> nh_client \<Rightarrow> nat_feature \<Rightarrow> nat_feature \<Rightarrow> string" where
  "genAnalysisKey md5 lo vm cm v c =
     hex_encode (md5 (feature_text lo (nv_MappedAddrs vm) v @ feature_text lo (nl_MappedAddrs cm) c))"

section \<open>The decision\<close>

datatype analysis_error = ClientFeature classify_error | VisitorFeature classify_error

text \<open>The time that both sides have, \<open>timeoutMs\<close>.\<close>

definition timeout_ms :: "lo_lib \<Rightarrow> recommand_behavior \<Rightarrow> recommand_behavior \<Rightarrow> int" where
  "timeout_ms lo c v =
     lo_Max lo [rb_SendDelayMs c, rb_SendDelayMs v] + 5000 +
     (if rb_ListenRandomPorts c > 0 \<or> rb_ListenRandomPorts v > 0 then 30000 else 0)"

text \<open>
  The response to the side with behavior \<open>b\<close>, from the addresses and the ports of its peer.
\<close>

definition response_to ::
    "lo_lib \<Rightarrow> string \<Rightarrow> string \<Rightarrow> string \<Rightarrow> int \<Rightarrow> int \<Rightarrow> recommand_behavior \<Rightarrow> string list \<Rightarrow> string list \<Rightarrow> nat_feature \<Rightarrow> nh_resp" where
  "response_to lo transactionID sid protocol mode timeoutMs b peerMapped peerAssisted peer =
     \<lparr>nr_TransactionID = transactionID, nr_Sid = sid, nr_Protocol = protocol,
      nr_CandidateAddrs = lo_Uniq lo peerMapped, nr_AssistedAddrs = lo_Uniq lo peerAssisted,
      nr_DetectBehavior =
        \<lparr>db_Role = rb_Role b, db_Mode = mode, db_TTL = rb_TTL b, db_SendDelayMs = rb_SendDelayMs b,
         db_ReadTimeoutMs = timeoutMs - rb_SendDelayMs b,
         db_CandidatePorts = getRangePorts lo peerMapped (nf_PortsDifference peer) (rb_PortsRangeNumber b),
         db_SendRandomPorts = rb_PortsRandomNumber b, db_ListenRandomPorts = rb_ListenRandomPorts b\<rparr>,
      nr_Error = ''''\<rparr>"

text \<open>The result is the response to the visitor and to the client, and the session and the analyzer.\<close>

definition analysis ::
    "digest \<Rightarrow> lo_lib \<Rightarrow> int \<Rightarrow> session \<Rightarrow> nh_client \<Rightarrow> analyzer \<Rightarrow> (analysis_error + nh_resp \<times> nh_resp) \<times> session \<times> analyzer" where
  "analysis md5 lo now s cm a =
     (let vm = ss_visitorMsg s in
      case ClassifyNATFeature lo (nl_MappedAddrs cm) (parseIPs (nl_AssistedAddrs cm)) of
        Inl e \<Rightarrow> (Inl (ClientFeature e), s, a)
      | Inr c \<Rightarrow>
          (case ClassifyNATFeature lo (nv_MappedAddrs vm) (parseIPs (nv_AssistedAddrs vm)) of
             Inl e \<Rightarrow> (Inl (VisitorFeature e), s, a)
           | Inr v \<Rightarrow>
               (let key = genAnalysisKey md5 lo vm cm v c;
                    ((mode, index, (cBehavior, vBehavior)), a) = GetRecommandBehaviors lo now key c v a;
                    s = s\<lparr>ss_analysisKey := key, ss_recommandMode := mode, ss_recommandIndex := index\<rparr>;
                    timeoutMs = timeout_ms lo cBehavior vBehavior
                in (Inr (response_to lo (nv_TransactionID vm) (ss_sid s) (nv_Protocol vm) mode timeoutMs vBehavior
                           (nl_MappedAddrs cm) (nl_AssistedAddrs cm) c,
                         response_to lo (nl_TransactionID cm) (ss_sid s) (nv_Protocol vm) mode timeoutMs cBehavior
                           (nv_MappedAddrs vm) (nv_AssistedAddrs vm) v),
                    s, a))))"

section \<open>The controller\<close>

text \<open>The clients that wait for visitors; the channel of a client is not part of its entry.\<close>

record client_cfg =
  cc_name :: string
  cc_sk :: string
  cc_allowUsers :: "string list"

type_synonym nathole_clients = "string \<rightharpoonup> client_cfg"

definition ListenClient :: "nathole_clients \<Rightarrow> string \<Rightarrow> string \<Rightarrow> string list \<Rightarrow> bool \<times> nathole_clients" where
  "ListenClient cs name sk allowUsers =
     (case cs name of
        Some _ \<Rightarrow> (False, cs)
      | None \<Rightarrow> (True, cs(name \<mapsto> \<lparr>cc_name = name, cc_sk = sk, cc_allowUsers = allowUsers\<rparr>)))"

definition nathole_CloseClient :: "nathole_clients \<Rightarrow> string \<Rightarrow> nathole_clients" where
  "nathole_CloseClient cs name = cs(name := None)"

record nathole_ctl =
  nc_clientCfgs :: nathole_clients
  nc_sessions :: "string \<rightharpoonup> session"
  nc_analyzer :: analyzer

definition NewNatholeController :: "int \<Rightarrow> nathole_ctl" where
  "NewNatholeController d = \<lparr>nc_clientCfgs = Map.empty, nc_sessions = Map.empty, nc_analyzer = NewAnalyzer d\<rparr>"

text \<open>An identifier from the seconds of the clock; an error of the random source is ignored.\<close>

definition GenSid :: "int \<Rightarrow> (nat \<Rightarrow> nat list option) \<Rightarrow> string" where
  "GenSid now rand = show_int now @ (case RandID rand of None \<Rightarrow> '''' | Some randid \<Rightarrow> randid)"

definition no_detect :: detect_behavior where
  "no_detect = \<lparr>db_Role = '''', db_Mode = 0, db_TTL = 0, db_SendDelayMs = 0, db_ReadTimeoutMs = 0, db_CandidatePorts = [],
     db_SendRandomPorts = 0, db_ListenRandomPorts = 0\<rparr>"

definition GenNatHoleResponse :: "string \<Rightarrow> session option \<Rightarrow> string \<Rightarrow> nh_resp" where
  "GenNatHoleResponse transactionID s errInfo =
     \<lparr>nr_TransactionID = transactionID, nr_Sid = (case s of None \<Rightarrow> '''' | Some s \<Rightarrow> ss_sid s), nr_Protocol = '''',
      nr_CandidateAddrs = [], nr_AssistedAddrs = [], nr_DetectBehavior = no_detect, nr_Error = errInfo\<rparr>"

text \<open>
  \<open>HandleVisitor\<close> up to the hand-over of the session to the client's proxy: the response sent
  at once, or the session that waits for the client.
\<close>

datatype visitor_outcome = Answered nh_resp | Waiting string

definition HandleVisitor ::
    "digest \<Rightarrow> lo_lib \<Rightarrow> int \<Rightarrow> (nat \<Rightarrow> nat list option) \<Rightarrow> nh_visitor \<Rightarrow> string \<Rightarrow> nathole_ctl \<Rightarrow> visitor_outcome \<times> nathole_ctl" where
  "HandleVisitor md5 lo now rand m visitorUser c =
     (let answer = (\<lambda>e. (Answered (GenNatHoleResponse (nv_TransactionID m) None e), c));
          missing = ''xtcp server for ['' @ nv_ProxyName m @ ''] doesn't exist''
      in if nv_PreCheck m then
           (case nc_clientCfgs c (nv_ProxyName m) of
              None \<Rightarrow> answer missing
            | Some cfg \<Rightarrow>
                if \<not> lo_Contains lo (cc_allowUsers cfg) visitorUser \<and> \<not> lo_Contains lo (cc_allowUsers cfg) ''*''
                then answer (''xtcp visitor user ['' @ visitorUser @ ''] not allowed for ['' @ nv_ProxyName m @ '']'')
                else answer '''')
         else
           (case nc_clientCfgs c (nv_ProxyName m) of
              None \<Rightarrow> answer missing
            | Some cfg \<Rightarrow>
                if \<not> ConstantTimeEqString (nv_SignKey m) (GetAuthKey md5 (cc_sk cfg) (nv_Timestamp m))
                then answer (''xtcp connection of ['' @ nv_ProxyName m @ ''] auth failed'')
                else (let sid = GenSid now rand
                      in (Waiting sid, c\<lparr>nc_sessions := (nc_sessions c)(sid \<mapsto>
                            \<lparr>ss_sid = sid, ss_analysisKey = '''', ss_recommandMode = 0, ss_recommandIndex = 0,
                             ss_visitorMsg = m, ss_clientMsg = None, ss_notified = False\<rparr>)\<rparr>))))"

definition HandleClient :: "nh_client \<Rightarrow> nathole_ctl \<Rightarrow> nathole_ctl" where
  "HandleClient m c =
     (case nc_sessions c (nl_Sid m) of
        None \<Rightarrow> c
      | Some s \<Rightarrow> c\<lparr>nc_sessions := (nc_sessions c)(nl_Sid m \<mapsto> s\<lparr>ss_clientMsg := Some m, ss_notified := True\<rparr>)\<rparr>)"

text \<open>
  \<open>HandleVisitor\<close> from the notification on: the responses to the visitor and to the client.
  \<open>err_text\<close> renders an error.
\<close>

definition HandleVisitor_decide ::
    "digest \<Rightarrow> lo_lib \<Rightarrow> (analysis_error \<Rightarrow> string) \<Rightarrow> int \<Rightarrow> string \<Rightarrow> nathole_ctl \<Rightarrow> (nh_resp \<times> nh_resp) option \<times> nathole_ctl" where
  "HandleVisitor_decide md5 lo err_text now sid c =
     (case nc_sessions c sid of
        None \<Rightarrow> (None, c)
      | Some s \<Rightarrow>
          (case ss_clientMsg s of
             None \<Rightarrow> (None, c)
           | Some cm \<Rightarrow>
               (case analysis md5 lo now s cm (nc_analyzer c) of
                  (Inl e, s, a) \<Rightarrow>
                    (Some (GenNatHoleResponse (nv_TransactionID (ss_visitorMsg s)) None (err_text e),
                           GenNatHoleResponse (nl_TransactionID cm) None (err_text e)), c)
                | (Inr resps, s, a) \<Rightarrow>
                    (Some resps, c\<lparr>nc_sessions := (nc_sessions c)(sid \<mapsto> s), nc_analyzer := a\<rparr>))))"

text \<open>The deferred end of \<open>HandleVisitor\<close>, after the time of the reports or without a client.\<close>

definition HandleVisitor_end :: "string \<Rightarrow> nathole_ctl \<Rightarrow> nathole_ctl" where
  "HandleVisitor_end sid c = c\<lparr>nc_sessions := (nc_sessions c)(sid := None)\<rparr>"

definition HandleReport :: "lo_lib \<Rightarrow> int \<Rightarrow> string \<Rightarrow> bool \<Rightarrow> nathole_ctl \<Rightarrow> nathole_ctl" where
  "HandleReport lo now sid success c =
     (case nc_sessions c sid of
        None \<Rightarrow> c
      | Some s \<Rightarrow>
          if success then c\<lparr>nc_analyzer := az_ReportSuccess lo now (ss_analysisKey s) (ss_recommandMode s) (ss_recommandIndex s) (nc_analyzer c)\<rparr>
          else c)"

inductive nathole_step :: "nathole_ctl \<Rightarrow> nathole_ctl \<Rightarrow> bool" where
  listen: "nathole_step c (c\<lparr>nc_clientCfgs := snd (ListenClient (nc_clientCfgs c) name sk users)\<rparr>)"
| close: "nathole_step c (c\<lparr>nc_clientCfgs := nathole_CloseClient (nc_clientCfgs c) name\<rparr>)"
| visitor: "nathole_step c (snd (HandleVisitor md5 lo now rand m user c))"
| client: "nathole_step c (HandleClient cm c)"
| decide: "lo_ok lo \<Longrightarrow> nathole_step c (snd (HandleVisitor_decide md5 lo err_text now sid c))"
| finish: "nathole_step c (HandleVisitor_end sid c)"
| report: "lo_ok lo \<Longrightarrow> nathole_step c (HandleReport lo now sid success c)"
| clean: "nathole_step c (c\<lparr>nc_analyzer := Clean now (nc_analyzer c)\<rparr>)"

inductive_cases nathole_stepE: "nathole_step c c'"

inductive nathole_reachable :: "int \<Rightarrow> nathole_ctl \<Rightarrow> bool" for d where
  start: "nathole_reachable d (NewNatholeController d)"
| step: "nathole_reachable d c \<Longrightarrow> nathole_step c c' \<Longrightarrow> nathole_reachable d c'"


section \<open>The behaviors that are tried\<close>

lemma lo_okD:
  assumes "lo_ok lo"
  shows "lo_Contains lo xs x \<longleftrightarrow> x \<in> set xs" "set (lo_Uniq lo xs) = set xs"
    "is \<noteq> [] \<Longrightarrow> lo_Max lo is = Max (set is)" "is \<noteq> [] \<Longrightarrow> lo_Min lo is = Min (set is)"
    "lo_Last lo xs = (if xs = [] then None else Some (last xs))" "lo_MaxBy lo [] cmp = None"
    "l \<noteq> [] \<Longrightarrow> \<exists>i. lo_MaxBy lo l (\<lambda>a b. f a > (f b :: int)) = Some i \<and> first_max (map f l) i"
  using assms unfolding lo_ok_def by blast+

lemma Recommand_pick:
  assumes "lo_ok lo" and "mh_scores r \<noteq> []"
  obtains i where "first_max (map bs_Score (mh_scores r)) i"
    "Recommand lo now r = ((bs_Mode (mh_scores r ! i), bs_Index (mh_scores r ! i)),
       r\<lparr>mh_scores := (mh_scores r)[i := (mh_scores r ! i)\<lparr>bs_Score := bs_Score (mh_scores r ! i) - 1\<rparr>], mh_LastUpdateTime := now\<rparr>)"
proof -
  from lo_okD(7) [OF assms, of bs_Score] obtain i where
    "lo_MaxBy lo (mh_scores r) (\<lambda>a b. bs_Score a > bs_Score b) = Some i" "first_max (map bs_Score (mh_scores r)) i" by blast
  then show ?thesis using that by (simp add: Recommand_def Let_def)
qed

text \<open>
  How many choices can come before position \<open>j\<close>: each of them lowers a number that is above
  the one at \<open>j\<close>, or equal to it and to its left.
\<close>

definition ahead :: "int list \<Rightarrow> nat \<Rightarrow> nat \<Rightarrow> nat" where
  "ahead xs j i = nat (xs ! i - xs ! j + (if i < j then 1 else 0))"

definition ahead_of :: "int list \<Rightarrow> nat \<Rightarrow> nat" where
  "ahead_of xs j = (\<Sum>i \<in> {..<length xs} - {j}. ahead xs j i)"

lemma first_max_ahead:
  assumes "first_max xs i" and "i \<noteq> j" and "j < length xs"
  shows "ahead_of xs j = Suc (ahead_of (xs[i := xs ! i - 1]) j)"
proof -
  let ?ys = "xs[i := xs ! i - 1]" and ?I = "{..<length xs} - {j}"
  have i: "i \<in> ?I" using assms by (simp add: first_max_def)
  have "ahead ?ys j k = ahead xs j k" if "k \<noteq> i" for k
    using that assms(2) by (simp add: ahead_def)
  then have rest: "(\<Sum>k \<in> ?I - {i}. ahead ?ys j k) = (\<Sum>k \<in> ?I - {i}. ahead xs j k)"
    by (intro sum.cong) auto
  have le: "xs ! j \<le> xs ! i" "i < length xs" and lt: "j < i \<Longrightarrow> xs ! j < xs ! i"
    using assms by (auto simp: first_max_def)
  have "ahead xs j i = Suc (ahead ?ys j i)"
  proof (cases "i < j")
    case True
    then show ?thesis using le by (simp add: ahead_def)
  next
    case False
    then have "xs ! j < xs ! i" "?ys ! j = xs ! j" using lt assms(2) by simp_all
    then show ?thesis using le False by (simp add: ahead_def)
  qed
  then show ?thesis
    unfolding ahead_of_def using sum.remove [of ?I i "ahead xs j"] sum.remove [of ?I i "ahead ?ys j"] i rest by simp
qed

fun recommands :: "lo_lib \<Rightarrow> int list \<Rightarrow> make_hole_records \<Rightarrow> (int \<times> int) list \<times> make_hole_records" where
  "recommands lo [] r = ([], r)"
| "recommands lo (now # nows) r =
     (let (p, r) = Recommand lo now r; (ps, r) = recommands lo nows r in (p # ps, r))"

lemma recommands_reach:
  assumes "lo_ok lo" and "j < length (mh_scores r)" and "ahead_of (map bs_Score (mh_scores r)) j < length nows"
  shows "(bs_Mode (mh_scores r ! j), bs_Index (mh_scores r ! j)) \<in> set (fst (recommands lo nows r))"
  using assms(2,3)
proof (induction nows arbitrary: r)
  case (Cons now nows)
  let ?s = "mh_scores r"
  have "?s \<noteq> []" using Cons.prems(1) by auto
  from Recommand_pick [OF assms(1) this, of now] obtain i where i: "first_max (map bs_Score ?s) i"
    and rec: "Recommand lo now r = ((bs_Mode (?s ! i), bs_Index (?s ! i)),
      r\<lparr>mh_scores := ?s[i := (?s ! i)\<lparr>bs_Score := bs_Score (?s ! i) - 1\<rparr>], mh_LastUpdateTime := now\<rparr>)"
    (is "_ = (_, ?r)") by blast
  have sp: "fst (recommands lo (now # nows) r) = (bs_Mode (?s ! i), bs_Index (?s ! i)) # fst (recommands lo nows ?r)"
    by (simp add: rec case_prod_beta Let_def)
  show ?case
  proof (cases "i = j")
    case False
    have li: "i < length ?s" using i by (simp add: first_max_def)
    have m: "map bs_Score (mh_scores ?r) = (map bs_Score ?s)[i := map bs_Score ?s ! i - 1]"
      using li by (simp add: map_update)
    have "ahead_of (map bs_Score (mh_scores ?r)) j < length nows"
      using first_max_ahead [OF i False] Cons.prems unfolding m by simp
    moreover have "j < length (mh_scores ?r)" using Cons.prems(1) by simp
    ultimately have "(bs_Mode (mh_scores ?r ! j), bs_Index (mh_scores ?r ! j)) \<in> set (fst (recommands lo nows ?r))"
      by (rule Cons.IH [rotated])
    then show ?thesis unfolding sp using False by simp
  qed (simp add: sp del: recommands.simps)
qed simp

lemma ahead_of_le:
  assumes "\<And>x. x \<in> set xs \<Longrightarrow> 0 \<le> x \<and> x \<le> 1" and "j < length xs"
  shows "ahead_of xs j < 2 * length xs"
proof -
  have "ahead xs j i \<le> 2" if "i < length xs" for i
    using assms(1) [of "xs ! i"] assms(1) [of "xs ! j"] assms(2) that by (auto simp: ahead_def)
  then have "ahead_of xs j \<le> (\<Sum>i \<in> {..<length xs} - {j}. 2)" unfolding ahead_of_def by (intro sum_mono) simp
  also have "\<dots> < 2 * length xs" using assms(2) by simp
  finally show ?thesis .
qed

lemma scores_by_mode2:
  "x \<in> set (getBehaviorScoresByMode2 mode a b) \<Longrightarrow> bs_Mode x = mode \<and> 0 \<le> bs_Index x \<and>
     bs_Index x < int (length (getBehaviorByMode mode)) \<and> (bs_Score x = a \<or> bs_Score x = b)"
  by (auto simp: getBehaviorScoresByMode2_def Let_def)

lemma fresh_scores:
  assumes "x \<in> set (mh_scores (NewMakeHoleRecords now c v))"
  shows "0 \<le> bs_Mode x \<and> bs_Mode x \<le> 4 \<and> 0 \<le> bs_Index x \<and> bs_Index x < int (length (getBehaviorByMode (bs_Mode x))) \<and>
    0 \<le> bs_Score x \<and> bs_Score x \<le> 1"
proof -
  have "\<exists>m \<in> {0, 1, 2, 3, 4}. \<exists>a \<in> {0, 1}. \<exists>b \<in> {0, 1}. x \<in> set (getBehaviorScoresByMode2 m a b)"
    using assms by (auto simp: NewMakeHoleRecords_def mode0_scores_def getBehaviorScoresByMode_def Let_def split: prod.splits if_splits)
  then obtain m a b where "m \<in> {0, 1, 2, 3, 4 :: int}" "a \<in> {0, 1 :: int}" "b \<in> {0, 1 :: int}"
    "x \<in> set (getBehaviorScoresByMode2 m a b)" by blast
  with scores_by_mode2 [OF this(4)] show ?thesis by auto
qed



text \<open>A library that does what is documented, for the examples.\<close>

fun max_pos :: "('a \<Rightarrow> 'a \<Rightarrow> bool) \<Rightarrow> 'a \<Rightarrow> nat \<Rightarrow> nat \<Rightarrow> 'a list \<Rightarrow> nat" where
  "max_pos cmp m i k [] = i"
| "max_pos cmp m i k (x # xs) = (if cmp x m then max_pos cmp x k (Suc k) xs else max_pos cmp m i (Suc k) xs)"

definition demo_lo :: lo_lib where
  "demo_lo = \<lparr>lo_Contains = (\<lambda>xs x. x \<in> set xs), lo_Uniq = rev \<circ> remdups \<circ> rev, lo_Max = (\<lambda>xs. fold max (tl xs) (hd xs)),
     lo_Min = (\<lambda>xs. fold min (tl xs) (hd xs)), lo_Last = (\<lambda>xs. if xs = [] then None else Some (last xs)),
     lo_MaxBy = (\<lambda>l cmp. case l of [] \<Rightarrow> None | x # xs \<Rightarrow> Some (max_pos cmp x 0 1 xs))\<rparr>"

lemma max_pos_first_max:
  assumes "first_max (map f pre) i" and "pre ! i = m"
  shows "first_max (map f (pre @ xs)) (max_pos (\<lambda>a b. f a > (f b :: int)) m i (length pre) xs)"
  using assms
proof (induction xs arbitrary: pre i m)
  case (Cons x xs)
  have fm: "first_max (map f (pre @ [x])) (if f x > f m then length pre else i)"
    using Cons.prems by (auto simp: first_max_def nth_append less_Suc_eq)
  have "(pre @ [x]) ! (if f x > f m then length pre else i) = (if f x > f m then x else m)"
    using Cons.prems by (auto simp: first_max_def nth_append)
  from Cons.IH [OF fm this] show ?case by (auto split: if_splits)
qed simp

lemma fold_max_Max: "fold max xs (x :: int) = Max (insert x (set xs))" "fold min xs x = Min (insert x (set xs))"
  using Max.set_eq_fold [of x xs] Min.set_eq_fold [of x xs] by simp_all

lemma demo_lo_ok: "lo_ok demo_lo"
  unfolding lo_ok_def
proof (intro conjI allI impI)
  fix l :: "behavior_score list" and f :: "behavior_score \<Rightarrow> int"
  assume "l \<noteq> []"
  then obtain x xs where l: "l = x # xs" by (cases l) auto
  have "first_max (map f [x]) 0" by (simp add: first_max_def)
  from max_pos_first_max [OF this, of x xs] show "\<exists>i. lo_MaxBy demo_lo l (\<lambda>a b. f a > f b) = Some i \<and> first_max (map f l) i"
    by (simp add: demo_lo_def l)
next
  fix xs :: "int list"
  assume "xs \<noteq> []"
  then obtain y ys where "xs = y # ys" by (cases xs) auto
  then show "lo_Max demo_lo xs = Max (set xs)" "lo_Min demo_lo xs = Min (set xs)"
    by (simp_all add: demo_lo_def fold_max_Max)
qed (auto simp: demo_lo_def)


lemma length_modes: "getBehaviorByMode m \<noteq> []"
  by (simp add: getBehaviorByMode_def mode0Behaviors_def mode1Behaviors_def mode2Behaviors_def mode3Behaviors_def mode4Behaviors_def)

definition demo_feature :: "bool \<Rightarrow> nat_feature" where
  "demo_feature public = \<lparr>nf_NatType = EasyNAT, nf_Behavior = BehaviorNoChange, nf_PortsDifference = 0,
     nf_RegularPortsChange = False, nf_PublicNetwork = public\<rparr>"

lemma demo_mode0: "mode0Behaviors = getBehaviorByMode 0" "length (getBehaviorByMode 0) = 10"
  by (simp_all add: getBehaviorByMode_def mode0Behaviors_def)


text \<open>Each recommendation lowers the sum of the scores by one, and nothing bounds it from below.\<close>

lemma sum_list_decrement: "i < length xs \<Longrightarrow> sum_list (xs[i := xs ! i - 1]) = sum_list xs - (1 :: int)"
proof (induction xs arbitrary: i)
  case (Cons x xs)
  then show ?case by (cases i) simp_all
qed simp

lemma recommands_sum:
  assumes "lo_ok lo" and "mh_scores r \<noteq> []"
  shows "sum_list (map bs_Score (mh_scores (snd (recommands lo nows r)))) = sum_list (map bs_Score (mh_scores r)) - int (length nows) \<and>
    length (mh_scores (snd (recommands lo nows r))) = length (mh_scores r)"
  using assms(2)
proof (induction nows arbitrary: r)
  case (Cons now nows)
  let ?s = "mh_scores r"
  from Recommand_pick [OF assms(1) Cons.prems, of now] obtain i where i: "first_max (map bs_Score ?s) i"
    and rec: "Recommand lo now r = ((bs_Mode (?s ! i), bs_Index (?s ! i)),
      r\<lparr>mh_scores := ?s[i := (?s ! i)\<lparr>bs_Score := bs_Score (?s ! i) - 1\<rparr>], mh_LastUpdateTime := now\<rparr>)"
    (is "_ = (_, ?r)") by blast
  have li: "i < length (map bs_Score ?s)" using i by (simp add: first_max_def)
  then have "sum_list (map bs_Score (mh_scores ?r)) = sum_list (map bs_Score ?s) - 1"
    using sum_list_decrement [OF li] by (simp add: map_update)
  moreover have "mh_scores ?r \<noteq> []" using Cons.prems by simp
  moreover have "snd (recommands lo (now # nows) r) = snd (recommands lo nows ?r)" by (simp add: rec case_prod_beta Let_def)
  ultimately show ?case using Cons.IH [of ?r] by simp
qed simp

text \<open>
  The scores are documented to lie between -10 and 10; only the upper bound is kept.
\<close>

theorem score_below_minus_ten:
  assumes "lo_ok lo" and "length nows > 11 * length (mh_scores (NewMakeHoleRecords now c v))"
    and "mh_scores (NewMakeHoleRecords now c v) \<noteq> []"
  shows "\<exists>s \<in> set (mh_scores (snd (recommands lo nows (NewMakeHoleRecords now c v)))). bs_Score s < -10"
proof (rule ccontr)
  let ?r = "NewMakeHoleRecords now c v"
  let ?q = "snd (recommands lo nows ?r)"
  assume "\<not> ?thesis"
  then have "(\<Sum>s \<leftarrow> mh_scores ?q. - 10) \<le> (\<Sum>s \<leftarrow> mh_scores ?q. bs_Score s)" by (intro sum_list_mono) force
  moreover have "(\<Sum>s \<leftarrow> mh_scores ?r. bs_Score s) \<le> (\<Sum>s \<leftarrow> mh_scores ?r. 1)"
    using fresh_scores [of _ now c v] by (intro sum_list_mono) simp
  ultimately show False using recommands_sum [OF assms(1,3), of nows] assms(2) by (simp add: sum_list_triv)
qed

section \<open>What both sides are told\<close>

definition pair_ok :: "int \<Rightarrow> behavior_pair \<Rightarrow> bool" where
  "pair_ok mode p \<longleftrightarrow>
     (rb_Role (fst p) = ''sender'' \<and> rb_Role (snd p) = ''receiver'' \<or>
      rb_Role (fst p) = ''receiver'' \<and> rb_Role (snd p) = ''sender'') \<and>
     (mode \<in> {1, 2, 4} \<longrightarrow> rb_Role (fst p) = ''sender'') \<and>
     0 \<le> rb_SendDelayMs (fst p) \<and> 0 \<le> rb_SendDelayMs (snd p) \<and>
     rb_PortsRangeNumber (fst p) \<le> 10 \<and> rb_PortsRangeNumber (snd p) \<le> 10"

lemma modes_ok: "0 \<le> mode \<Longrightarrow> mode \<le> 4 \<Longrightarrow> list_all (pair_ok mode) (getBehaviorByMode mode)"
proof -
  assume "0 \<le> mode" "mode \<le> 4"
  then have "mode \<in> {0, 1, 2, 3, 4}" by auto
  then show ?thesis
    by (elim insertE emptyE) (simp_all add: getBehaviorByMode_def mode0Behaviors_def mode1Behaviors_def mode2Behaviors_def
        mode3Behaviors_def mode4Behaviors_def pair_ok_def sender_def receiver_def no_behavior_def)
qed

definition score_ok :: "behavior_score \<Rightarrow> bool" where
  "score_ok s \<longleftrightarrow> 0 \<le> bs_Mode s \<and> bs_Mode s \<le> 4 \<and> 0 \<le> bs_Index s \<and> bs_Index s < int (length (getBehaviorByMode (bs_Mode s)))"

definition records_ok :: "make_hole_records \<Rightarrow> bool" where
  "records_ok r \<longleftrightarrow> mh_scores r \<noteq> [] \<and> list_all score_ok (mh_scores r)"

definition nathole_inv :: "nathole_ctl \<Rightarrow> bool" where
  "nathole_inv c \<longleftrightarrow> (\<forall>key r. az_records (nc_analyzer c) key = Some r \<longrightarrow> records_ok r) \<and>
     (\<forall>sid s. nc_sessions c sid = Some s \<longrightarrow> ss_sid s = sid)"

lemma fresh_ok [inv_intros]: "records_ok (NewMakeHoleRecords now c v)"
proof -
  have ne: "getBehaviorScoresByMode2 m a b \<noteq> []" for m a b
    using length_modes [of m] by (simp add: getBehaviorScoresByMode2_def Let_def)
  then have "mh_scores (NewMakeHoleRecords now c v) \<noteq> []"
    by (auto simp: NewMakeHoleRecords_def mode0_scores_def getBehaviorScoresByMode_def Let_def split: prod.splits)
  then show ?thesis
    using fresh_scores [of _ now c v] by (auto simp: records_ok_def score_ok_def list_all_iff)
qed

lemma report_loop_ok: "list_all score_ok ss \<Longrightarrow> list_all score_ok (report_loop lo mode index ss) \<and> (report_loop lo mode index ss = [] \<longleftrightarrow> ss = [])"
  by (induction ss) (auto simp: score_ok_def)

lemma mhr_ReportSuccess_ok [inv_intros]: "records_ok r \<Longrightarrow> records_ok (mhr_ReportSuccess lo now mode index r)"
  using report_loop_ok [of "mh_scores r" lo mode index] by (simp add: records_ok_def mhr_ReportSuccess_def)

text \<open>What is recommended is one of the pairs of the mode.\<close>

lemma Recommand_ok:
  assumes "lo_ok lo" and "records_ok r" and "Recommand lo now r = ((mode, index), r')"
  shows "records_ok r'" "0 \<le> mode" "mode \<le> 4" "pair_ok mode (getBehaviorByModeAndIndex mode index)"
proof -
  let ?s = "mh_scores r"
  have ne: "?s \<noteq> []" and all: "list_all score_ok ?s" using assms(2) by (simp_all add: records_ok_def)
  from Recommand_pick [OF assms(1) ne, of now] obtain i where i: "first_max (map bs_Score ?s) i"
    and rec: "Recommand lo now r = ((bs_Mode (?s ! i), bs_Index (?s ! i)),
      r\<lparr>mh_scores := ?s[i := (?s ! i)\<lparr>bs_Score := bs_Score (?s ! i) - 1\<rparr>], mh_LastUpdateTime := now\<rparr>)" by blast
  have li: "i < length ?s" using i by (simp add: first_max_def)
  then have si: "score_ok (?s ! i)" using all by (simp add: list_all_length)
  have "list_all score_ok (?s[i := (?s ! i)\<lparr>bs_Score := bs_Score (?s ! i) - 1\<rparr>])"
    using all si by (auto simp: list_all_iff score_ok_def dest!: set_update_subset_insert [THEN subsetD])
  then show "records_ok r'" using assms(3) ne by (auto simp: rec records_ok_def)
  show m: "0 \<le> mode" "mode \<le> 4" using si assms(3) by (auto simp: rec score_ok_def)
  have "0 \<le> index" "index < int (length (getBehaviorByMode mode))" using si assms(3) by (auto simp: rec score_ok_def)
  then show "pair_ok mode (getBehaviorByModeAndIndex mode index)"
    using modes_ok [OF m] by (simp add: getBehaviorByModeAndIndex_def Let_def list_all_length nat_less_iff)
qed


lemma GetRecommandBehaviors_ok:
  assumes "lo_ok lo" and "\<forall>key r. az_records a key = Some r \<longrightarrow> records_ok r"
    and g: "GetRecommandBehaviors lo now key c v a = ((mode, index, cb, vb), a')"
  shows "az_records a' key' = Some r \<Longrightarrow> records_ok r"
    and "0 \<le> mode" "mode \<le> 4" "\<exists>p. pair_ok mode p \<and> (cb, vb) = assign_roles mode c p"
proof -
  let ?r = "case az_records a key of None \<Rightarrow> NewMakeHoleRecords now c v | Some r \<Rightarrow> r"
  obtain r' where rc: "Recommand lo now ?r = ((mode, index), r')"
    and p: "(cb, vb) = assign_roles mode c (getBehaviorByModeAndIndex mode index)"
    and a': "a' = a\<lparr>az_records := (az_records a)(key \<mapsto> r')\<rparr>"
    using g by (auto simp: GetRecommandBehaviors_def Let_def split: prod.splits)
  have "records_ok ?r" using assms(2) fresh_ok by (auto split: option.splits)
  note ok = Recommand_ok [OF assms(1) this rc]
  show "records_ok r" if "az_records a' key' = Some r"
    using that ok(1) assms(2) by (auto simp: a' split: if_splits)
  show "0 \<le> mode" "mode \<le> 4" "\<exists>p. pair_ok mode p \<and> (cb, vb) = assign_roles mode c p" using ok(2-4) p by blast+
qed

lemma nathole_step_inv [inv_intros]:
  assumes "nathole_step c c'" and inv: "nathole_inv c"
  shows "nathole_inv c'"
  using assms(1)
proof cases
  case (decide lo md5 err_text now sid)
  show ?thesis
  proof (cases "nc_sessions c sid")
    case (Some s)
    have sid: "ss_sid s = sid" using inv Some by (simp add: nathole_inv_def)
    have "nathole_inv (c\<lparr>nc_sessions := (nc_sessions c)(sid \<mapsto> s'), nc_analyzer := a'\<rparr>)"
      if a: "analysis md5 lo now s cm (nc_analyzer c) = (Inr resps, s', a')" for cm resps s' a'
    proof -
      from a obtain key fc fv mode index cb vb where
        g: "GetRecommandBehaviors lo now key fc fv (nc_analyzer c) = ((mode, index, cb, vb), a')" and s': "ss_sid s' = sid"
        using sid by (auto simp: analysis_def Let_def split: sum.splits prod.splits)
      show ?thesis
        using GetRecommandBehaviors_ok(1) [OF decide(2) _ g] inv s' by (auto simp: nathole_inv_def)
    qed
    then show ?thesis
      using decide(1) inv Some by (auto simp: HandleVisitor_decide_def split: option.splits sum.splits prod.splits)
  qed (use decide inv in \<open>simp add: HandleVisitor_decide_def\<close>)
next
  case (report lo now sid success)
  then show ?thesis
    using inv by (auto simp: HandleReport_def az_ReportSuccess_def nathole_inv_def mhr_ReportSuccess_ok split: option.splits)
next
  case (visitor md5 lo now rand m user)
  then show ?thesis
    using inv by (auto simp: HandleVisitor_def Let_def nathole_inv_def split: option.splits)
qed (use inv in \<open>auto simp: nathole_inv_def HandleClient_def HandleVisitor_end_def Clean_def split: option.splits if_splits\<close>)

lemma nathole_reachable_inv: "nathole_reachable d c \<Longrightarrow> nathole_inv c"
proof (induction rule: nathole_reachable.induct)
  case start
  show ?case by (simp add: nathole_inv_def NewNatholeController_def NewAnalyzer_def)
qed (rule nathole_step_inv)

text \<open>The decision for two sides whose NATs could be classified.\<close>

lemma decide_responses:
  assumes "nathole_reachable d c" and "lo_ok lo" and "nc_sessions c sid = Some s" and "ss_clientMsg s = Some cm"
    and "ClassifyNATFeature lo (nl_MappedAddrs cm) (parseIPs (nl_AssistedAddrs cm)) = Inr fc"
    and "ClassifyNATFeature lo (nv_MappedAddrs (ss_visitorMsg s)) (parseIPs (nv_AssistedAddrs (ss_visitorMsg s))) = Inr fv"
  obtains mode cb vb p c' where "0 \<le> mode" "mode \<le> 4" "pair_ok mode p" "(cb, vb) = assign_roles mode fc p"
    "HandleVisitor_decide md5 lo err_text now sid c =
       (Some (response_to lo (nv_TransactionID (ss_visitorMsg s)) sid (nv_Protocol (ss_visitorMsg s)) mode (timeout_ms lo cb vb) vb
                (nl_MappedAddrs cm) (nl_AssistedAddrs cm) fc,
              response_to lo (nl_TransactionID cm) sid (nv_Protocol (ss_visitorMsg s)) mode (timeout_ms lo cb vb) cb
                (nv_MappedAddrs (ss_visitorMsg s)) (nv_AssistedAddrs (ss_visitorMsg s)) fv), c')"
proof -
  let ?key = "genAnalysisKey md5 lo (ss_visitorMsg s) cm fv fc"
  obtain mode index cb vb a' where
    g: "GetRecommandBehaviors lo now ?key fc fv (nc_analyzer c) = ((mode, index, cb, vb), a')"
    by (metis surj_pair)
  have inv: "nathole_inv c" using nathole_reachable_inv [OF assms(1)] .
  then have sid: "ss_sid s = sid" using assms(3) by (simp add: nathole_inv_def)
  have "\<forall>key r. az_records (nc_analyzer c) key = Some r \<longrightarrow> records_ok r" using inv by (simp add: nathole_inv_def)
  note ok = GetRecommandBehaviors_ok(2-4) [OF assms(2) this g]
  from ok(3) obtain p where p: "pair_ok mode p" "(cb, vb) = assign_roles mode fc p" by blast
  have "fst (HandleVisitor_decide md5 lo err_text now sid c) =
      Some (response_to lo (nv_TransactionID (ss_visitorMsg s)) sid (nv_Protocol (ss_visitorMsg s)) mode (timeout_ms lo cb vb) vb
                (nl_MappedAddrs cm) (nl_AssistedAddrs cm) fc,
              response_to lo (nl_TransactionID cm) sid (nv_Protocol (ss_visitorMsg s)) mode (timeout_ms lo cb vb) cb
                (nv_MappedAddrs (ss_visitorMsg s)) (nv_AssistedAddrs (ss_visitorMsg s)) fv)"
    by (simp add: HandleVisitor_decide_def analysis_def Let_def assms(3-6) g sid)
  then show ?thesis by (intro that [OF ok(1,2) p, of "snd (HandleVisitor_decide md5 lo err_text now sid c)"])
      (simp only: prod_eq_iff fst_conv snd_conv)
qed

text \<open>
  (C38) Two sides that are told to punch a hole are told complementary things: the same mode
  and session, one is the sender and the other the receiver, and each gets the addresses of
  the other. In mode 1 the side behind the hard NAT sends, in mode 2 it receives, and in mode
  4 the side whose ports change regularly sends.
\<close>

theorem hole_roles:
  assumes "nathole_reachable d c" and "lo_ok lo" and "nc_sessions c sid = Some s" and "ss_clientMsg s = Some cm"
    and "ClassifyNATFeature lo (nl_MappedAddrs cm) (parseIPs (nl_AssistedAddrs cm)) = Inr fc"
    and "ClassifyNATFeature lo (nv_MappedAddrs (ss_visitorMsg s)) (parseIPs (nv_AssistedAddrs (ss_visitorMsg s))) = Inr fv"
  shows "\<exists>vR cR c'. HandleVisitor_decide md5 lo err_text now sid c = (Some (vR, cR), c') \<and>
    (let v = nr_DetectBehavior vR; k = nr_DetectBehavior cR in
     nr_Sid vR = sid \<and> nr_Sid cR = sid \<and> db_Mode v = db_Mode k \<and>
     (db_Role v = ''sender'' \<and> db_Role k = ''receiver'' \<or> db_Role v = ''receiver'' \<and> db_Role k = ''sender'') \<and>
     set (nr_CandidateAddrs vR) = set (nl_MappedAddrs cm) \<and> set (nr_CandidateAddrs cR) = set (nv_MappedAddrs (ss_visitorMsg s)) \<and>
     (db_Mode k = 1 \<longrightarrow> (db_Role k = ''sender'' \<longleftrightarrow> nf_NatType fc = HardNAT)) \<and>
     (db_Mode k = 2 \<longrightarrow> (db_Role k = ''sender'' \<longleftrightarrow> nf_NatType fc = EasyNAT)) \<and>
     (db_Mode k = 4 \<longrightarrow> (db_Role k = ''sender'' \<longleftrightarrow> nf_RegularPortsChange fc)))"
proof -
  from assms obtain mode cb vb p c' where m: "0 \<le> mode" "mode \<le> 4" "pair_ok mode p" "(cb, vb) = assign_roles mode fc p"
    and h: "HandleVisitor_decide md5 lo err_text now sid c =
       (Some (response_to lo (nv_TransactionID (ss_visitorMsg s)) sid (nv_Protocol (ss_visitorMsg s)) mode (timeout_ms lo cb vb) vb
                (nl_MappedAddrs cm) (nl_AssistedAddrs cm) fc,
              response_to lo (nl_TransactionID cm) sid (nv_Protocol (ss_visitorMsg s)) mode (timeout_ms lo cb vb) cb
                (nv_MappedAddrs (ss_visitorMsg s)) (nv_AssistedAddrs (ss_visitorMsg s)) fv), c')"
    by (rule decide_responses)
  obtain a b where p: "p = (a, b)" by force
  have nt: "nf_NatType fc \<noteq> HardNAT \<longleftrightarrow> nf_NatType fc = EasyNAT" by (cases "nf_NatType fc") simp_all
  have roles: "(rb_Role vb = ''sender'' \<and> rb_Role cb = ''receiver'' \<or> rb_Role vb = ''receiver'' \<and> rb_Role cb = ''sender'')"
    "mode = 1 \<Longrightarrow> rb_Role cb = ''sender'' \<longleftrightarrow> nf_NatType fc = HardNAT"
    "mode = 2 \<Longrightarrow> rb_Role cb = ''sender'' \<longleftrightarrow> nf_NatType fc = EasyNAT"
    "mode = 4 \<Longrightarrow> rb_Role cb = ''sender'' \<longleftrightarrow> nf_RegularPortsChange fc"
    using m(3,4) nt by (auto simp: p pair_ok_def assign_roles_def split: if_splits)
  show ?thesis
    unfolding h using roles by (simp add: response_to_def Let_def lo_okD(2) [OF assms(2)])
qed



text \<open>
  The users who may visit a proxy are checked only by the request that precedes the visit. A
  visitor that leaves it out, or goes on after its refusal, is served whoever it is, if it
  knows the secret key.
\<close>

theorem visitor_user_unchecked:
  assumes "lo_ok lo" and "nc_clientCfgs c (nv_ProxyName m) = Some cfg"
    and "visitorUser \<notin> set (cc_allowUsers cfg)" and "''*'' \<notin> set (cc_allowUsers cfg)"
    and "nv_SignKey m = GetAuthKey md5 (cc_sk cfg) (nv_Timestamp m)"
  shows "(\<exists>resp. fst (HandleVisitor md5 lo now rand (m\<lparr>nv_PreCheck := True\<rparr>) visitorUser c) = Answered resp \<and> nr_Error resp \<noteq> '''') \<and>
    fst (HandleVisitor md5 lo now rand (m\<lparr>nv_PreCheck := False\<rparr>) visitorUser c) = Waiting (GenSid now rand)"
  using assms by (simp add: HandleVisitor_def Let_def lo_okD(1) GenNatHoleResponse_def ConstantTimeEqString_iff)

definition demo_nv :: nh_visitor where
  "demo_nv = \<lparr>nv_TransactionID = ''t1'', nv_ProxyName = ''p2p'', nv_PreCheck = False, nv_Protocol = ''quic'',
     nv_SignKey = GetAuthKey (map of_char) ''k'' 7, nv_Timestamp = 7, nv_MappedAddrs = [''1.2.3.4:50'', ''1.2.3.4:50''],
     nv_AssistedAddrs = []\<rparr>"

definition demo_nl :: nh_client where
  "demo_nl = \<lparr>nl_TransactionID = ''t2'', nl_ProxyName = ''p2p'', nl_Sid = ''7'', nl_MappedAddrs = [''5.6.7.8:60'', ''5.6.7.8:63''],
     nl_AssistedAddrs = []\<rparr>"

definition demo_nc1 :: nathole_ctl where
  "demo_nc1 = (NewNatholeController 0)\<lparr>nc_clientCfgs := snd (ListenClient Map.empty ''p2p'' ''k'' [''alice''])\<rparr>"

definition demo_nc2 :: nathole_ctl where
  "demo_nc2 = snd (HandleVisitor (map of_char) demo_lo 7 (\<lambda>_. None) demo_nv ''alice'' demo_nc1)"

definition demo_nc3 :: nathole_ctl where
  "demo_nc3 = HandleClient demo_nl demo_nc2"

theorem visitor_user_unchecked_witness:
  "fst (HandleVisitor (map of_char) demo_lo 7 (\<lambda>_. None) (demo_nv\<lparr>nv_PreCheck := False\<rparr>) ''mallory'' demo_nc1) =
     Waiting (GenSid 7 (\<lambda>_. None))"
  using visitor_user_unchecked [OF demo_lo_ok, of demo_nc1 demo_nv "\<lparr>cc_name = ''p2p'', cc_sk = ''k'', cc_allowUsers = [''alice'']\<rparr>"
      "''mallory''" "map of_char" 7 "\<lambda>_. None"]
  by (simp add: demo_nc1_def ListenClient_def demo_nv_def)

lemma demo_nc3_reachable: "nathole_reachable 0 demo_nc3"
proof -
  have "nathole_reachable 0 demo_nc1"
    using nathole_reachable.step [OF nathole_reachable.start nathole_step.listen [of "NewNatholeController 0" "''p2p''" "''k''" "[''alice'']"]]
    by (simp add: demo_nc1_def NewNatholeController_def)
  then have "nathole_reachable 0 demo_nc2" unfolding demo_nc2_def by (rule nathole_reachable.step [OF _ nathole_step.visitor])
  then show ?thesis unfolding demo_nc3_def by (rule nathole_reachable.step [OF _ nathole_step.client])
qed

lemma demo_nc3_session: "\<exists>s. nc_sessions demo_nc3 ''7'' = Some s \<and> ss_clientMsg s = Some demo_nl \<and> ss_visitorMsg s = demo_nv"
proof -
  have "GenSid 7 (\<lambda>_. None) = ''7''"
    by code_simp
  then show ?thesis
    by (simp add: demo_nc3_def demo_nc2_def demo_nc1_def HandleClient_def HandleVisitor_def ListenClient_def demo_nv_def demo_nl_def
        ConstantTimeEqString_iff NewNatholeController_def Let_def)
qed

lemma demo_classify:
  "\<exists>f. ClassifyNATFeature demo_lo (nl_MappedAddrs demo_nl) (parseIPs (nl_AssistedAddrs demo_nl)) = Inr f \<and> nf_NatType f = HardNAT"
  "\<exists>f. ClassifyNATFeature demo_lo (nv_MappedAddrs demo_nv) (parseIPs (nv_AssistedAddrs demo_nv)) = Inr f"
  by (simp_all add: demo_nl_def demo_nv_def ClassifyNATFeature_def parseIPs_def classify_addr_def split_host_port_def
      last_index_of_def parse_int_def parse_sign_def digit_val_def start_state_def demo_lo_def nat_feature_of_def Let_def)

theorem hole_roles_witness:
  "\<exists>vR cR c'. HandleVisitor_decide (map of_char) demo_lo (\<lambda>_. '''') 8 ''7'' demo_nc3 = (Some (vR, cR), c') \<and>
     db_Role (nr_DetectBehavior vR) \<noteq> db_Role (nr_DetectBehavior cR)"
proof -
  from demo_nc3_session obtain s where s: "nc_sessions demo_nc3 ''7'' = Some s" "ss_clientMsg s = Some demo_nl" "ss_visitorMsg s = demo_nv"
    by blast
  from demo_classify obtain f g where "ClassifyNATFeature demo_lo (nl_MappedAddrs demo_nl) (parseIPs (nl_AssistedAddrs demo_nl)) = Inr f"
    "ClassifyNATFeature demo_lo (nv_MappedAddrs demo_nv) (parseIPs (nv_AssistedAddrs demo_nv)) = Inr g" by blast
  from hole_roles [OF demo_nc3_reachable demo_lo_ok s(1,2) this [folded s(3)]] show ?thesis by (auto simp: Let_def) fastforce
qed


end
