(* ===== verification/Frp_Proxy.thy ===== *)
theory Frp_Proxy
  imports Frp_TcpGroup Frp_Nathole Frp_Config
begin

text \<open>
  The proxies on the server (\<open>server/proxy/*.go\<close>) over the shared resources
  (\<open>server/controller/resource.go\<close>): what \<open>Run\<close> takes of the port managers, routers, groups
  and listener tables, and what \<open>Close\<close> gives back; and the table of all proxies
  (\<open>proxy.Manager\<close>). The goroutines that move bytes are not modelled. A listener is the
  part of it that its \<open>Close\<close> uses.
\<close>

section \<open>Resources\<close>

text \<open>
  \<open>ResourceController\<close>. The TCP port manager is the one of the TCP groups, the router of the
  HTTP reverse proxy the one of the HTTP groups, the router of the multiplexer the one of
  its groups. \<open>re_next\<close> numbers the listeners.
\<close>

record resources =
  re_tcp :: tcp_group_ctl
  re_udp :: port_manager
  re_http :: http_group_ctl
  re_https :: mux_router
  re_mux :: mux_group_ctl
  re_visitors :: visitor_manager
  re_nathole :: "nathole_clients option"
  re_next :: nat

text \<open>The resources of a new server, \<open>NewService\<close>; the nat hole controller always exists.\<close>

definition NewResources :: "int set \<Rightarrow> resources" where
  "NewResources allowPorts = \<lparr>re_tcp = NewTCPGroupCtl (NewPortManager allowPorts),
     re_udp = NewPortManager allowPorts, re_http = NewHTTPGroupController NewRouters, re_https = NewRouters,
     re_mux = NewTCPMuxGroupCtl NewRouters, re_visitors = Map.empty, re_nathole = Some Map.empty, re_next = 0\<rparr>"

text \<open>The operating system and the clock during one call.\<close>

record run_env =
  en_avail :: "nat \<Rightarrow> int \<Rightarrow> bool"
  en_order :: "int list"
  en_now :: int
  en_listen_ok :: bool

section \<open>Proxies\<close>

datatype listener =
    NetListener int
  | TCPGroupListener nat nat
  | HTTPSListener mux_listener
  | MuxListener mux_listener
  | MuxGroupListener nat nat
  | InternalListener nat

datatype close_fn = GroupUnRegister string string | RouteUnRegister route_config

record proxy_obj =
  px_name :: string
  px_user :: string
  px_cfg :: proxy_conf
  px_usedPortsNum :: int
  px_listeners :: "listener list"
  px_realBindPort :: int
  px_closeFuncs :: "close_fn list"
  px_isClosed :: bool

datatype run_error =
    RunAcquire port_error
  | RunListen
  | RunTCPGroup listen_error
  | RunGroup group_error
  | RunRouter router_error
  | RunMuxGroup mux_listen_error
  | RunMultiplexer string
  | RunVisitor visitor_error
  | RunNoNatHole
  | RunClientRepeated string

text \<open>\<open>NewProxy\<close> with the factories of all types: TCP and UDP proxies use one port.\<close>

fun used_ports_num :: "proxy_conf \<Rightarrow> int" where
  "used_ports_num (TCPProxyConf _ _) = 1"
| "used_ports_num (UDPProxyConf _ _) = 1"
| "used_ports_num _ = 0"

definition NewProxy :: "string \<Rightarrow> proxy_conf \<Rightarrow> proxy_obj" where
  "NewProxy user cfg = \<lparr>px_name = bc_ProxyName (GetBaseConfig cfg), px_user = user, px_cfg = cfg,
     px_usedPortsNum = used_ports_num cfg, px_listeners = [], px_realBindPort = 0, px_closeFuncs = [],
     px_isClosed = False\<rparr>"

section \<open>Closing\<close>

fun listener_Close :: "int \<Rightarrow> resources \<Rightarrow> listener \<Rightarrow> resources" where
  "listener_Close now re (NetListener _) = re"
| "listener_Close now re (TCPGroupListener gid ln) = re\<lparr>re_tcp := tcp_CloseListener now (re_tcp re) gid ln\<rparr>"
| "listener_Close now re (HTTPSListener l) = re\<lparr>re_https := mux_Listener_Close (re_https re) l\<rparr>"
| "listener_Close now re (MuxListener l) =
     re\<lparr>re_mux := (re_mux re)\<lparr>mc_router := mux_Listener_Close (mc_router (re_mux re)) l\<rparr>\<rparr>"
| "listener_Close now re (MuxGroupListener gid ln) = re\<lparr>re_mux := mux_CloseListener (re_mux re) gid ln\<rparr>"
| "listener_Close now re (InternalListener _) = re"

definition BaseProxy_Close :: "int \<Rightarrow> resources \<Rightarrow> proxy_obj \<Rightarrow> resources" where
  "BaseProxy_Close now re px = foldl (listener_Close now) re (px_listeners px)"

fun run_close_fn :: "resources \<Rightarrow> close_fn \<Rightarrow> resources" where
  "run_close_fn re (GroupUnRegister name grp) = re\<lparr>re_http := http_ctl_UnRegister (re_http re) name grp\<rparr>"
| "run_close_fn re (RouteUnRegister cfg) =
     re\<lparr>re_http := (re_http re)\<lparr>hc_router := rp_UnRegister (hc_router (re_http re)) cfg\<rparr>\<rparr>"

definition release_tcp :: "int \<Rightarrow> resources \<Rightarrow> int \<Rightarrow> resources" where
  "release_tcp now re port = re\<lparr>re_tcp := (re_tcp re)\<lparr>tc_ports := Release now (tc_ports (re_tcp re)) port\<rparr>\<rparr>"

definition TCPProxy_Close :: "int \<Rightarrow> resources \<Rightarrow> proxy_obj \<Rightarrow> resources" where
  "TCPProxy_Close now re px =
     (let re = BaseProxy_Close now re px
      in if bc_Group (GetBaseConfig (px_cfg px)) = '''' then release_tcp now re (px_realBindPort px) else re)"

definition UDPProxy_Close :: "int \<Rightarrow> resources \<Rightarrow> proxy_obj \<Rightarrow> proxy_obj \<times> resources" where
  "UDPProxy_Close now re px =
     (let (px, re) = (if \<not> px_isClosed px then (px\<lparr>px_isClosed := True\<rparr>, BaseProxy_Close now re px) else (px, re))
      in (px, re\<lparr>re_udp := Release now (re_udp re) (px_realBindPort px)\<rparr>))"

definition HTTPProxy_Close :: "int \<Rightarrow> resources \<Rightarrow> proxy_obj \<Rightarrow> resources" where
  "HTTPProxy_Close now re px = foldl run_close_fn (BaseProxy_Close now re px) (px_closeFuncs px)"

definition STCPProxy_Close :: "int \<Rightarrow> resources \<Rightarrow> proxy_obj \<Rightarrow> resources" where
  "STCPProxy_Close now re px =
     (let re = BaseProxy_Close now re px in re\<lparr>re_visitors := visitor_CloseListener (re_visitors re) (px_name px)\<rparr>)"

text \<open>\<open>closeCh\<close> is never made; the panic of \<open>close(nil)\<close> is swallowed.\<close>

definition XTCPProxy_Close :: "int \<Rightarrow> resources \<Rightarrow> proxy_obj \<Rightarrow> resources" where
  "XTCPProxy_Close now re px =
     (let re = BaseProxy_Close now re px
      in re\<lparr>re_nathole := map_option (\<lambda>cs. nathole_CloseClient cs (px_name px)) (re_nathole re)\<rparr>)"

definition proxy_Close :: "int \<Rightarrow> resources \<Rightarrow> proxy_obj \<Rightarrow> proxy_obj \<times> resources" where
  "proxy_Close now re px =
     (case px_cfg px of
        TCPProxyConf _ _ \<Rightarrow> (px, TCPProxy_Close now re px)
      | UDPProxyConf _ _ \<Rightarrow> UDPProxy_Close now re px
      | HTTPProxyConf _ _ _ \<Rightarrow> (px, HTTPProxy_Close now re px)
      | HTTPSProxyConf _ _ \<Rightarrow> (px, BaseProxy_Close now re px)
      | TCPMuxProxyConf _ _ _ \<Rightarrow> (px, BaseProxy_Close now re px)
      | STCPProxyConf _ _ \<Rightarrow> (px, STCPProxy_Close now re px)
      | SUDPProxyConf _ _ \<Rightarrow> (px, STCPProxy_Close now re px)
      | XTCPProxyConf _ _ \<Rightarrow> (px, XTCPProxy_Close now re px))"

section \<open>Starting\<close>

type_synonym run_result = "(run_error + string \<times> proxy_obj) \<times> resources"

definition port_addr :: "int \<Rightarrow> string" where
  "port_addr port = '':'' @ show_int port"

definition TCPProxy_Run :: "server_conf \<Rightarrow> run_env \<Rightarrow> resources \<Rightarrow> proxy_obj \<Rightarrow> base_proxy_conf \<Rightarrow> int \<Rightarrow> run_result" where
  "TCPProxy_Run sc en re px b port =
     (if bc_Group b \<noteq> '''' then
        (case tcp_ctl_Listen (en_avail en) (en_order en) (en_now en) (en_listen_ok en) (re_tcp re)
                (px_name px) (bc_Group b) (bc_GroupKey b) (sc_ProxyBindAddr sc) port of
           (Inl e, c) \<Rightarrow> (Inl (RunTCPGroup e), re\<lparr>re_tcp := c\<rparr>)
         | (Inr ((gid, ln), realBindPort), c) \<Rightarrow>
             (Inr (port_addr realBindPort,
                   px\<lparr>px_realBindPort := realBindPort, px_listeners := px_listeners px @ [TCPGroupListener gid ln],
                      px_cfg := TCPProxyConf b realBindPort\<rparr>), re\<lparr>re_tcp := c\<rparr>))
      else
        (case Acquire (en_avail en) (en_order en) (en_now en) (tc_ports (re_tcp re)) (px_name px) port of
           (Inl e, pm) \<Rightarrow> (Inl (RunAcquire e), re\<lparr>re_tcp := (re_tcp re)\<lparr>tc_ports := pm\<rparr>\<rparr>)
         | (Inr realBindPort, pm) \<Rightarrow>
             (let re = re\<lparr>re_tcp := (re_tcp re)\<lparr>tc_ports := pm\<rparr>\<rparr>
              in if \<not> en_listen_ok en then (Inl RunListen, release_tcp (en_now en) re realBindPort)
                 else (Inr (port_addr realBindPort,
                       px\<lparr>px_realBindPort := realBindPort, px_listeners := px_listeners px @ [NetListener realBindPort],
                          px_cfg := TCPProxyConf b realBindPort\<rparr>), re))))"

definition UDPProxy_Run :: "run_env \<Rightarrow> resources \<Rightarrow> proxy_obj \<Rightarrow> base_proxy_conf \<Rightarrow> int \<Rightarrow> run_result" where
  "UDPProxy_Run en re px b port =
     (case Acquire (en_avail en) (en_order en) (en_now en) (re_udp re) (px_name px) port of
        (Inl e, pm) \<Rightarrow> (Inl (RunAcquire e), re\<lparr>re_udp := pm\<rparr>)
      | (Inr realBindPort, pm) \<Rightarrow>
          if \<not> en_listen_ok en then (Inl RunListen, re\<lparr>re_udp := Release (en_now en) pm realBindPort\<rparr>)
          else (Inr (port_addr realBindPort,
                     px\<lparr>px_realBindPort := realBindPort, px_cfg := UDPProxyConf b realBindPort\<rparr>),
                re\<lparr>re_udp := pm\<rparr>))"

text \<open>The routes of an HTTP proxy, in the order of the nested loops of \<open>HTTPProxy.Run\<close>.\<close>

definition http_routes :: "server_conf \<Rightarrow> string \<Rightarrow> domain_conf \<Rightarrow> http_fields \<Rightarrow> route_config list" where
  "http_routes sc name d f =
     (let routeConfig = \<lparr>rc_Domain = '''', rc_Location = '''', rc_RewriteHost = hf_HostHeaderRewrite f,
            rc_Username = hf_HTTPUser f, rc_Password = hf_HTTPPwd f, rc_Headers = hf_Headers f,
            rc_RouteByHTTPUser = hf_RouteByHTTPUser f, rc_CreateConnFn = Some (ProxyRealConn name),
            rc_ChooseEndpointFn = None, rc_CreateConnByEndpointFn = None\<rparr>;
          locations = (if length (hf_Locations f) = 0 then [''''] else hf_Locations f);
          routes_for = (\<lambda>domain. map (\<lambda>location. routeConfig\<lparr>rc_Domain := domain, rc_Location := location\<rparr>) locations)
      in concat (map (\<lambda>domain. if domain = '''' then [] else routes_for domain) (dm_CustomDomains d)) @
         (if dm_SubDomain d \<noteq> '''' then routes_for (dm_SubDomain d @ ''.'' @ sc_SubDomainHost sc) else []))"

definition http_register :: "string \<Rightarrow> base_proxy_conf \<Rightarrow> http_group_ctl \<Rightarrow> route_config \<Rightarrow> (run_error + close_fn) \<times> http_group_ctl" where
  "http_register name b c cfg =
     (if bc_Group b \<noteq> '''' then
        (case http_ctl_Register c name (bc_Group b) (bc_GroupKey b) cfg (ProxyRealConn name) of
           (Some e, c') \<Rightarrow> (Inl (RunGroup e), c')
         | (None, c') \<Rightarrow> (Inr (GroupUnRegister name (bc_Group b)), c'))
      else
        (case rp_Register (hc_router c) cfg of
           (r, Some e) \<Rightarrow> (Inl (RunRouter e), c\<lparr>hc_router := r\<rparr>)
         | (r, None) \<Rightarrow> (Inr (RouteUnRegister cfg), c\<lparr>hc_router := r\<rparr>)))"

fun http_register_loop ::
    "string \<Rightarrow> base_proxy_conf \<Rightarrow> int \<Rightarrow> http_group_ctl \<Rightarrow> route_config list \<Rightarrow> close_fn list \<Rightarrow> string list \<Rightarrow>
     run_error option \<times> http_group_ctl \<times> close_fn list \<times> string list" where
  "http_register_loop name b port c [] fns addrs = (None, c, fns, addrs)"
| "http_register_loop name b port c (cfg # cfgs) fns addrs =
     (case http_register name b c cfg of
        (Inl e, c') \<Rightarrow> (Some e, c', fns, addrs)
      | (Inr fn, c') \<Rightarrow>
          http_register_loop name b port c' cfgs (fns @ [fn]) (addrs @ [CanonicalAddr (rc_Domain cfg) port]))"

definition HTTPProxy_Run ::
    "server_conf \<Rightarrow> run_env \<Rightarrow> resources \<Rightarrow> proxy_obj \<Rightarrow> base_proxy_conf \<Rightarrow> domain_conf \<Rightarrow> http_fields \<Rightarrow> run_result" where
  "HTTPProxy_Run sc en re px b d f =
     (let (err, c, fns, addrs) =
            http_register_loop (px_name px) b (sc_VhostHTTPPort sc) (re_http re) (http_routes sc (px_name px) d f)
              (px_closeFuncs px) [];
          px = px\<lparr>px_closeFuncs := fns\<rparr>;
          re = re\<lparr>re_http := c\<rparr>
      in case err of
           Some e \<Rightarrow> (Inl e, HTTPProxy_Close (en_now en) re px)
         | None \<Rightarrow> (Inr (go_join '','' addrs, px), re))"

text \<open>The domains that HTTPS and multiplexed proxies listen on.\<close>

definition listen_domains :: "server_conf \<Rightarrow> domain_conf \<Rightarrow> string list" where
  "listen_domains sc d =
     filter (\<lambda>domain. domain \<noteq> '''') (dm_CustomDomains d) @
     (if dm_SubDomain d \<noteq> '''' then [dm_SubDomain d @ ''.'' @ sc_SubDomainHost sc] else [])"

definition domain_route :: "string \<Rightarrow> string \<Rightarrow> string \<Rightarrow> string \<Rightarrow> route_config" where
  "domain_route domain routeByHTTPUser httpUser httpPwd =
     \<lparr>rc_Domain = domain, rc_Location = '''', rc_RewriteHost = '''', rc_Username = httpUser, rc_Password = httpPwd,
      rc_Headers = [], rc_RouteByHTTPUser = routeByHTTPUser, rc_CreateConnFn = None, rc_ChooseEndpointFn = None,
      rc_CreateConnByEndpointFn = None\<rparr>"

fun https_loop ::
    "int \<Rightarrow> resources \<Rightarrow> string list \<Rightarrow> listener list \<Rightarrow> string list \<Rightarrow> run_error option \<times> resources \<times> listener list \<times> string list" where
  "https_loop port re [] ls addrs = (None, re, ls, addrs)"
| "https_loop port re (domain # ds) ls addrs =
     (case Muxer_Listen (re_https re) (re_next re) (domain_route domain '''' '''' '''') of
        (Inl e, r) \<Rightarrow> (Some (RunRouter e), re\<lparr>re_https := r\<rparr>, ls, addrs)
      | (Inr l, r) \<Rightarrow>
          https_loop port (re\<lparr>re_https := r, re_next := Suc (re_next re)\<rparr>) ds (ls @ [HTTPSListener l])
            (addrs @ [CanonicalAddr domain port]))"

definition HTTPSProxy_Run :: "server_conf \<Rightarrow> run_env \<Rightarrow> resources \<Rightarrow> proxy_obj \<Rightarrow> domain_conf \<Rightarrow> run_result" where
  "HTTPSProxy_Run sc en re px d =
     (let (err, re, ls, addrs) = https_loop (sc_VhostHTTPSPort sc) re (listen_domains sc d) (px_listeners px) [];
          px = px\<lparr>px_listeners := ls\<rparr>
      in case err of
           Some e \<Rightarrow> (Inl e, BaseProxy_Close (en_now en) re px)
         | None \<Rightarrow> (Inr (go_join '','' addrs, px), re))"

definition httpConnectListen ::
    "base_proxy_conf \<Rightarrow> tcpmux_fields \<Rightarrow> resources \<Rightarrow> string \<Rightarrow> (run_error + listener) \<times> resources" where
  "httpConnectListen b f re domain =
     (let cfg = domain_route domain (mf_RouteByHTTPUser f) (mf_HTTPUser f) (mf_HTTPPwd f)
      in if bc_Group b \<noteq> '''' then
           (case mux_ctl_Listen (re_mux re) (mf_Multiplexer f) (bc_Group b) (bc_GroupKey b) cfg of
              (Inl e, c) \<Rightarrow> (Inl (RunMuxGroup e), re\<lparr>re_mux := c\<rparr>)
            | (Inr (gid, ln), c) \<Rightarrow> (Inr (MuxGroupListener gid ln), re\<lparr>re_mux := c\<rparr>))
         else
           (case Muxer_Listen (mc_router (re_mux re)) (re_next re) cfg of
              (Inl e, r) \<Rightarrow> (Inl (RunRouter e), re\<lparr>re_mux := (re_mux re)\<lparr>mc_router := r\<rparr>\<rparr>)
            | (Inr l, r) \<Rightarrow>
                (Inr (MuxListener l),
                 re\<lparr>re_mux := (re_mux re)\<lparr>mc_router := r\<rparr>, re_next := Suc (re_next re)\<rparr>)))"

fun httpConnectRun ::
    "base_proxy_conf \<Rightarrow> tcpmux_fields \<Rightarrow> int \<Rightarrow> resources \<Rightarrow> string list \<Rightarrow> listener list \<Rightarrow> string list \<Rightarrow>
     run_error option \<times> resources \<times> listener list \<times> string list" where
  "httpConnectRun b f port re [] ls addrs = (None, re, ls, addrs)"
| "httpConnectRun b f port re (domain # ds) ls addrs =
     (case httpConnectListen b f re domain of
        (Inl e, re') \<Rightarrow> (Some e, re', ls, addrs)
      | (Inr l, re') \<Rightarrow> httpConnectRun b f port re' ds (ls @ [l]) (addrs @ [CanonicalAddr domain port]))"

definition TCPMuxProxy_Run ::
    "server_conf \<Rightarrow> run_env \<Rightarrow> resources \<Rightarrow> proxy_obj \<Rightarrow> base_proxy_conf \<Rightarrow> domain_conf \<Rightarrow> tcpmux_fields \<Rightarrow> run_result" where
  "TCPMuxProxy_Run sc en re px b d f =
     (let (err, re, ls, addrs) =
            (if mf_Multiplexer f = ''httpconnect''
             then httpConnectRun b f (sc_TCPMuxHTTPConnectPort sc) re (listen_domains sc d) (px_listeners px) []
             else (Some (RunMultiplexer (mf_Multiplexer f)), re, px_listeners px, []));
          px = px\<lparr>px_listeners := ls\<rparr>
      in case err of
           Some e \<Rightarrow> (Inl e, BaseProxy_Close (en_now en) re px)
         | None \<Rightarrow> (Inr (go_join '','' addrs, px), re))"

definition STCPProxy_Run :: "resources \<Rightarrow> proxy_obj \<Rightarrow> role_server_conf \<Rightarrow> run_result" where
  "STCPProxy_Run re px r =
     (case visitor_Listen (re_visitors re) (re_next re) (px_name px) (rs_Sk r) (allow_users_of (rs_AllowUsers r) (px_user px)) of
        (Inl e, vm) \<Rightarrow> (Inl (RunVisitor e), re\<lparr>re_visitors := vm\<rparr>)
      | (Inr l, vm) \<Rightarrow>
          (Inr ('''', px\<lparr>px_listeners := px_listeners px @ [InternalListener l]\<rparr>),
           re\<lparr>re_visitors := vm, re_next := Suc (re_next re)\<rparr>))"

definition XTCPProxy_Run :: "resources \<Rightarrow> proxy_obj \<Rightarrow> role_server_conf \<Rightarrow> run_result" where
  "XTCPProxy_Run re px r =
     (case re_nathole re of
        None \<Rightarrow> (Inl RunNoNatHole, re)
      | Some cs \<Rightarrow>
          (case ListenClient cs (px_name px) (rs_Sk r) (allow_users_of (rs_AllowUsers r) (px_user px)) of
             (False, cs') \<Rightarrow> (Inl (RunClientRepeated (px_name px)), re\<lparr>re_nathole := Some cs'\<rparr>)
           | (True, cs') \<Rightarrow> (Inr ('''', px), re\<lparr>re_nathole := Some cs'\<rparr>)))"

definition proxy_Run :: "server_conf \<Rightarrow> run_env \<Rightarrow> resources \<Rightarrow> proxy_obj \<Rightarrow> run_result" where
  "proxy_Run sc en re px =
     (case px_cfg px of
        TCPProxyConf b port \<Rightarrow> TCPProxy_Run sc en re px b port
      | UDPProxyConf b port \<Rightarrow> UDPProxy_Run en re px b port
      | HTTPProxyConf b d f \<Rightarrow> HTTPProxy_Run sc en re px b d f
      | HTTPSProxyConf b d \<Rightarrow> HTTPSProxy_Run sc en re px d
      | TCPMuxProxyConf b d f \<Rightarrow> TCPMuxProxy_Run sc en re px b d f
      | STCPProxyConf b r \<Rightarrow> STCPProxy_Run re px r
      | SUDPProxyConf b r \<Rightarrow> STCPProxy_Run re px r
      | XTCPProxyConf b r \<Rightarrow> XTCPProxy_Run re px r)"

section \<open>What proxies hold, abstractly\<close>

text \<open>
  The resources seen from outside: the used and the free ports, the routes, the groups and
  the tables of listeners. The reservation of a port for its last owner is left out.
\<close>

definition port_view :: "port_manager \<Rightarrow> int set \<times> int set" where
  "port_view pm = (dom (usedPorts pm), freePorts pm)"

record res_view =
  vw_tcp_ports :: "int set \<times> int set"
  vw_udp_ports :: "int set \<times> int set"
  vw_tcp_groups :: "string \<rightharpoonup> nat"
  vw_http_groups :: "string \<rightharpoonup> nat"
  vw_mux_groups :: "string \<rightharpoonup> nat"
  vw_http :: "string \<times> string \<times> string \<rightharpoonup> route_config"
  vw_https :: "string \<times> string \<times> string \<rightharpoonup> mux_listener"
  vw_mux :: "string \<times> string \<times> string \<rightharpoonup> mux_listener"
  vw_visitors :: visitor_manager
  vw_nathole :: "nathole_clients option"

definition view :: "resources \<Rightarrow> res_view" where
  "view re = \<lparr>vw_tcp_ports = port_view (tc_ports (re_tcp re)), vw_udp_ports = port_view (re_udp re),
     vw_tcp_groups = tc_groups (re_tcp re), vw_http_groups = hc_groups (re_http re),
     vw_mux_groups = mc_groups (re_mux re), vw_http = route_at (hc_router (re_http re)),
     vw_https = route_at (re_https re), vw_mux = route_at (mc_router (re_mux re)),
     vw_visitors = re_visitors re, vw_nathole = re_nathole re\<rparr>"

definition res_inv :: "int set \<Rightarrow> resources \<Rightarrow> bool" where
  "res_inv P re \<longleftrightarrow> port_inv P (tc_ports (re_tcp re)) \<and> port_inv P (re_udp re) \<and>
     routers_inv (hc_router (re_http re)) \<and> routers_inv (re_https re) \<and> routers_inv (mc_router (re_mux re))"

definition env_ok :: "resources \<Rightarrow> run_env \<Rightarrow> bool" where
  "env_ok re en \<longleftrightarrow> set (en_order en) \<subseteq> freePorts (tc_ports (re_tcp re)) \<inter> freePorts (re_udp re) \<and>
     (\<forall>i p. (usedPorts (tc_ports (re_tcp re)) p \<noteq> None \<or> usedPorts (re_udp re) p \<noteq> None) \<longrightarrow> \<not> en_avail en i p)"

lemma Release_take_view:
  assumes "port_inv P pm" and "p \<in> freePorts pm"
  shows "port_view (Release now' (take_port pm n now p) p) = port_view pm"
proof -
  have "usedPorts pm p = None" using assms by (auto simp: port_inv_def)
  then show ?thesis using assms(2) by (auto simp: port_view_def Release_def take_port_def Let_def)
qed

lemma Acquire_view:
  assumes inv: "port_inv P pm" and "0 \<notin> P" and ok: "probe_ok pm avail order"
  shows "case Acquire avail order now pm n port of
      (Inl e, pm') \<Rightarrow> pm' = pm
    | (Inr p, pm') \<Rightarrow> \<exists>m t. p \<in> freePorts pm \<and> pm' = take_port pm m t p"
proof -
  have free: "p \<in> freePorts pm" if "p \<in> P" "avail i p" for p i
    using that inv ok by (force simp: port_inv_def probe_ok_def)
  have rnd: "k \<in> freePorts pm \<and> k \<noteq> 0" if "random_port avail 0 order = Some k" for k
    using random_port_in [OF that] ok inv assms(2) by (auto simp: probe_ok_def port_inv_def)
  show ?thesis
    using free reserved_port_allowed [OF inv, of n] rnd
    by (auto simp: Acquire_def acquire_random_def split: option.splits)
qed

lemma Acquire_Inr_view:
  assumes "port_inv P pm" "0 \<notin> P" "probe_ok pm avail order" "Acquire avail order now pm n port = (Inr p, pm')"
  shows "port_view (Release now' pm' p) = port_view pm"
  using Acquire_view [OF assms(1-3), of now n port] assms(4) Release_take_view [OF assms(1)] by auto

lemma Acquire_Inl_view:
  assumes "port_inv P pm" "0 \<notin> P" "probe_ok pm avail order" "Acquire avail order now pm n port = (Inl e, pm')"
  shows "port_view pm' = port_view pm"
  using Acquire_view [OF assms(1-3), of now n port] assms(4) by simp

subsection \<open>Adding routes and deleting them again\<close>

definition added :: "'p routers \<Rightarrow> 'p routers \<Rightarrow> (string \<times> string \<times> string) set \<Rightarrow> bool" where
  "added r r' K \<longleftrightarrow> routers_inv r' \<and> (\<forall>k \<in> K. route_at r k = None) \<and> (\<forall>k. k \<notin> K \<longrightarrow> route_at r' k = route_at r k)"

lemma added_refl [simp]: "routers_inv r \<Longrightarrow> added r r {}"
  by (simp add: added_def)

lemma added_taken: "added r r' K \<Longrightarrow> routers_Add r' d l u p = (r'', Some e) \<Longrightarrow> r'' = r'"
  by (auto simp: routers_Add_def Let_def split: if_splits)

lemma added_step:
  assumes "added r r' K" and "routers_Add r' d l u p = (r'', None)"
  shows "added r r'' (insert (d, l, u) K)"
proof -
  have inv: "routers_inv r'" using assms(1) by (simp add: added_def)
  have free: "route_at r' (d, l, u) = None"
    using vr.add_taken [OF inv, of d l u p] assms(2) by (cases "route_at r' (d, l, u)") auto
  then have "route_at r'' = (route_at r')((d, l, u) \<mapsto> p)"
    using vr.add_free [OF inv free, of p] assms(2) by simp
  moreover have "routers_inv r''" using vr.inv_add [OF inv, of d l u p] assms(2) by simp
  moreover have "route_at r (d, l, u) = None"
    using assms(1) free by (cases "(d, l, u) \<in> K") (auto simp: added_def)
  ultimately show ?thesis using assms(1) by (auto simp: added_def)
qed

fun del_key :: "'p routers \<Rightarrow> string \<times> string \<times> string \<Rightarrow> 'p routers" where
  "del_key r (d, l, u) = routers_Del r d l u"

lemma del_keys_at: "route_at (foldl del_key r ks) k = (if k \<in> set ks then None else route_at r k)"
  by (induction ks arbitrary: r) (auto simp: route_at_Del)

lemma added_restored: "added r r' (set ks) \<Longrightarrow> route_at (foldl del_key r' ks) = route_at r"
  by (rule ext) (auto simp: del_keys_at added_def)

definition route_key :: "route_config \<Rightarrow> string \<times> string \<times> string" where
  "route_key cfg = (rc_Domain cfg, rc_Location cfg, rc_RouteByHTTPUser cfg)"

definition listener_key :: "mux_listener \<Rightarrow> string \<times> string \<times> string" where
  "listener_key l = (ml_name l, ml_location l, ml_routeByHTTPUser l)"

lemma http_register_loop_added:
  assumes "bc_Group b = ''''" and "added r (hc_router c) (set (map route_key regs))"
    and "http_register_loop name b port c cfgs (map RouteUnRegister regs) addrs = (err, c', fns, addrs')"
  shows "\<exists>regs'. fns = map RouteUnRegister regs' \<and> added r (hc_router c') (set (map route_key regs')) \<and>
    c' = c\<lparr>hc_router := hc_router c'\<rparr>"
  using assms(2,3)
proof (induction cfgs arbitrary: c regs addrs)
  case Nil
  then show ?case by auto
next
  case (Cons cfg cfgs)
  obtain r1 e1 where reg: "rp_Register (hc_router c) cfg = (r1, e1)" by force
  show ?case
  proof (cases e1)
    case (Some e)
    with reg have "r1 = hc_router c" using added_taken [OF Cons.prems(1)] by (auto simp: rp_Register_def)
    with Some reg Cons.prems assms(1) show ?thesis by (auto simp: http_register_def)
  next
    case None
    with reg have "added r r1 (set (map route_key (regs @ [cfg])))"
      using added_step [OF Cons.prems(1)] by (auto simp: rp_Register_def route_key_def)
    moreover have "http_register_loop name b port (c\<lparr>hc_router := r1\<rparr>) cfgs (map RouteUnRegister (regs @ [cfg]))
        (addrs @ [CanonicalAddr (rc_Domain cfg) port]) = (err, c', fns, addrs')"
      using Cons.prems(2) None reg assms(1) by (simp add: http_register_def)
    ultimately obtain regs' where "fns = map RouteUnRegister regs' \<and> added r (hc_router c') (set (map route_key regs')) \<and>
        c' = c\<lparr>hc_router := r1\<rparr>\<lparr>hc_router := hc_router c'\<rparr>"
      using Cons.IH [of "c\<lparr>hc_router := r1\<rparr>" "regs @ [cfg]"] by auto
    then show ?thesis by auto
  qed
qed

lemma run_close_fns_routes:
  "foldl run_close_fn re (map RouteUnRegister regs) =
     re\<lparr>re_http := (re_http re)\<lparr>hc_router := foldl del_key (hc_router (re_http re)) (map route_key regs)\<rparr>\<rparr>"
  by (induction regs arbitrary: re) (auto simp: rp_UnRegister_def route_key_def)

lemma Muxer_Listen_key: "Muxer_Listen r i cfg = (Inr l, r') \<Longrightarrow>
    listener_key l = route_key cfg \<and> routers_Add r (rc_Domain cfg) (rc_Location cfg) (rc_RouteByHTTPUser cfg) l = (r', None)"
  by (auto simp: Muxer_Listen_def listener_key_def route_key_def Let_def split: prod.splits option.splits)

lemma Muxer_Listen_Inl: "Muxer_Listen r i cfg = (Inl e, r') \<Longrightarrow> r' = r"
  by (auto simp: Muxer_Listen_def routers_Add_def Let_def split: prod.splits option.splits if_splits)

lemma Muxer_Listen_added:
  assumes "added r r1 (set (map listener_key ls))" and "Muxer_Listen r1 i cfg = (Inr l, r2)"
  shows "added r r2 (set (map listener_key (ls @ [l])))"
  using added_step [OF assms(1)] Muxer_Listen_key [OF assms(2)] by (auto simp: route_key_def)

lemma https_loop_added:
  assumes "added r (re_https re) (set (map listener_key ls))"
    and "https_loop port re ds (map HTTPSListener ls) addrs = (err, re', hs, addrs')"
  shows "\<exists>ls'. hs = map HTTPSListener ls' \<and> added r (re_https re') (set (map listener_key ls')) \<and>
    re' = re\<lparr>re_https := re_https re', re_next := re_next re'\<rparr>"
  using assms
proof (induction ds arbitrary: re ls addrs)
  case Nil
  then show ?case by auto
next
  case (Cons d ds)
  obtain res r1 where m: "Muxer_Listen (re_https re) (re_next re) (domain_route d '''' '''' '''') = (res, r1)" by force
  show ?case
  proof (cases res)
    case (Inl e)
    then have "r1 = re_https re" using m Muxer_Listen_Inl by blast
    with Inl m Cons.prems show ?thesis by auto
  next
    case (Inr l)
    let ?re = "re\<lparr>re_https := r1, re_next := Suc (re_next re)\<rparr>"
    have "added r r1 (set (map listener_key (ls @ [l])))"
      using Muxer_Listen_added [OF Cons.prems(1)] m Inr by blast
    moreover have "https_loop port ?re ds (map HTTPSListener (ls @ [l])) (addrs @ [CanonicalAddr d port]) = (err, re', hs, addrs')"
      using Cons.prems(2) m Inr by simp
    ultimately obtain ls' where "hs = map HTTPSListener ls' \<and> added r (re_https re') (set (map listener_key ls')) \<and>
        re' = ?re\<lparr>re_https := re_https re', re_next := re_next re'\<rparr>"
      using Cons.IH [of ?re "ls @ [l]"] by auto
    then show ?thesis by auto
  qed
qed

lemma close_https:
  "foldl (listener_Close now) re (map HTTPSListener ls) = re\<lparr>re_https := foldl del_key (re_https re) (map listener_key ls)\<rparr>"
  by (induction ls arbitrary: re) (auto simp: mux_Listener_Close_def listener_key_def)

lemma httpConnectRun_added:
  assumes "bc_Group b = ''''" and "added r (mc_router (re_mux re)) (set (map listener_key ls))"
    and "httpConnectRun b f port re ds (map MuxListener ls) addrs = (err, re', hs, addrs')"
  shows "\<exists>ls'. hs = map MuxListener ls' \<and> added r (mc_router (re_mux re')) (set (map listener_key ls')) \<and>
    re' = re\<lparr>re_mux := (re_mux re)\<lparr>mc_router := mc_router (re_mux re')\<rparr>, re_next := re_next re'\<rparr>"
  using assms(2,3)
proof (induction ds arbitrary: re ls addrs)
  case Nil
  then show ?case by auto
next
  case (Cons d ds)
  let ?cfg = "domain_route d (mf_RouteByHTTPUser f) (mf_HTTPUser f) (mf_HTTPPwd f)"
  obtain res r1 where m: "Muxer_Listen (mc_router (re_mux re)) (re_next re) ?cfg = (res, r1)" by force
  show ?case
  proof (cases res)
    case (Inl e)
    then have "r1 = mc_router (re_mux re)" using m Muxer_Listen_Inl by blast
    with Inl m Cons.prems assms(1) show ?thesis by (auto simp: httpConnectListen_def)
  next
    case (Inr l)
    let ?re = "re\<lparr>re_mux := (re_mux re)\<lparr>mc_router := r1\<rparr>, re_next := Suc (re_next re)\<rparr>"
    have "added r r1 (set (map listener_key (ls @ [l])))"
      using Muxer_Listen_added [OF Cons.prems(1)] m Inr by blast
    moreover have "httpConnectRun b f port ?re ds (map MuxListener (ls @ [l])) (addrs @ [CanonicalAddr d port]) = (err, re', hs, addrs')"
      using Cons.prems(2) m Inr assms(1) by (simp add: httpConnectListen_def)
    ultimately obtain ls' where "hs = map MuxListener ls' \<and> added r (mc_router (re_mux re')) (set (map listener_key ls')) \<and>
        re' = ?re\<lparr>re_mux := (re_mux ?re)\<lparr>mc_router := mc_router (re_mux re')\<rparr>, re_next := re_next re'\<rparr>"
      using Cons.IH [of ?re "ls @ [l]"] by auto
    then show ?thesis by auto
  qed
qed

lemma close_mux:
  "foldl (listener_Close now) re (map MuxListener ls) =
     re\<lparr>re_mux := (re_mux re)\<lparr>mc_router := foldl del_key (mc_router (re_mux re)) (map listener_key ls)\<rparr>\<rparr>"
  by (induction ls arbitrary: re) (auto simp: mux_Listener_Close_def listener_key_def)

subsection \<open>Run and Close, one type after the other\<close>

text \<open>What is to be shown of one start: a failure and a later close both leave no trace.\<close>

definition leaves_no_trace :: "resources \<Rightarrow> run_result \<Rightarrow> bool" where
  "leaves_no_trace re res \<longleftrightarrow>
     (case res of
        (Inl e, re') \<Rightarrow> view re' = view re
      | (Inr (addr, px), re') \<Rightarrow> (\<forall>now. view (snd (proxy_Close now re' px)) = view re))"

lemma probe_ok_env:
  assumes "env_ok re en"
  shows "probe_ok (tc_ports (re_tcp re)) (en_avail en) (en_order en)" "probe_ok (re_udp re) (en_avail en) (en_order en)"
  using assms by (auto simp: env_ok_def probe_ok_def)

lemma TCPProxy_no_trace:
  assumes "res_inv P re" "0 \<notin> P" "env_ok re en" "bc_Group b = ''''" "px_listeners px = []"
  shows "leaves_no_trace re (TCPProxy_Run sc en re px b port)"
proof -
  have inv: "port_inv P (tc_ports (re_tcp re))" using assms(1) by (simp add: res_inv_def)
  note a = Acquire_Inl_view [OF inv assms(2) probe_ok_env(1) [OF assms(3)]]
    Acquire_Inr_view [OF inv assms(2) probe_ok_env(1) [OF assms(3)]]
  show ?thesis
    using assms(4,5)
    by (auto simp: leaves_no_trace_def TCPProxy_Run_def Let_def proxy_Close_def TCPProxy_Close_def BaseProxy_Close_def
        release_tcp_def view_def a split: prod.splits sum.splits)
qed

lemma UDPProxy_no_trace:
  assumes "res_inv P re" "0 \<notin> P" "env_ok re en" "px_listeners px = []" "\<not> px_isClosed px"
  shows "leaves_no_trace re (UDPProxy_Run en re px b port)"
proof -
  have inv: "port_inv P (re_udp re)" using assms(1) by (simp add: res_inv_def)
  note a = Acquire_Inl_view [OF inv assms(2) probe_ok_env(2) [OF assms(3)]]
    Acquire_Inr_view [OF inv assms(2) probe_ok_env(2) [OF assms(3)]]
  show ?thesis
    using assms(4,5)
    by (auto simp: leaves_no_trace_def UDPProxy_Run_def Let_def proxy_Close_def UDPProxy_Close_def BaseProxy_Close_def
        view_def a split: prod.splits sum.splits)
qed

lemma HTTPProxy_no_trace:
  assumes "res_inv P re" "bc_Group b = ''''" "px_cfg px = HTTPProxyConf b d f" "px_listeners px = []" "px_closeFuncs px = []"
  shows "leaves_no_trace re (HTTPProxy_Run sc en re px b d f)"
proof -
  obtain err c fns addrs where l: "http_register_loop (px_name px) b (sc_VhostHTTPPort sc) (re_http re)
      (http_routes sc (px_name px) d f) (map RouteUnRegister []) [] = (err, c, fns, addrs)" by (metis prod_cases4)
  have "added (hc_router (re_http re)) (hc_router (re_http re)) (set (map route_key []))"
    using assms(1) by (simp add: res_inv_def)
  from http_register_loop_added [OF assms(2) this l] obtain regs where
    r: "fns = map RouteUnRegister regs" "c = (re_http re)\<lparr>hc_router := hc_router c\<rparr>"
    and a: "added (hc_router (re_http re)) (hc_router c) (set (map route_key regs))" by blast
  have "hc_groups c = hc_groups (re_http re)" using arg_cong [OF r(2), of hc_groups] by simp
  then show ?thesis
    using l r(1) added_restored [OF a] assms(3-5)
    by (auto simp: leaves_no_trace_def HTTPProxy_Run_def Let_def proxy_Close_def HTTPProxy_Close_def BaseProxy_Close_def
        run_close_fns_routes view_def split: option.splits)
qed

lemma HTTPSProxy_no_trace:
  assumes "res_inv P re" "px_cfg px = HTTPSProxyConf b d" "px_listeners px = []"
  shows "leaves_no_trace re (HTTPSProxy_Run sc en re px d)"
proof -
  obtain err re' hs addrs where l: "https_loop (sc_VhostHTTPSPort sc) re (listen_domains sc d) (map HTTPSListener []) [] =
      (err, re', hs, addrs)" by (metis prod_cases4)
  have "added (re_https re) (re_https re) (set (map listener_key []))" using assms(1) by (simp add: res_inv_def)
  from https_loop_added [OF this l] obtain ls where
    r: "hs = map HTTPSListener ls" "re' = re\<lparr>re_https := re_https re', re_next := re_next re'\<rparr>"
    and a: "added (re_https re) (re_https re') (set (map listener_key ls))" by blast
  have "view (re'\<lparr>re_https := foldl del_key (re_https re') (map listener_key ls)\<rparr>) = view re"
    by (subst r(2)) (simp add: view_def added_restored [OF a])
  then show ?thesis
    using l r(1) assms(2,3)
    by (auto simp: leaves_no_trace_def HTTPSProxy_Run_def Let_def proxy_Close_def BaseProxy_Close_def close_https
        split: option.splits)
qed

lemma TCPMuxProxy_no_trace:
  assumes "res_inv P re" "bc_Group b = ''''" "px_cfg px = TCPMuxProxyConf b d f" "px_listeners px = []"
  shows "leaves_no_trace re (TCPMuxProxy_Run sc en re px b d f)"
proof -
  obtain err re' hs addrs where l: "httpConnectRun b f (sc_TCPMuxHTTPConnectPort sc) re (listen_domains sc d)
      (map MuxListener []) [] = (err, re', hs, addrs)" by (metis prod_cases4)
  have "added (mc_router (re_mux re)) (mc_router (re_mux re)) (set (map listener_key []))"
    using assms(1) by (simp add: res_inv_def)
  from httpConnectRun_added [OF assms(2) this l] obtain ls where
    r: "hs = map MuxListener ls"
      "re' = re\<lparr>re_mux := (re_mux re)\<lparr>mc_router := mc_router (re_mux re')\<rparr>, re_next := re_next re'\<rparr>"
    and a: "added (mc_router (re_mux re)) (mc_router (re_mux re')) (set (map listener_key ls))" by blast
  have "view (re'\<lparr>re_mux := (re_mux re')\<lparr>mc_router := foldl del_key (mc_router (re_mux re')) (map listener_key ls)\<rparr>\<rparr>) = view re"
    by (subst r(2), subst r(2)) (simp add: view_def added_restored [OF a])
  then show ?thesis
    using l r(1) assms(3,4)
    by (auto simp: leaves_no_trace_def TCPMuxProxy_Run_def Let_def proxy_Close_def BaseProxy_Close_def close_mux
        split: option.splits)
qed

lemma STCPProxy_no_trace:
  assumes "px_cfg px = STCPProxyConf b r \<or> px_cfg px = SUDPProxyConf b r" "px_listeners px = []"
  shows "leaves_no_trace re (STCPProxy_Run re px r)"
  using assms
  by (auto simp: leaves_no_trace_def STCPProxy_Run_def visitor_Listen_def proxy_Close_def STCPProxy_Close_def
      BaseProxy_Close_def visitor_CloseListener_def view_def fun_upd_idem Let_def split: option.splits)

lemma XTCPProxy_no_trace:
  assumes "px_cfg px = XTCPProxyConf b r" "px_listeners px = []"
  shows "leaves_no_trace re (XTCPProxy_Run re px r)"
  using assms
  by (auto simp: leaves_no_trace_def XTCPProxy_Run_def ListenClient_def proxy_Close_def XTCPProxy_Close_def
      BaseProxy_Close_def nathole_CloseClient_def view_def fun_upd_idem Let_def split: option.splits)

lemma proxy_no_trace:
  assumes "res_inv P re" and "0 \<notin> P" and "env_ok re en" and "bc_Group (GetBaseConfig cfg) = ''''"
  shows "leaves_no_trace re (proxy_Run sc en re (NewProxy user cfg))"
  using TCPProxy_no_trace [OF assms(1-3)] UDPProxy_no_trace [OF assms(1-3)] HTTPProxy_no_trace [OF assms(1)]
    HTTPSProxy_no_trace [OF assms(1)] TCPMuxProxy_no_trace [OF assms(1)] STCPProxy_no_trace XTCPProxy_no_trace assms(4)
  by (cases cfg) (simp_all add: proxy_Run_def NewProxy_def)

lemma proxy_no_trace_Inl:
  assumes "res_inv P re" "0 \<notin> P" "env_ok re en" "bc_Group (GetBaseConfig cfg) = ''''"
    "proxy_Run sc en re (NewProxy user cfg) = (Inl e, re')"
  shows "view re' = view re"
  using proxy_no_trace [OF assms(1-4), of sc user] assms(5) by (simp add: leaves_no_trace_def)

lemma proxy_no_trace_Inr:
  assumes "res_inv P re" "0 \<notin> P" "env_ok re en" "bc_Group (GetBaseConfig cfg) = ''''"
    "proxy_Run sc en re (NewProxy user cfg) = (Inr (addr, px), re')"
  shows "view (snd (proxy_Close now re' px)) = view re"
  using proxy_no_trace [OF assms(1-4), of sc user] assms(5) by (simp add: leaves_no_trace_def)

section \<open>Properties\<close>


lemma NewResources_inv [inv_intros]: "res_inv (allowed allow) (NewResources allow)"
  by (simp add: res_inv_def NewResources_def NewTCPGroupCtl_def NewHTTPGroupController_def NewTCPMuxGroupCtl_def
      NewPortManager_inv routers_inv_new)

lemma NewResources_env: "set (en_order en) \<subseteq> allowed allow \<Longrightarrow> env_ok (NewResources allow) en"
  by (auto simp: env_ok_def NewResources_def NewTCPGroupCtl_def NewPortManager_def allowed_def)

definition demo_tcp_conf :: proxy_conf where
  "demo_tcp_conf = TCPProxyConf (zero_base\<lparr>bc_ProxyName := ''ssh'', bc_ProxyType := ''tcp'', bc_BandwidthLimitMode := ''client''\<rparr>) 7000"

definition demo_env :: "bool \<Rightarrow> run_env" where
  "demo_env ok = \<lparr>en_avail = (\<lambda>_ _. True), en_order = [], en_now = 0, en_listen_ok = ok\<rparr>"


lemma add_member_in: "add_member name fn g = Inr g' \<Longrightarrow> map_of (hg_createFuncs g') name \<noteq> None"
  by (auto simp: add_member_def update_conv' split: if_splits)

lemma http_group_Register_in:
  "http_group_Register gid r g name grp key cfg fn = (None, g', r') \<Longrightarrow> map_of (hg_createFuncs g') name \<noteq> None"
  by (auto simp: http_group_Register_def Let_def split: prod.splits option.splits if_splits sum.splits
      dest: add_member_in)

lemma http_group_Register_again:
  assumes "map_of (hg_createFuncs g) name \<noteq> None"
  shows "\<exists>e g' r'. http_group_Register gid r g name grp key cfg fn = (Some e, g', r')"
  using assms by (auto simp: http_group_Register_def add_member_def)

lemma find_or_create_group: "find_or_create c grp = (gid, c') \<Longrightarrow> hc_groups c' grp = Some gid"
  by (auto simp: find_or_create_def Let_def split: option.splits)

lemma http_ctl_Register_in:
  assumes "http_ctl_Register c name grp key cfg fn = (None, c')"
  shows "\<exists>gid. hc_groups c' grp = Some gid \<and> map_of (hg_createFuncs (hc_store c' gid)) name \<noteq> None"
  using assms find_or_create_group [of c grp]
  by (auto simp: http_ctl_Register_def Let_def split: prod.splits dest!: http_group_Register_in)

lemma http_ctl_Register_again:
  assumes "hc_groups c grp = Some gid" and "map_of (hg_createFuncs (hc_store c gid)) name \<noteq> None"
  shows "\<exists>e c'. http_ctl_Register c name grp key cfg fn = (Some e, c')"
  using http_group_Register_again [OF assms(2), of gid "hc_router c" grp key cfg fn] assms(1)
  by (auto simp: http_ctl_Register_def find_or_create_def)

text \<open>
  An HTTP proxy in a group has one route: with more than one domain or location it never
  starts, because its second registration in the group is refused, either for the different
  domain or location or as a repetition of its name.
\<close>

theorem http_group_one_route:
  assumes "bc_Group b \<noteq> ''''" and "length (http_routes sc (px_name px) d f) \<ge> 2"
  shows "\<exists>e. fst (HTTPProxy_Run sc en re px b d f) = Inl e"
proof -
  obtain x y zs where rs: "http_routes sc (px_name px) d f = x # y # zs"
    using assms(2) by (cases "http_routes sc (px_name px) d f" rule: remdups_adj.cases) auto
  have second: "\<exists>e c''. http_register (px_name px) b c' y = (Inl e, c'')"
    if "http_register (px_name px) b (re_http re) x = (Inr fn, c')" for fn c'
  proof -
    have "http_ctl_Register (re_http re) (px_name px) (bc_Group b) (bc_GroupKey b) x (ProxyRealConn (px_name px)) = (None, c')"
      using that assms(1) by (auto simp: http_register_def split: prod.splits option.splits)
    then obtain gid where "hc_groups c' (bc_Group b) = Some gid"
      "map_of (hg_createFuncs (hc_store c' gid)) (px_name px) \<noteq> None" using http_ctl_Register_in by blast
    from http_ctl_Register_again [OF this] assms(1) show ?thesis
      by (auto simp: http_register_def split: prod.splits option.splits)
        (metis option.distinct(1) prod.inject)
  qed
  have "\<exists>e c' fns addrs. http_register_loop (px_name px) b (sc_VhostHTTPPort sc) (re_http re)
      (http_routes sc (px_name px) d f) (px_closeFuncs px) [] = (Some e, c', fns, addrs)"
  proof (cases "http_register (px_name px) b (re_http re) x")
    case (Pair res c')
    then show ?thesis using second [of _ c'] by (cases res) (auto simp: rs)
  qed
  then show ?thesis by (auto simp: HTTPProxy_Run_def Let_def)
qed

theorem http_group_one_route_witness:
  "\<exists>e. fst (HTTPProxy_Run demo_server (demo_env True) (NewResources {}) (NewProxy ''bob'' demo_http)
      (zero_base\<lparr>bc_Group := ''g''\<rparr>) \<lparr>dm_CustomDomains = [''a.org'', ''b.org''], dm_SubDomain = ''''\<rparr> zero_http) = Inl e"
  by (rule http_group_one_route) (simp_all add: zero_base_def zero_http_def http_routes_def Let_def)

text \<open>
  The checks of the configuration accept a custom domain that is the empty string; the proxy
  then starts without any route and reports an empty address.
\<close>

theorem empty_domain_starts:
  "domain_validateForServer sc \<lparr>dm_CustomDomains = [''''], dm_SubDomain = ''''\<rparr> = None \<and>
   HTTPProxy_Run sc en re px b \<lparr>dm_CustomDomains = [''''], dm_SubDomain = ''''\<rparr> f = (Inr ('''', px), re)"
  by (simp add: domain_validateForServer_def domain_check_def HTTPProxy_Run_def http_routes_def Let_def go_split_length)

section \<open>The invariant of the resources is kept\<close>

lemma tcp_group_Listen_ports:
  assumes "port_inv P pm" and "set order \<subseteq> freePorts pm"
  shows "port_inv P (snd (snd (tcp_group_Listen avail order now ok pm g ln p grp key addr port)))"
proof -
  have "port_inv P pm'" if "Acquire avail order now pm p port = (r, pm')" for r pm'
    using Acquire_inv [OF assms, of avail now p port] that by simp
  then show ?thesis
    using assms(1) by (auto simp: tcp_group_Listen_def split: prod.splits sum.splits)
qed

lemma tcp_find_or_create_ports: "tcp_find_or_create c grp = (gid, c') \<Longrightarrow> tc_ports c' = tc_ports c"
  by (auto simp: tcp_find_or_create_def Let_def split: option.splits)

lemma tcp_ctl_Listen_ports [inv_intros]:
  assumes "port_inv P (tc_ports c)" and "set order \<subseteq> freePorts (tc_ports c)"
  shows "port_inv P (tc_ports (snd (tcp_ctl_Listen avail order now ok c p grp key addr port)))"
proof -
  obtain gid c' where f: "tcp_find_or_create c grp = (gid, c')" by force
  obtain res g pm where l: "tcp_group_Listen avail order now ok (tc_ports c') (tc_store c' gid) (tc_ln_next c')
      p grp key addr port = (res, g, pm)" by (metis prod_cases3)
  have "port_inv P pm"
    using tcp_group_Listen_ports [of P "tc_ports c'" order avail now ok "tc_store c' gid" "tc_ln_next c'" p grp key addr port]
      l assms tcp_find_or_create_ports [OF f] by simp
  then show ?thesis by (simp add: tcp_ctl_Listen_def Let_def f l)
qed

lemma tcp_CloseListener_ports [inv_intros]:
  "port_inv P (tc_ports c) \<Longrightarrow> port_inv P (tc_ports (tcp_CloseListener now c gid ln))"
  by (auto simp: tcp_CloseListener_def Let_def Release_inv)

lemma routers_Add_inv' [inv_intros]: "routers_inv r \<Longrightarrow> routers_Add r d l u p = (r', e) \<Longrightarrow> routers_inv r'"
  using routers_inv_Add [of r d l u p] by simp

lemma Muxer_Listen_inv [inv_intros]: "routers_inv r \<Longrightarrow> Muxer_Listen r i cfg = (res, r') \<Longrightarrow> routers_inv r'"
  by (auto simp: Muxer_Listen_def Let_def split: prod.splits option.splits intro: routers_Add_inv')

lemma mux_ctl_Listen_inv [inv_intros]:
  "routers_inv (mc_router c) \<Longrightarrow> mux_ctl_Listen c mp grp key cfg = (res, c') \<Longrightarrow> routers_inv (mc_router c')"
  by (auto simp: mux_ctl_Listen_def mux_find_or_create_def HTTPConnectListen_def Let_def
      split: prod.splits option.splits sum.splits if_splits intro: Muxer_Listen_inv)

lemma mux_CloseListener_inv [inv_intros]:
  "routers_inv (mc_router c) \<Longrightarrow> routers_inv (mc_router (mux_CloseListener c gid ln))"
  by (auto simp: mux_CloseListener_def mux_Listener_Close_def Let_def routers_inv_Del split: option.splits)

lemma http_ctl_Register_routes [inv_intros]:
  "routers_inv (hc_router c) \<Longrightarrow> http_ctl_Register c name grp key cfg fn = (e, c') \<Longrightarrow> routers_inv (hc_router c')"
  by (auto simp: http_ctl_Register_def find_or_create_def http_group_Register_def Let_def
      split: prod.splits option.splits sum.splits if_splits intro: routers_Add_inv')

lemma http_ctl_UnRegister_routes [inv_intros]:
  "routers_inv (hc_router c) \<Longrightarrow> routers_inv (hc_router (http_ctl_UnRegister c name grp))"
  by (auto simp: http_ctl_UnRegister_def http_group_UnRegister_def Let_def routers_inv_Del split: option.splits)

lemma listener_Close_inv: "res_inv P re \<Longrightarrow> res_inv P (listener_Close now re l)"
  by (cases l) (auto simp: res_inv_def mux_Listener_Close_def routers_inv_Del tcp_CloseListener_ports mux_CloseListener_inv)

lemma BaseProxy_Close_inv [inv_intros]: "res_inv P re \<Longrightarrow> res_inv P (BaseProxy_Close now re px)"
proof -
  have "res_inv P re \<Longrightarrow> res_inv P (foldl (listener_Close now) re ls)" for ls
    by (induction ls arbitrary: re) (auto simp: listener_Close_inv)
  then show "res_inv P re \<Longrightarrow> res_inv P (BaseProxy_Close now re px)" by (simp add: BaseProxy_Close_def)
qed

lemma run_close_fn_inv: "res_inv P re \<Longrightarrow> res_inv P (run_close_fn re fn)"
  by (cases fn) (auto simp: res_inv_def rp_UnRegister_def routers_inv_Del http_ctl_UnRegister_routes)

lemma HTTPProxy_Close_inv [inv_intros]: "res_inv P re \<Longrightarrow> res_inv P (HTTPProxy_Close now re px)"
proof -
  have "res_inv P re \<Longrightarrow> res_inv P (foldl run_close_fn re fns)" for fns re
    by (induction fns arbitrary: re) (auto simp: run_close_fn_inv)
  then show "res_inv P re \<Longrightarrow> res_inv P (HTTPProxy_Close now re px)"
    by (simp add: HTTPProxy_Close_def BaseProxy_Close_inv)
qed

lemma res_inv_simps [simp]:
  "res_inv P (re\<lparr>re_visitors := v\<rparr>) = res_inv P re" "res_inv P (re\<lparr>re_nathole := nh\<rparr>) = res_inv P re"
  "res_inv P (re\<lparr>re_next := i\<rparr>) = res_inv P re"
  by (simp_all add: res_inv_def)

lemma release_tcp_inv [inv_intros]: "res_inv P re \<Longrightarrow> res_inv P (release_tcp now re port)"
  by (simp add: res_inv_def release_tcp_def Release_inv)

lemma release_udp_inv [inv_intros]: "res_inv P re \<Longrightarrow> res_inv P (re\<lparr>re_udp := Release now (re_udp re) port\<rparr>)"
  by (simp add: res_inv_def Release_inv)

lemma proxy_Close_inv [inv_intros]: "res_inv P re \<Longrightarrow> res_inv P (snd (proxy_Close now re px))"
  by (cases "px_cfg px")
    (auto simp: proxy_Close_def TCPProxy_Close_def UDPProxy_Close_def STCPProxy_Close_def XTCPProxy_Close_def Let_def
      BaseProxy_Close_inv HTTPProxy_Close_inv release_tcp_inv release_udp_inv)

lemma http_register_loop_inv:
  "routers_inv (hc_router c) \<Longrightarrow> http_register_loop name b port c cfgs fns addrs = (e, c', fns', addrs') \<Longrightarrow>
     routers_inv (hc_router c')"
proof (induction name b port c cfgs fns addrs rule: http_register_loop.induct)
  case (2 name b port c cfg cfgs fns addrs)
  obtain res c1 where r: "http_register name b c cfg = (res, c1)" by force
  then have "routers_inv (hc_router c1)"
    using "2.prems"(1)
    by (auto simp: http_register_def rp_Register_def split: prod.splits option.splits if_splits
        intro: routers_Add_inv' http_ctl_Register_routes)
  with 2 r show ?case by (auto split: sum.splits)
qed simp

lemma https_loop_inv:
  "res_inv P re \<Longrightarrow> https_loop port re ds ls addrs = (e, re', ls', addrs') \<Longrightarrow> res_inv P re'"
proof (induction port re ds ls addrs rule: https_loop.induct)
  case (2 port re d ds ls addrs)
  obtain res r where m: "Muxer_Listen (re_https re) (re_next re) (domain_route d '''' '''' '''') = (res, r)" by force
  then have "res_inv P (re\<lparr>re_https := r\<rparr>)" "res_inv P (re\<lparr>re_https := r, re_next := i\<rparr>)" for i
    using "2.prems"(1) Muxer_Listen_inv [OF _ m] by (auto simp: res_inv_def)
  with 2 m show ?case by (auto split: sum.splits)
qed simp

lemma httpConnectListen_inv: "res_inv P re \<Longrightarrow> httpConnectListen b f re d = (res, re') \<Longrightarrow> res_inv P re'"
  by (auto simp: httpConnectListen_def Let_def res_inv_def split: prod.splits sum.splits if_splits
      intro: Muxer_Listen_inv mux_ctl_Listen_inv)

lemma httpConnectRun_inv:
  "res_inv P re \<Longrightarrow> httpConnectRun b f port re ds ls addrs = (e, re', ls', addrs') \<Longrightarrow> res_inv P re'"
proof (induction b f port re ds ls addrs rule: httpConnectRun.induct)
  case (2 b f port re d ds ls addrs)
  obtain res re1 where m: "httpConnectListen b f re d = (res, re1)" by force
  with 2 httpConnectListen_inv [OF "2.prems"(1) m] show ?case by (auto split: sum.splits)
qed simp

lemma TCPProxy_Run_inv:
  assumes "res_inv P re" and "env_ok re en"
  shows "res_inv P (snd (TCPProxy_Run sc en re px b port))"
proof -
  have o: "set (en_order en) \<subseteq> freePorts (tc_ports (re_tcp re))" using assms(2) by (auto simp: env_ok_def)
  have inv: "port_inv P (tc_ports (re_tcp re))" using assms(1) by (simp add: res_inv_def)
  have a: "port_inv P pm" if "Acquire (en_avail en) (en_order en) (en_now en) (tc_ports (re_tcp re)) (px_name px) port = (r, pm)" for r pm
    using Acquire_inv [OF inv o, of "en_avail en" "en_now en" "px_name px" port] that by simp
  have g: "port_inv P (tc_ports c)"
    if "tcp_ctl_Listen (en_avail en) (en_order en) (en_now en) (en_listen_ok en) (re_tcp re) (px_name px) (bc_Group b)
      (bc_GroupKey b) (sc_ProxyBindAddr sc) port = (r, c)" for r c
    using tcp_ctl_Listen_ports [OF inv o] that by (metis snd_conv)
  show ?thesis
    using assms(1) a g
    by (auto simp: TCPProxy_Run_def Let_def res_inv_def release_tcp_def Release_inv split: prod.splits sum.splits)
qed

lemma UDPProxy_Run_inv:
  assumes "res_inv P re" and "env_ok re en"
  shows "res_inv P (snd (UDPProxy_Run en re px b port))"
proof -
  have o: "set (en_order en) \<subseteq> freePorts (re_udp re)" using assms(2) by (auto simp: env_ok_def)
  have inv: "port_inv P (re_udp re)" using assms(1) by (simp add: res_inv_def)
  have a: "port_inv P pm" if "Acquire (en_avail en) (en_order en) (en_now en) (re_udp re) (px_name px) port = (r, pm)" for r pm
    using Acquire_inv [OF inv o, of "en_avail en" "en_now en" "px_name px" port] that by simp
  show ?thesis
    using assms(1) a by (auto simp: UDPProxy_Run_def res_inv_def Release_inv split: prod.splits sum.splits)
qed

lemma proxy_Run_inv [inv_intros]:
  assumes "res_inv P re" and "env_ok re en"
  shows "res_inv P (snd (proxy_Run sc en re px))"
proof (cases "px_cfg px")
  case (HTTPProxyConf b d f)
  obtain e c fns addrs where l: "http_register_loop (px_name px) b (sc_VhostHTTPPort sc) (re_http re)
      (http_routes sc (px_name px) d f) (px_closeFuncs px) [] = (e, c, fns, addrs)" by (metis prod_cases4)
  then have "res_inv P (re\<lparr>re_http := c\<rparr>)"
    using assms(1) http_register_loop_inv [OF _ l] by (simp add: res_inv_def)
  then show ?thesis
    using HTTPProxyConf l by (auto simp: proxy_Run_def HTTPProxy_Run_def Let_def HTTPProxy_Close_inv split: option.splits)
next
  case (HTTPSProxyConf b d)
  obtain e re' ls addrs where l: "https_loop (sc_VhostHTTPSPort sc) re (listen_domains sc d) (px_listeners px) [] =
      (e, re', ls, addrs)" by (metis prod_cases4)
  then show ?thesis
    using HTTPSProxyConf https_loop_inv [OF assms(1) l]
    by (auto simp: proxy_Run_def HTTPSProxy_Run_def Let_def BaseProxy_Close_inv split: option.splits)
next
  case (TCPMuxProxyConf b d f)
  obtain e re' ls addrs where l: "httpConnectRun b f (sc_TCPMuxHTTPConnectPort sc) re (listen_domains sc d) (px_listeners px) [] =
      (e, re', ls, addrs)" by (metis prod_cases4)
  then show ?thesis
    using TCPMuxProxyConf httpConnectRun_inv [OF assms(1) l] assms(1)
    by (auto simp: proxy_Run_def TCPMuxProxy_Run_def Let_def BaseProxy_Close_inv split: option.splits)
qed (use assms in \<open>auto simp: proxy_Run_def TCPProxy_Run_inv UDPProxy_Run_inv STCPProxy_Run_def XTCPProxy_Run_def
      split: prod.splits sum.splits option.splits bool.splits\<close>)

end
