(* ===== verification/Frp_Api.thy ===== *)
theory Frp_Api
  imports Frp_Config
begin

text \<open>
  The client of the ChmlFrp API (\<open>pkg/api/api.go\<close>), which the server asks for the admission
  of users and proxies and for bandwidth limits. The API server and the transport to it are
  an argument: a function from the parameters of the query to the reply. The parameters
  are kept as they are before their encoding in the URL; a list or map of strings is sent as
  JSON text.
\<close>

datatype query_value = Plain string | JsonList "string list" | JsonMap str_map

type_synonym query = "(string \<times> query_value) list"

text \<open>
  The body of a reply, with the fields that the code decodes; \<open>None\<close> for a body that cannot
  be read or is not the JSON text of an object with fields of the right types.
\<close>

record api_body =
  ab_Success :: bool
  ab_Message :: string
  ab_Status :: int
  ab_Cfg :: string
  ab_MaxIn :: "64 word"
  ab_MaxOut :: "64 word"

datatype api_reply = NoResponse | Response int string "api_body option"

type_synonym api_server = "query \<Rightarrow> api_reply"

datatype api_error =
    ErrNoResponse
  | ErrHTTPStatus int string
  | ErrBody
  | ErrCheckTokenFail string
  | ErrCheckProxyFail string

definition BoolToString :: "bool \<Rightarrow> string" where
  "BoolToString val = (if val then ''true'' else ''false'')"

definition EZStartGetCfg :: "api_server \<Rightarrow> string \<Rightarrow> string \<Rightarrow> api_error + string" where
  "EZStartGetCfg api token proxyid =
     (case api [(''action'', Plain ''getcfg''), (''token'', Plain token), (''id'', Plain proxyid)] of
        NoResponse \<Rightarrow> Inl ErrNoResponse
      | Response status txt body \<Rightarrow>
          if status \<noteq> 200 then Inl (ErrHTTPStatus status txt)
          else (case body of
                  None \<Rightarrow> Inl ErrBody
                | Some b \<Rightarrow> if \<not> ab_Success b then Inl (ErrCheckTokenFail (ab_Message b)) else Inr (ab_Cfg b)))"

definition token_query :: "string \<Rightarrow> string \<Rightarrow> int \<Rightarrow> string \<Rightarrow> query" where
  "token_query user token timestamp stk =
     [(''action'', Plain ''checktoken''), (''user'', Plain user), (''token'', Plain token),
      (''timestamp'', Plain (show_int timestamp)), (''apitoken'', Plain stk)]"

definition CheckToken :: "api_server \<Rightarrow> string \<Rightarrow> string \<Rightarrow> int \<Rightarrow> string \<Rightarrow> api_error + bool" where
  "CheckToken api user token timestamp stk =
     (case api (token_query user token timestamp stk) of
        NoResponse \<Rightarrow> Inl ErrNoResponse
      | Response status txt body \<Rightarrow>
          if status \<noteq> 200 then Inl (ErrHTTPStatus status txt)
          else (case body of
                  None \<Rightarrow> Inl ErrBody
                | Some b \<Rightarrow> if \<not> ab_Success b then Inl (ErrCheckTokenFail (ab_Message b)) else Inr True))"

definition proxy_query :: "string \<Rightarrow> new_proxy_msg \<Rightarrow> int \<Rightarrow> string \<Rightarrow> query" where
  "proxy_query user m timestamp stk =
     [(''action'', Plain ''checkproxy''), (''user'', Plain user), (''timestamp'', Plain (show_int timestamp)),
      (''apitoken'', Plain stk), (''proxy_name'', Plain (np_ProxyName m)), (''proxy_type'', Plain (np_ProxyType m)),
      (''use_encryption'', Plain (BoolToString (np_UseEncryption m))),
      (''use_compression'', Plain (BoolToString (np_UseCompression m))),
      (''domain'', JsonList (np_CustomDomains m)), (''subdomain'', Plain (np_SubDomain m)),
      (''locations'', JsonList (np_Locations m)), (''http_user'', Plain (np_HTTPUser m)),
      (''http_pwd'', Plain (np_HTTPPwd m)), (''host_header_rewrite'', Plain (np_HostHeaderRewrite m)),
      (''headers'', JsonMap (np_Headers m)), (''remote_port'', Plain (show_int (np_RemotePort m))),
      (''sk'', Plain (np_Sk m)), (''group'', Plain (np_Group m)), (''group_key'', Plain (np_GroupKey m))]"

definition CheckProxy :: "api_server \<Rightarrow> string \<Rightarrow> new_proxy_msg \<Rightarrow> int \<Rightarrow> string \<Rightarrow> api_error + bool" where
  "CheckProxy api user pMsg timestamp stk =
     (case api (proxy_query user pMsg timestamp stk) of
        NoResponse \<Rightarrow> Inl ErrNoResponse
      | Response status txt body \<Rightarrow>
          if status \<noteq> 200 then Inl (ErrHTTPStatus status txt)
          else (case body of
                  None \<Rightarrow> Inl ErrBody
                | Some b \<Rightarrow> if \<not> ab_Success b then Inl (ErrCheckProxyFail (ab_Message b)) else Inr True))"

text \<open>
  \<open>GetProxyLimit\<close>: the limits and the error. For a status other than 200 the error is the
  one of the request, which is nil, so the default limits are used.
\<close>

definition default_limit :: "64 word" where "default_limit = 1280"

definition GetProxyLimit :: "api_server \<Rightarrow> string \<Rightarrow> int \<Rightarrow> string \<Rightarrow> (64 word \<times> 64 word) \<times> api_error option" where
  "GetProxyLimit api user timestamp stk =
     (case api [(''action'', Plain ''getlimit''), (''user'', Plain user), (''timestamp'', Plain (show_int timestamp)),
                (''apitoken'', Plain stk)] of
        NoResponse \<Rightarrow> ((default_limit, default_limit), Some ErrNoResponse)
      | Response status txt body \<Rightarrow>
          if status \<noteq> 200 then ((default_limit, default_limit), None)
          else (case body of
                  None \<Rightarrow> ((default_limit, default_limit), Some ErrBody)
                | Some b \<Rightarrow>
                    if ab_Status b \<noteq> 200
                    then ((default_limit, default_limit), Some (ErrHTTPStatus (ab_Status b) (ab_Message b)))
                    else ((ab_MaxIn b, ab_MaxOut b), None)))"

lemma CheckToken_ok:
  "CheckToken api user token ts stk = Inr v \<longleftrightarrow>
     v \<and> (\<exists>txt b. api (token_query user token ts stk) = Response 200 txt (Some b) \<and> ab_Success b)"
  by (auto simp: CheckToken_def split: api_reply.splits option.splits)

lemma CheckProxy_ok:
  "CheckProxy api user m ts stk = Inr v \<longleftrightarrow>
     v \<and> (\<exists>txt b. api (proxy_query user m ts stk) = Response 200 txt (Some b) \<and> ab_Success b)"
  by (auto simp: CheckProxy_def split: api_reply.splits option.splits)

end
