(* ===== verification/Frp_Control.thy ===== *)
theory Frp_Control
  imports Frp_Proxy Frp_Api
begin

text \<open>
  The control of a client on the server (\<open>server/control.go\<close>), the table of all proxies
  (\<open>proxy.Manager\<close> of \<open>server/proxy/proxy.go\<close>) and the operations of the service on them
  (\<open>server/service.go\<close>): login, registration and closing of proxies, the pool of work
  connections, replacement and shutdown of a control. Controls are heap objects; a channel
  is its buffer with a flag for closed; calls of the metrics interface are logged. What
  happens while a call waits, the plugins and the API server are arguments.
\<close>

section \<open>Data\<close>

record login_msg =
  lm_Version :: string
  lm_User :: string
  lm_PrivilegeKey :: string
  lm_Timestamp :: int
  lm_RunID :: string
  lm_PoolCount :: int

datatype ctl_msg =
    ReqWorkConn
  | NewProxyResp string string string
  | Pong string

datatype metric_event =
    EvNewClient
  | EvCloseClient
  | EvNewProxy string string
  | EvCloseProxy string string

record control =
  ct_runID :: string
  ct_loginMsg :: login_msg
  ct_sendCh :: "ctl_msg list"
  ct_sendCh_closed :: bool
  ct_workConnCh :: "nat list"
  ct_workConnCh_cap :: int
  ct_workConnCh_closed :: bool
  ct_proxies :: "string \<rightharpoonup> proxy_obj"
  ct_poolCount :: int
  ct_portsUsedNum :: int
  ct_lastPing :: int
  ct_shutdown :: bool
  ct_stopped :: bool
  ct_inLimit :: "64 word"
  ct_outLimit :: "64 word"
  ct_running :: "proxy_obj option"

text \<open>
  \<open>ct_running\<close> is the local variable of a \<open>RegisterProxy\<close> in progress: the proxy that runs and
  is not yet in the tables. The messages of a client are handled one after the other, so
  there is at most one.
\<close>

record server =
  sv_cfg :: server_conf
  sv_auth :: auth_cfg
  sv_rc :: resources
  sv_pxys :: "string \<rightharpoonup> proxy_obj"
  sv_ctls :: "nat \<Rightarrow> control"
  sv_ctl_next :: nat
  sv_ctlsByRunID :: "string \<rightharpoonup> nat"
  sv_events :: "metric_event list"

text \<open>
  \<open>NewControl\<close>; \<open>None\<close> is the panic of \<open>make\<close> for a channel of negative size. Times are in
  nanoseconds; the last ping is dated with the time of the login.
\<close>

definition NewControl :: "int \<Rightarrow> server_conf \<Rightarrow> login_msg \<Rightarrow> 64 word \<Rightarrow> 64 word \<Rightarrow> control option" where
  "NewControl now sc loginMsg inLimit outLimit =
     (let poolCount = (if lm_PoolCount loginMsg > sc_MaxPoolCount sc then sc_MaxPoolCount sc else lm_PoolCount loginMsg)
      in if poolCount + 10 < 0 then None
         else Some \<lparr>ct_runID = lm_RunID loginMsg, ct_loginMsg = loginMsg, ct_sendCh = [], ct_sendCh_closed = False,
                ct_workConnCh = [], ct_workConnCh_cap = poolCount + 10, ct_workConnCh_closed = False,
                ct_proxies = Map.empty, ct_poolCount = poolCount, ct_portsUsedNum = 0,
                ct_lastPing = now, ct_shutdown = False,
                ct_stopped = False, ct_inLimit = inLimit, ct_outLimit = outLimit, ct_running = None\<rparr>)"

definition upd_ctl :: "nat \<Rightarrow> (control \<Rightarrow> control) \<Rightarrow> server \<Rightarrow> server" where
  "upd_ctl cid f sv = sv\<lparr>sv_ctls := (sv_ctls sv)(cid := f (sv_ctls sv cid))\<rparr>"

definition log_event :: "metric_event \<Rightarrow> server \<Rightarrow> server" where
  "log_event e sv = sv\<lparr>sv_events := sv_events sv @ [e]\<rparr>"

section \<open>The table of proxies\<close>

definition pxys_Add :: "(string \<rightharpoonup> proxy_obj) \<Rightarrow> string \<Rightarrow> proxy_obj \<Rightarrow> (string \<rightharpoonup> proxy_obj) option" where
  "pxys_Add pxys name px = (if pxys name \<noteq> None then None else Some (pxys(name \<mapsto> px)))"

definition pxys_Exist :: "(string \<rightharpoonup> proxy_obj) \<Rightarrow> string \<Rightarrow> bool" where
  "pxys_Exist pxys name \<longleftrightarrow> pxys name \<noteq> None"

definition pxys_Del :: "(string \<rightharpoonup> proxy_obj) \<Rightarrow> string \<Rightarrow> (string \<rightharpoonup> proxy_obj)" where
  "pxys_Del pxys name = pxys(name := None)"

section \<open>The table of controls\<close>

text \<open>\<open>Replaced\<close> takes the run id of the old control away and starts its shutdown.\<close>

definition Replaced :: "control \<Rightarrow> control" where
  "Replaced ctl = ctl\<lparr>ct_runID := '''', ct_shutdown := True\<rparr>"

definition ctls_Add :: "string \<Rightarrow> nat \<Rightarrow> server \<Rightarrow> nat option \<times> server" where
  "ctls_Add runID cid sv =
     (let old = sv_ctlsByRunID sv runID;
          sv = (case old of None \<Rightarrow> sv | Some o' \<Rightarrow> upd_ctl o' Replaced sv)
      in (old, sv\<lparr>sv_ctlsByRunID := (sv_ctlsByRunID sv)(runID \<mapsto> cid)\<rparr>))"

definition ctls_Del :: "string \<Rightarrow> nat \<Rightarrow> server \<Rightarrow> server" where
  "ctls_Del runID cid sv =
     (if sv_ctlsByRunID sv runID = Some cid then sv\<lparr>sv_ctlsByRunID := (sv_ctlsByRunID sv)(runID := None)\<rparr> else sv)"

definition ctls_GetByID :: "string \<Rightarrow> server \<Rightarrow> nat option" where
  "ctls_GetByID runID sv = sv_ctlsByRunID sv runID"

definition ctl_Close :: "control \<Rightarrow> control" where
  "ctl_Close ctl = ctl\<lparr>ct_shutdown := True\<rparr>"

text \<open>\<open>ControlManager.Close\<close>; \<open>runIDs\<close> lists the keys of the table.\<close>

definition ctls_Close :: "string list \<Rightarrow> server \<Rightarrow> server" where
  "ctls_Close runIDs sv =
     (fold (\<lambda>r sv. case sv_ctlsByRunID sv r of None \<Rightarrow> sv | Some cid \<Rightarrow> upd_ctl cid ctl_Close sv) runIDs sv)
       \<lparr>sv_ctlsByRunID := Map.empty\<rparr>"

text \<open>\<open>SearchByID\<close> visits all entries, in the order \<open>ks\<close>, and the last match wins.\<close>

fun search_loop :: "(string \<rightharpoonup> nat) \<Rightarrow> string \<Rightarrow> string list \<Rightarrow> nat option \<Rightarrow> nat option" where
  "search_loop m user [] ctl = ctl"
| "search_loop m user (k # ks) ctl =
     search_loop m user ks (if go_contains k (user @ ''-'') then m k else ctl)"

definition SearchByID :: "string list \<Rightarrow> string \<Rightarrow> server \<Rightarrow> nat option" where
  "SearchByID ks user sv = search_loop (sv_ctlsByRunID sv) user ks None"

section \<open>Work connections\<close>

definition send :: "ctl_msg \<Rightarrow> control \<Rightarrow> control" where
  "send m ctl = (if ct_sendCh_closed ctl then ctl else ctl\<lparr>ct_sendCh := ct_sendCh ctl @ [m]\<rparr>)"

text \<open>
  The result is the error; a send on the closed channel panics, and after the recovery the
  result is nil.
\<close>

definition ctl_RegisterWorkConn :: "nat \<Rightarrow> control \<Rightarrow> bool \<times> control" where
  "ctl_RegisterWorkConn conn ctl =
     (if ct_workConnCh_closed ctl then (True, ctl)
      else if int (length (ct_workConnCh ctl)) < ct_workConnCh_cap ctl
      then (True, ctl\<lparr>ct_workConnCh := ct_workConnCh ctl @ [conn]\<rparr>)
      else (False, ctl))"

datatype work_error = ErrCtlClosed | ErrControlAlreadyClosed | ErrWorkConnTimeout

text \<open>What happens while \<open>GetWorkConn\<close> waits.\<close>

datatype wait = Arrives nat | ChannelCloses | TimesOut

definition GetWorkConn :: "wait \<Rightarrow> control \<Rightarrow> (work_error + nat) \<times> control" where
  "GetWorkConn w ctl =
     (case ct_workConnCh ctl of
        conn # conns \<Rightarrow> (Inr conn, send ReqWorkConn (ctl\<lparr>ct_workConnCh := conns\<rparr>))
      | [] \<Rightarrow>
          if ct_workConnCh_closed ctl then (Inl ErrCtlClosed, ctl)
          else if ct_sendCh_closed ctl then (Inl ErrControlAlreadyClosed, ctl)
          else (let ctl = send ReqWorkConn ctl
                in case w of
                     Arrives conn \<Rightarrow> (Inr conn, send ReqWorkConn ctl)
                   | ChannelCloses \<Rightarrow> (Inl ErrCtlClosed, ctl)
                   | TimesOut \<Rightarrow> (Inl ErrWorkConnTimeout, ctl)))"

text \<open>The message that starts a work connection.\<close>

record start_work_conn =
  sw_ProxyName :: string
  sw_SrcAddr :: string
  sw_SrcPort :: "16 word"
  sw_DstAddr :: string
  sw_DstPort :: "16 word"
  sw_Error :: string

definition split_addr :: "string option \<Rightarrow> string \<times> 16 word" where
  "split_addr a =
     (case a of
        None \<Rightarrow> ('''', 0)
      | Some s \<Rightarrow>
          (case split_host_port s of
             Inl _ \<Rightarrow> ('''', 0)
           | Inr (host, port) \<Rightarrow> (host, word_of_int (fst (parse_int port)))))"

definition start_msg :: "string \<Rightarrow> string option \<Rightarrow> string option \<Rightarrow> start_work_conn" where
  "start_msg name src dst =
     (let (srcAddr, srcPort) = split_addr src; (dstAddr, dstPort) = split_addr dst
      in \<lparr>sw_ProxyName = name, sw_SrcAddr = srcAddr, sw_SrcPort = srcPort, sw_DstAddr = dstAddr,
          sw_DstPort = dstPort, sw_Error = ''''\<rparr>)"

text \<open>
  The loop of \<open>GetWorkConnFromPool\<close>, with what is left of its \<open>poolCount + 1\<close> rounds. The
  result is the connection (\<open>None\<close> is nil), the error, the control and the connections it
  closed. \<open>write_ok\<close> says to which connections the message can be written. The error of
  the write is a new variable of the loop body, so it does not reach the result.
\<close>

fun pool_loop ::
    "nat \<Rightarrow> (nat \<Rightarrow> bool) \<Rightarrow> (nat \<Rightarrow> wait) \<Rightarrow> nat \<Rightarrow> nat option \<Rightarrow> nat list \<Rightarrow> control \<Rightarrow>
     (nat option \<times> work_error option) \<times> control \<times> nat list" where
  "pool_loop 0 write_ok w i workConn closed ctl = ((workConn, None), ctl, closed)"
| "pool_loop (Suc n) write_ok w i workConn closed ctl =
     (case GetWorkConn (w i) ctl of
        (Inl e, ctl') \<Rightarrow> ((None, Some e), ctl', closed)
      | (Inr conn, ctl') \<Rightarrow>
          if write_ok conn then ((Some conn, None), ctl', closed)
          else pool_loop n write_ok w (Suc i) (Some conn) (closed @ [conn]) ctl')"

definition GetWorkConnFromPool ::
    "(nat \<Rightarrow> bool) \<Rightarrow> (nat \<Rightarrow> wait) \<Rightarrow> control \<Rightarrow> (nat option \<times> work_error option) \<times> control \<times> nat list" where
  "GetWorkConnFromPool write_ok w ctl = pool_loop (nat (ct_poolCount ctl + 1)) write_ok w 0 None [] ctl"

section \<open>Proxies of a control\<close>

datatype register_error =
    RegNewService
  | RegApi api_error
  | RegInvalidProxy
  | RegConf conf_error
  | RegMaxPorts
  | RegExists string
  | RegRun run_error
  | RegInUse string

text \<open>\<open>api_ok\<close> says whether the URL of the API can be parsed, \<open>now\<close> is the time of the query.\<close>

record api_env =
  ae_ok :: bool
  ae_api :: api_server
  ae_now :: int
  ae_token :: string

definition check_api :: "server_conf \<Rightarrow> api_env \<Rightarrow> string \<Rightarrow> new_proxy_msg \<Rightarrow> register_error option" where
  "check_api sc ae user m =
     (if \<not> ae_ok ae then Some RegNewService
      else if sc_EnableApi sc then
        (case CheckProxy (ae_api ae) user m (ae_now ae) (ae_token ae) of
           Inl e \<Rightarrow> Some (RegApi e)
         | Inr ok \<Rightarrow> if \<not> ok then Some RegInvalidProxy else None)
      else None)"

definition add_ports :: "server_conf \<Rightarrow> int \<Rightarrow> control \<Rightarrow> control" where
  "add_ports sc n ctl = (if sc_MaxPortsPerClient sc > 0 then ctl\<lparr>ct_portsUsedNum := ct_portsUsedNum ctl + n\<rparr> else ctl)"

text \<open>\<open>RegisterProxy\<close> up to the call of \<open>Run\<close>, with the deferred functions of an early return.\<close>

definition RegisterProxy_run ::
    "parse_float \<Rightarrow> api_env \<Rightarrow> run_env \<Rightarrow> nat \<Rightarrow> new_proxy_msg \<Rightarrow> server \<Rightarrow> (register_error + string) \<times> server" where
  "RegisterProxy_run pf ae en cid m sv =
     (let ctl = sv_ctls sv cid; sc = sv_cfg sv in
      case check_api sc ae (lm_User (ct_loginMsg ctl)) m of
        Some e \<Rightarrow> (Inl e, sv)
      | None \<Rightarrow>
          (case NewProxyConfFromMsg pf sc m of
             Inl e \<Rightarrow> (Inl (RegConf e), sv)
           | Inr cfg \<Rightarrow>
               let px = NewProxy (lm_User (ct_loginMsg ctl)) cfg in
               if sc_MaxPortsPerClient sc > 0 \<and> ct_portsUsedNum ctl + px_usedPortsNum px > sc_MaxPortsPerClient sc
               then (Inl RegMaxPorts, sv)
               else
                 let sv1 = upd_ctl cid (add_ports sc (px_usedPortsNum px)) sv;
                     undo = upd_ctl cid (add_ports sc (- px_usedPortsNum px)) in
                 if pxys_Exist (sv_pxys sv1) (np_ProxyName m) then (Inl (RegExists (np_ProxyName m)), undo sv1)
                 else (case proxy_Run sc en (sv_rc sv1) px of
                         (Inl e, rc) \<Rightarrow> (Inl (RegRun e), undo (sv1\<lparr>sv_rc := rc\<rparr>))
                       | (Inr (addr, px'), rc) \<Rightarrow>
                           (Inr addr, upd_ctl cid (\<lambda>c. c\<lparr>ct_running := Some px'\<rparr>) (sv1\<lparr>sv_rc := rc\<rparr>)))))"

text \<open>The rest of \<open>RegisterProxy\<close>: the tables, and the deferred functions if the name is taken.\<close>

definition RegisterProxy_add :: "int \<Rightarrow> nat \<Rightarrow> string \<Rightarrow> server \<Rightarrow> (register_error + string) \<times> server" where
  "RegisterProxy_add now cid addr sv =
     (case ct_running (sv_ctls sv cid) of
        None \<Rightarrow> (Inr addr, sv)
      | Some px \<Rightarrow>
          let sv1 = upd_ctl cid (\<lambda>c. c\<lparr>ct_running := None\<rparr>) sv in
          (case pxys_Add (sv_pxys sv1) (px_name px) px of
             None \<Rightarrow>
               (Inl (RegInUse (px_name px)),
                upd_ctl cid (add_ports (sv_cfg sv) (- px_usedPortsNum px))
                  (sv1\<lparr>sv_rc := snd (proxy_Close now (sv_rc sv1) px)\<rparr>))
           | Some pxys \<Rightarrow>
               (Inr addr,
                upd_ctl cid (\<lambda>c. c\<lparr>ct_proxies := (ct_proxies c)(px_name px \<mapsto> px)\<rparr>) (sv1\<lparr>sv_pxys := pxys\<rparr>))))"

definition RegisterProxy ::
    "parse_float \<Rightarrow> api_env \<Rightarrow> run_env \<Rightarrow> nat \<Rightarrow> new_proxy_msg \<Rightarrow> server \<Rightarrow> (register_error + string) \<times> server" where
  "RegisterProxy pf ae en cid m sv =
     (case RegisterProxy_run pf ae en cid m sv of
        (Inl e, sv') \<Rightarrow> (Inl e, sv')
      | (Inr addr, sv') \<Rightarrow> RegisterProxy_add (en_now en) cid addr sv')"

text \<open>
  Closing one proxy of a control, common to \<open>CloseProxy\<close> and \<open>ForceCloseProxy\<close>: \<open>name\<close> is its
  key in the control, \<open>reg\<close> the name given to the table of proxies and to the metrics.
\<close>

definition close_proxy :: "int \<Rightarrow> nat \<Rightarrow> proxy_obj \<Rightarrow> string \<Rightarrow> string \<Rightarrow> server \<Rightarrow> server" where
  "close_proxy now cid px name reg sv =
     (let sv = upd_ctl cid (add_ports (sv_cfg sv) (- px_usedPortsNum px)) sv;
          sv = sv\<lparr>sv_rc := snd (proxy_Close now (sv_rc sv) px), sv_pxys := pxys_Del (sv_pxys sv) reg\<rparr>;
          sv = upd_ctl cid (\<lambda>c. c\<lparr>ct_proxies := (ct_proxies c)(name := None)\<rparr>) sv
      in log_event (EvCloseProxy reg (bc_ProxyType (GetBaseConfig (px_cfg px)))) sv)"

definition CloseProxy :: "int \<Rightarrow> nat \<Rightarrow> string \<Rightarrow> server \<Rightarrow> server" where
  "CloseProxy now cid name sv =
     (case ct_proxies (sv_ctls sv cid) name of None \<Rightarrow> sv | Some px \<Rightarrow> close_proxy now cid px name (px_name px) sv)"

text \<open>\<open>ForceCloseProxy\<close>: the flag is False for the error that the proxy is not found.\<close>

definition ForceCloseProxy :: "int \<Rightarrow> nat \<Rightarrow> string \<Rightarrow> server \<Rightarrow> bool \<times> server" where
  "ForceCloseProxy now cid name sv =
     (case ct_proxies (sv_ctls sv cid) name of
        None \<Rightarrow> (False, sv)
      | Some px \<Rightarrow> (True, close_proxy now cid px name name sv))"

text \<open>
  \<open>stoper\<close>, after the goroutines of the control have ended; \<open>order\<close> lists the names of its
  proxies in the order of the iteration. Neither the map of proxies nor the number of ports
  is reset.
\<close>

fun stop_loop :: "int \<Rightarrow> (string \<rightharpoonup> proxy_obj) \<Rightarrow> string list \<Rightarrow> server \<Rightarrow> server" where
  "stop_loop now proxies [] sv = sv"
| "stop_loop now proxies (name # names) sv =
     (case proxies name of
        None \<Rightarrow> stop_loop now proxies names sv
      | Some px \<Rightarrow>
          stop_loop now proxies names
            (log_event (EvCloseProxy (px_name px) (bc_ProxyType (GetBaseConfig (px_cfg px))))
              (sv\<lparr>sv_rc := snd (proxy_Close now (sv_rc sv) px), sv_pxys := pxys_Del (sv_pxys sv) (px_name px)\<rparr>)))"

definition stoper :: "int \<Rightarrow> string list \<Rightarrow> nat \<Rightarrow> server \<Rightarrow> server" where
  "stoper now order cid sv =
     (let sv = upd_ctl cid (\<lambda>c. c\<lparr>ct_shutdown := True, ct_sendCh_closed := True, ct_workConnCh_closed := True, ct_workConnCh := []\<rparr>) sv;
          sv = stop_loop now (ct_proxies (sv_ctls sv cid)) order sv;
          sv = upd_ctl cid (\<lambda>c. c\<lparr>ct_stopped := True\<rparr>) sv
      in log_event EvCloseClient sv)"

section \<open>The service\<close>

text \<open>The pattern \<open>^[A-Za-z0-9]{1,64}$\<close> of user names.\<close>

definition alnum :: "char \<Rightarrow> bool" where
  "alnum c = (let n = (of_char c :: nat) in 65 \<le> n \<and> n \<le> 90 \<or> 97 \<le> n \<and> n \<le> 122 \<or> 48 \<le> n \<and> n \<le> 57)"

definition username_ok :: "string \<Rightarrow> bool" where
  "username_ok user \<longleftrightarrow> 1 \<le> length user \<and> length user \<le> 64 \<and> list_all alnum user"

datatype login_error =
    LogRandID
  | LogVersion
  | LogAuth auth_error
  | LogNewService
  | LogUsername
  | LogApi api_error
  | LogAuthorization
  | LogPanic

text \<open>The checks of \<open>RegisterControl\<close> under \<open>EnableApi\<close>, with the limits.\<close>

definition login_api :: "server_conf \<Rightarrow> api_env \<Rightarrow> login_msg \<Rightarrow> login_error + 64 word \<times> 64 word" where
  "login_api sc ae m =
     (if sc_EnableApi sc then
        if \<not> ae_ok ae then Inl LogNewService
        else if \<not> username_ok (lm_User m) then Inl LogUsername
        else (case CheckToken (ae_api ae) (lm_User m) (lm_PrivilegeKey m) (ae_now ae) (ae_token ae) of
                Inl e \<Rightarrow> Inl (LogApi e)
              | Inr valid \<Rightarrow>
                  if \<not> valid then Inl LogAuthorization
                  else (case GetProxyLimit (ae_api ae) (lm_User m) (ae_now ae) (ae_token ae) of
                          (_, Some e) \<Rightarrow> Inl (LogApi e)
                        | (limits, None) \<Rightarrow> Inr limits))
      else Inr (0, 0))"

text \<open>
  \<open>RegisterControl\<close>: \<open>rand\<close> is the source of random bytes, \<open>order\<close> the order in which an old
  control closes its proxies. A panic of \<open>NewControl\<close> ends the program; it is reported as
  \<open>LogPanic\<close>. The result is the new control.
\<close>

definition with_run_id :: "(nat \<Rightarrow> nat list option) \<Rightarrow> login_msg \<Rightarrow> login_msg option" where
  "with_run_id rand m =
     (if lm_RunID m = '''' then map_option (\<lambda>randid. m\<lparr>lm_RunID := lm_User m @ ''-'' @ randid\<rparr>) (RandID rand)
      else Some m)"

definition check_login :: "digest \<Rightarrow> api_env \<Rightarrow> server \<Rightarrow> login_msg \<Rightarrow> login_error + 64 word \<times> 64 word" where
  "check_login md5 ae sv m =
     (if \<not> Compat (lm_Version m) then Inl LogVersion
      else case VerifyLogin md5 (sv_auth sv) \<lparr>am_Timestamp = lm_Timestamp m, am_PrivilegeKey = lm_PrivilegeKey m\<rparr> of
             Some e \<Rightarrow> Inl (LogAuth e)
           | None \<Rightarrow> login_api (sv_cfg sv) ae m)"

text \<open>\<open>Start\<close>: the login is answered, and the client is asked for the connections of the pool.\<close>

definition ctl_Start :: "control \<Rightarrow> control" where
  "ctl_Start ctl = fold (\<lambda>_. send ReqWorkConn) [0..<nat (ct_poolCount ctl)] ctl"

definition add_control :: "int \<Rightarrow> string list \<Rightarrow> control \<Rightarrow> server \<Rightarrow> server" where
  "add_control now order ctl sv =
     (let cid = sv_ctl_next sv;
          sv = sv\<lparr>sv_ctls := (sv_ctls sv)(cid := ctl), sv_ctl_next := Suc cid\<rparr>;
          (old, sv) = ctls_Add (lm_RunID (ct_loginMsg ctl)) cid sv;
          sv = (case old of None \<Rightarrow> sv | Some o' \<Rightarrow> if ct_stopped (sv_ctls sv o') then sv else stoper now order o' sv)
      in log_event EvNewClient (upd_ctl cid ctl_Start sv))"

definition RegisterControl ::
    "digest \<Rightarrow> (nat \<Rightarrow> nat list option) \<Rightarrow> api_env \<Rightarrow> int \<Rightarrow> string list \<Rightarrow> login_msg \<Rightarrow> server \<Rightarrow> (login_error + nat) \<times> server" where
  "RegisterControl md5 rand ae now order loginMsg sv =
     (case with_run_id rand loginMsg of
        None \<Rightarrow> (Inl LogRandID, sv)
      | Some m \<Rightarrow>
          (case check_login md5 ae sv m of
             Inl e \<Rightarrow> (Inl e, sv)
           | Inr (inLimit, outLimit) \<Rightarrow>
               (case NewControl now (sv_cfg sv) m inLimit outLimit of
                  None \<Rightarrow> (Inl LogPanic, sv)
                | Some ctl \<Rightarrow> (Inr (sv_ctl_next sv), add_control now order ctl sv))))"

text \<open>
  \<open>RegisterWorkConn\<close> of the service: \<open>plugin\<close> is the plugin hook, which may change the message
  or refuse it. The flag is False for an error, upon which the connection is closed.
\<close>

definition svc_RegisterWorkConn ::
    "digest \<Rightarrow> (auth_msg \<Rightarrow> auth_msg option) \<Rightarrow> nat \<Rightarrow> string \<Rightarrow> auth_msg \<Rightarrow> server \<Rightarrow> bool \<times> server" where
  "svc_RegisterWorkConn md5 plugin conn runID m sv =
     (case ctls_GetByID runID sv of
        None \<Rightarrow> (False, sv)
      | Some cid \<Rightarrow>
          (case plugin m of
             None \<Rightarrow> (False, sv)
           | Some m' \<Rightarrow>
               if VerifyNewWorkConn md5 (sv_auth sv) m' \<noteq> None then (False, sv)
               else (let (ok, ctl) = ctl_RegisterWorkConn conn (sv_ctls sv cid)
                     in (ok, sv\<lparr>sv_ctls := (sv_ctls sv)(cid := ctl)\<rparr>))))"

datatype visitor_conn_error = NoControl string | VisitorError visitor_error

definition RegisterVisitorConn ::
    "digest \<Rightarrow> bool \<Rightarrow> bool \<Rightarrow> string \<Rightarrow> string \<Rightarrow> int \<Rightarrow> string \<Rightarrow> bool \<Rightarrow> server \<Rightarrow> visitor_conn_error + nat" where
  "RegisterVisitorConn md5 enc_ok put_ok runID name timestamp signKey useEncryption sv =
     (let deliver = (\<lambda>visitorUser. map_sum VisitorError id
            (visitor_NewConn md5 enc_ok put_ok (re_visitors (sv_rc sv)) name timestamp signKey useEncryption visitorUser))
      in if runID \<noteq> '''' then
           (case ctls_GetByID runID sv of
              None \<Rightarrow> Inl (NoControl runID)
            | Some cid \<Rightarrow> deliver (lm_User (ct_loginMsg (sv_ctls sv cid))))
         else deliver '''')"

definition CloseUser :: "string list \<Rightarrow> string \<Rightarrow> server \<Rightarrow> bool \<times> server" where
  "CloseUser ks user sv =
     (case SearchByID ks user sv of
        None \<Rightarrow> (False, sv)
      | Some cid \<Rightarrow> (True, upd_ctl cid (\<lambda>c. c\<lparr>ct_shutdown := True\<rparr>) sv))"

definition CloseUserProxy :: "int \<Rightarrow> string list \<Rightarrow> string \<Rightarrow> string \<Rightarrow> server \<Rightarrow> bool \<times> server" where
  "CloseUserProxy now ks user proxyName sv =
     (case SearchByID ks user sv of
        None \<Rightarrow> (False, sv)
      | Some cid \<Rightarrow> (True, CloseProxy now cid proxyName sv))"

text \<open>The requests \<open>/api/client/close/{user}\<close> and \<open>/api/client/close/{user}/{proxy}\<close>: status and message.\<close>

definition APICloseClient :: "string list \<Rightarrow> string \<Rightarrow> server \<Rightarrow> (int \<times> string) \<times> server" where
  "APICloseClient ks user sv =
     (let (ok, sv) = CloseUser ks user sv in (if \<not> ok then (404, ''user not login'') else (200, ''OK''), sv))"

definition APICloseUserProxy :: "int \<Rightarrow> string list \<Rightarrow> string \<Rightarrow> string \<Rightarrow> server \<Rightarrow> (int \<times> string) \<times> server" where
  "APICloseUserProxy now ks user proxy sv =
     (case SearchByID ks user sv of
        None \<Rightarrow> ((404, ''user not login''), sv)
      | Some cid \<Rightarrow>
          (let (found, sv) = ForceCloseProxy now cid proxy sv
           in (if \<not> found then (404, ''proxy '' @ proxy @ '' not found'') else (200, ''Proxy closed''), sv)))"

text \<open>
  The handler of \<open>NewProxy\<close> in \<open>manager\<close>: the answer to the client, and the metrics. \<open>plugin\<close> is
  the plugin hook; \<open>err_text\<close> renders an error.
\<close>

definition manager_NewProxy ::
    "parse_float \<Rightarrow> (register_error \<Rightarrow> string) \<Rightarrow> (new_proxy_msg \<Rightarrow> string + new_proxy_msg) \<Rightarrow> api_env \<Rightarrow> run_env \<Rightarrow>
     nat \<Rightarrow> new_proxy_msg \<Rightarrow> server \<Rightarrow> server" where
  "manager_NewProxy pf err_text plugin ae en cid m sv =
     (let failed = (\<lambda>m e. NewProxyResp (np_ProxyName m) '''' (GenerateResponseErrorString
              (''new proxy ['' @ np_ProxyName m @ ''] error'') e (sc_DetailedErrorsToClient (sv_cfg sv))))
      in case plugin m of
           Inl e \<Rightarrow> upd_ctl cid (send (failed m e)) sv
         | Inr m' \<Rightarrow>
             (case RegisterProxy pf ae en cid m' sv of
                (Inl e, sv') \<Rightarrow> upd_ctl cid (send (failed m' (err_text e))) sv'
              | (Inr addr, sv') \<Rightarrow>
                  upd_ctl cid (send (NewProxyResp (np_ProxyName m') addr ''''))
                    (log_event (EvNewProxy (np_ProxyName m') (if np_ProxyType m' = '''' then ''tcp'' else np_ProxyType m')) sv')))"

text \<open>The handler of \<open>Ping\<close>: False if the manager ends and with it the control.\<close>

definition manager_Ping ::
    "digest \<Rightarrow> (auth_error \<Rightarrow> string) \<Rightarrow> (auth_msg \<Rightarrow> string + auth_msg) \<Rightarrow> int \<Rightarrow> nat \<Rightarrow> auth_msg \<Rightarrow> server \<Rightarrow> bool \<times> server" where
  "manager_Ping md5 err_text plugin now cid m sv =
     (let failed = (\<lambda>e. (False, upd_ctl cid (send (Pong (GenerateResponseErrorString ''invalid ping'' e
              (sc_DetailedErrorsToClient (sv_cfg sv))))) sv))
      in case plugin m of
           Inl e \<Rightarrow> failed e
         | Inr m' \<Rightarrow>
             (case VerifyPing md5 (sv_auth sv) m' of
                Some e \<Rightarrow> failed (err_text e)
              | None \<Rightarrow> (True, upd_ctl cid (\<lambda>c. send (Pong '''') (c\<lparr>ct_lastPing := now\<rparr>)) sv)))"

section \<open>Steps and invariant\<close>

definition NewServer :: "server_conf \<Rightarrow> auth_cfg \<Rightarrow> int set \<Rightarrow> control \<Rightarrow> server" where
  "NewServer sc au allow c0 = \<lparr>sv_cfg = sc, sv_auth = au, sv_rc = NewResources allow, sv_pxys = Map.empty,
     sv_ctls = (\<lambda>_. c0), sv_ctl_next = 0, sv_ctlsByRunID = Map.empty, sv_events = []\<rparr>"

definition live :: "server \<Rightarrow> nat \<Rightarrow> bool" where
  "live sv cid \<longleftrightarrow> cid < sv_ctl_next sv \<and> \<not> ct_stopped (sv_ctls sv cid)"

text \<open>A control can be stopped when its manager has ended; the proxies are visited in some order.\<close>

definition stoppable :: "server \<Rightarrow> string list \<Rightarrow> nat \<Rightarrow> bool" where
  "stoppable sv order cid \<longleftrightarrow> ct_running (sv_ctls sv cid) = None \<and> set order = dom (ct_proxies (sv_ctls sv cid))"

text \<open>
  The steps of the server. The two parts of \<open>RegisterProxy\<close> are separate steps, so that the
  registrations of several clients interleave; requests to close come from the client or
  from the dashboard. A port in use cannot be bound again.
\<close>

inductive server_step :: "server \<Rightarrow> server \<Rightarrow> bool" where
  login: "\<forall>m cid. with_run_id rand l = Some m \<and> sv_ctlsByRunID sv (lm_RunID m) = Some cid \<and> live sv cid
      \<longrightarrow> stoppable sv order cid \<Longrightarrow>
    server_step sv (snd (RegisterControl md5 rand ae now order l sv))"
| run: "live sv cid \<Longrightarrow> ct_running (sv_ctls sv cid) = None \<Longrightarrow> env_ok (sv_rc sv) en \<Longrightarrow>
    server_step sv (snd (RegisterProxy_run pf ae en cid m sv))"
| add: "live sv cid \<Longrightarrow> server_step sv (snd (RegisterProxy_add now cid addr sv))"
| close: "live sv cid \<Longrightarrow> server_step sv (CloseProxy now cid name sv)"
| force_close: "live sv cid \<Longrightarrow> server_step sv (snd (ForceCloseProxy now cid name sv))"
| work_conn: "server_step sv (snd (svc_RegisterWorkConn md5 plugin conn runID wm sv))"
| get_work_conn: "live sv cid \<Longrightarrow> server_step sv (upd_ctl cid (\<lambda>c. fst (snd (GetWorkConnFromPool write_ok w c))) sv)"
| close_user: "server_step sv (snd (CloseUser ks user sv))"
| stop: "live sv cid \<Longrightarrow> stoppable sv order cid \<Longrightarrow> server_step sv (stoper now order cid sv)"
| forget: "server_step sv (ctls_Del runID cid sv)"
| answer: "server_step sv (upd_ctl cid (send msg) sv)"
| ping: "server_step sv (snd (manager_Ping md5 err_text pplugin now cid pm sv))"
| close_all: "server_step sv (ctls_Close runIDs sv)"

inductive_cases server_stepE: "server_step sv sv'"

inductive server_reachable :: "server_conf \<Rightarrow> int set \<Rightarrow> server \<Rightarrow> bool" for sc allow where
  start: "server_reachable sc allow (NewServer sc au allow c0)"
| step: "server_reachable sc allow sv \<Longrightarrow> server_step sv sv' \<Longrightarrow> server_reachable sc allow sv'"

definition ports_of :: "(string \<rightharpoonup> proxy_obj) \<Rightarrow> int" where
  "ports_of m = (\<Sum>n \<in> dom m. px_usedPortsNum (the (m n)))"

definition running_ports :: "control \<Rightarrow> int" where
  "running_ports c = (case ct_running c of None \<Rightarrow> 0 | Some px \<Rightarrow> px_usedPortsNum px)"

definition ports_counted :: "server_conf \<Rightarrow> control \<Rightarrow> bool" where
  "ports_counted sc c \<longleftrightarrow> finite (dom (ct_proxies c)) \<and>
     (sc_MaxPortsPerClient sc > 0 \<longrightarrow>
        ct_portsUsedNum c = ports_of (ct_proxies c) + running_ports c \<and> ct_portsUsedNum c \<le> sc_MaxPortsPerClient sc) \<and>
     (\<forall>px \<in> ran (ct_proxies c). px_usedPortsNum px \<ge> 0) \<and> running_ports c \<ge> 0"

definition registered :: "(string \<rightharpoonup> proxy_obj) \<Rightarrow> control \<Rightarrow> bool" where
  "registered pxys c \<longleftrightarrow> (\<forall>n px. ct_proxies c n = Some px \<longrightarrow> px_name px = n \<and> pxys n = Some px)"

definition server_inv :: "server_conf \<Rightarrow> server \<Rightarrow> bool" where
  "server_inv sc sv \<longleftrightarrow> sv_cfg sv = sc \<and>
     (\<forall>cid. live sv cid \<longrightarrow> ports_counted sc (sv_ctls sv cid) \<and> registered (sv_pxys sv) (sv_ctls sv cid)) \<and>
     (\<forall>n cid cid'. live sv cid \<and> live sv cid' \<and> ct_proxies (sv_ctls sv cid) n \<noteq> None \<and>
        ct_proxies (sv_ctls sv cid') n \<noteq> None \<longrightarrow> cid = cid') \<and>
     (\<forall>n px. sv_pxys sv n = Some px \<longrightarrow> (\<exists>cid. live sv cid \<and> ct_proxies (sv_ctls sv cid) n = Some px)) \<and>
     (\<forall>runID cid. sv_ctlsByRunID sv runID = Some cid \<longrightarrow> cid < sv_ctl_next sv)"

lemma server_invD:
  assumes "server_inv sc sv"
  shows "sv_cfg sv = sc" "live sv cid \<Longrightarrow> ports_counted sc (sv_ctls sv cid)"
    "live sv cid \<Longrightarrow> registered (sv_pxys sv) (sv_ctls sv cid)"
    "live sv cid \<Longrightarrow> live sv cid' \<Longrightarrow> ct_proxies (sv_ctls sv cid) n \<noteq> None \<Longrightarrow> ct_proxies (sv_ctls sv cid') n \<noteq> None \<Longrightarrow> cid = cid'"
    "sv_pxys sv n = Some px \<Longrightarrow> \<exists>cid. live sv cid \<and> ct_proxies (sv_ctls sv cid) n = Some px"
    "sv_ctlsByRunID sv runID = Some cid \<Longrightarrow> cid < sv_ctl_next sv"
  using assms unfolding server_inv_def by blast+

text \<open>
  Most steps change one control and the table of proxies in a related way; the invariant
  then follows from what happens to that control.
\<close>

lemma server_inv_upd:
  assumes inv: "server_inv sc sv" and l: "live sv cid"
    and ctls: "sv_ctls sv' = (sv_ctls sv)(cid := c)" and next': "sv_ctl_next sv' = sv_ctl_next sv"
    and cfg: "sv_cfg sv' = sv_cfg sv" and ids: "\<And>r i. sv_ctlsByRunID sv' r = Some i \<Longrightarrow> i < sv_ctl_next sv"
    and st: "\<not> ct_stopped c" and pc: "ports_counted sc c"
    and same: "\<And>n. n \<notin> K \<Longrightarrow> ct_proxies c n = ct_proxies (sv_ctls sv cid) n \<and> sv_pxys sv' n = sv_pxys sv n"
    and key: "\<And>n px. n \<in> K \<Longrightarrow> ct_proxies c n = Some px \<Longrightarrow> px_name px = n"
    and both: "\<And>n. n \<in> K \<Longrightarrow> ct_proxies c n = sv_pxys sv' n"
    and mine: "\<And>n. n \<in> K \<Longrightarrow> sv_pxys sv n = None \<or> ct_proxies (sv_ctls sv cid) n \<noteq> None"
  shows "server_inv sc sv'"
proof -
  have lv: "live sv' i \<longleftrightarrow> live sv i" for i
    using l st by (auto simp: live_def ctls next')
  have other: "ct_proxies (sv_ctls sv i) n = None" if "live sv i" "i \<noteq> cid" "n \<in> K" for i n
  proof (rule ccontr)
    assume "ct_proxies (sv_ctls sv i) n \<noteq> None"
    moreover have "ct_proxies (sv_ctls sv cid) n \<noteq> None"
      using mine [OF that(3)] server_invD(3) [OF inv that(1)] calculation by (auto simp: registered_def)
    ultimately show False using server_invD(4) [OF inv that(1) l] that(2) by blast
  qed
  have reg: "registered (sv_pxys sv') (sv_ctls sv' i)" if "live sv i" for i
    unfolding registered_def
  proof (intro allI impI)
    fix n px assume p: "ct_proxies (sv_ctls sv' i) n = Some px"
    show "px_name px = n \<and> sv_pxys sv' n = Some px"
      using p server_invD(3) [OF inv that] same [of n] key [of n px] both [of n] other [OF that, of n]
      by (cases "n \<in> K"; cases "i = cid") (auto simp: ctls registered_def)
  qed
  have cnt: "ports_counted sc (sv_ctls sv' i)" if "live sv i" for i
    using pc server_invD(2) [OF inv that] by (simp add: ctls)
  have dis: "i = j" if "live sv i" "live sv j" "ct_proxies (sv_ctls sv' i) n \<noteq> None" "ct_proxies (sv_ctls sv' j) n \<noteq> None" for i j n
    using that server_invD(4) [OF inv that(1,2), of n] other [OF that(1), of n] other [OF that(2), of n] same [of n]
    by (cases "n \<in> K"; cases "i = cid"; cases "j = cid") (auto simp: ctls)
  have cov: "\<exists>i. live sv i \<and> ct_proxies (sv_ctls sv' i) n = Some px" if "sv_pxys sv' n = Some px" for n px
  proof (cases "n \<in> K")
    case True
    then show ?thesis using that both [OF True] l by (auto simp: ctls)
  next
    case False
    then have "sv_pxys sv n = Some px" using that same by simp
    then obtain i where "live sv i" "ct_proxies (sv_ctls sv i) n = Some px" using server_invD(5) [OF inv] by blast
    then show ?thesis using same [OF False] by (cases "i = cid") (auto simp: ctls)
  qed
  show ?thesis
    unfolding server_inv_def lv using cfg server_invD(1) [OF inv] reg cnt dis cov ids by (simp add: next') blast
qed

subsection \<open>Preservation\<close>

lemma proxy_Run_keeps:
  "proxy_Run sc en re px = (Inr (addr, px'), re') \<Longrightarrow> px_name px' = px_name px \<and> px_usedPortsNum px' = px_usedPortsNum px"
  by (cases "px_cfg px")
    (auto simp: proxy_Run_def TCPProxy_Run_def UDPProxy_Run_def HTTPProxy_Run_def HTTPSProxy_Run_def TCPMuxProxy_Run_def
      STCPProxy_Run_def XTCPProxy_Run_def Let_def split: if_splits prod.splits sum.splits option.splits bool.splits)

lemma UnmarshalFromMsg_name: "bc_ProxyName (GetBaseConfig (UnmarshalFromMsg pf m c)) = np_ProxyName m"
  by (cases c) (simp_all add: base_unmarshalFromMsg_def Let_def)

lemma NewProxyConfFromMsg_name:
  "NewProxyConfFromMsg pf s m = Inr c \<Longrightarrow> bc_ProxyName (GetBaseConfig c) = np_ProxyName m"
  by (auto simp: NewProxyConfFromMsg_def Let_def UnmarshalFromMsg_name split: option.splits if_splits)

lemma used_ports_num_nonneg: "used_ports_num c \<ge> 0"
  by (cases c) simp_all

lemma ports_of_upd:
  assumes "finite (dom m)" and "m n = None"
  shows "ports_of (m(n \<mapsto> px)) = ports_of m + px_usedPortsNum px"
proof -
  have "n \<notin> dom m" using assms(2) by auto
  moreover have "(\<Sum>x \<in> dom m. px_usedPortsNum (the ((m(n \<mapsto> px)) x))) = (\<Sum>x \<in> dom m. px_usedPortsNum (the (m x)))"
    using assms(2) by (intro sum.cong) auto
  ultimately show ?thesis using assms(1) by (simp add: ports_of_def)
qed

lemma ports_of_del:
  assumes "finite (dom m)" and "m n = Some px"
  shows "ports_of (m(n := None)) = ports_of m - px_usedPortsNum px"
proof -
  have "m = (m(n := None))(n \<mapsto> px)" using assms(2) by auto
  moreover have "ports_of ((m(n := None))(n \<mapsto> px)) = ports_of (m(n := None)) + px_usedPortsNum px"
    using assms(1) by (intro ports_of_upd) auto
  ultimately show ?thesis by simp
qed

lemma ports_counted_del:
  assumes "ports_counted sc c" and "ct_proxies c n = Some px"
  shows "ports_counted sc (add_ports sc (- px_usedPortsNum px) c\<lparr>ct_proxies := (ct_proxies c)(n := None)\<rparr>)"
proof -
  have "0 \<le> px_usedPortsNum px" using assms by (auto simp: ports_counted_def ran_def)
  moreover have "ran ((ct_proxies c)(n := None)) \<subseteq> ran (ct_proxies c)" by (auto simp: ran_def split: if_splits)
  ultimately show ?thesis
    using assms(1) ports_of_del [where m = "ct_proxies c", OF _ assms(2)]
    by (auto simp: ports_counted_def add_ports_def running_ports_def)
qed

lemma ports_counted_add:
  assumes "ports_counted sc c" and "ct_running c = Some px" and "ct_proxies c n = None"
  shows "ports_counted sc (c\<lparr>ct_running := None, ct_proxies := (ct_proxies c)(n \<mapsto> px)\<rparr>)"
  using assms ports_of_upd [where m = "ct_proxies c", OF _ assms(3)]
  by (auto simp: ports_counted_def running_ports_def ran_def split: if_splits)

lemma ports_counted_drop:
  assumes "ports_counted sc c" and "ct_running c = Some px"
  shows "ports_counted sc (add_ports sc (- px_usedPortsNum px) (c\<lparr>ct_running := None\<rparr>))"
  using assms by (auto simp: ports_counted_def running_ports_def add_ports_def)

lemma ports_counted_run:
  assumes "ports_counted sc c" and "ct_running c = None" and "px_usedPortsNum px \<ge> 0"
    and "sc_MaxPortsPerClient sc > 0 \<Longrightarrow> ct_portsUsedNum c + px_usedPortsNum px \<le> sc_MaxPortsPerClient sc"
  shows "ports_counted sc (add_ports sc (px_usedPortsNum px) c\<lparr>ct_running := Some px\<rparr>)"
  using assms by (auto simp: ports_counted_def running_ports_def add_ports_def)

lemma add_ports_undo: "add_ports sc (- k) (add_ports sc k c) = c"
  by (simp add: add_ports_def)

lemma add_ports_simps [simp]:
  "ct_proxies (add_ports sc k c) = ct_proxies c" "ct_running (add_ports sc k c) = ct_running c"
  "ct_stopped (add_ports sc k c) = ct_stopped c"
  by (simp_all add: add_ports_def)

lemma upd_ctl_simps [simp]:
  "sv_ctls (upd_ctl cid f sv) = (sv_ctls sv)(cid := f (sv_ctls sv cid))" "sv_cfg (upd_ctl cid f sv) = sv_cfg sv"
  "sv_pxys (upd_ctl cid f sv) = sv_pxys sv" "sv_ctl_next (upd_ctl cid f sv) = sv_ctl_next sv"
  "sv_ctlsByRunID (upd_ctl cid f sv) = sv_ctlsByRunID sv" "sv_rc (upd_ctl cid f sv) = sv_rc sv"
  "sv_events (upd_ctl cid f sv) = sv_events sv"
  by (simp_all add: upd_ctl_def)

lemma log_event_simps [simp]:
  "sv_ctls (log_event e sv) = sv_ctls sv" "sv_cfg (log_event e sv) = sv_cfg sv" "sv_pxys (log_event e sv) = sv_pxys sv"
  "sv_ctl_next (log_event e sv) = sv_ctl_next sv" "sv_ctlsByRunID (log_event e sv) = sv_ctlsByRunID sv"
  "sv_rc (log_event e sv) = sv_rc sv" "sv_events (log_event e sv) = sv_events sv @ [e]"
  by (simp_all add: log_event_def)

lemma server_inv_same:
  assumes "server_inv sc sv" "live sv cid" "sv_ctls sv' = (sv_ctls sv)(cid := c)" "sv_ctl_next sv' = sv_ctl_next sv"
    "sv_cfg sv' = sv_cfg sv" "sv_ctlsByRunID sv' = sv_ctlsByRunID sv" "\<not> ct_stopped c" "ports_counted sc c"
    "ct_proxies c = ct_proxies (sv_ctls sv cid)" "sv_pxys sv' = sv_pxys sv"
  shows "server_inv sc sv'"
  by (rule server_inv_upd [OF assms(1-5), where K = "{}"])
    (use assms server_invD(6) [OF assms(1)] in auto)

lemma RegisterProxy_run_inv [inv_intros]:
  assumes inv: "server_inv sc sv" and l: "live sv cid" and r: "ct_running (sv_ctls sv cid) = None"
  shows "server_inv sc (snd (RegisterProxy_run pf ae en cid m sv))"
proof -
  note D = server_invD(1) [OF inv] server_invD(2) [OF inv l]
  have st: "\<not> ct_stopped (sv_ctls sv cid)" using l by (simp add: live_def)
  have undo1: "server_inv sc (upd_ctl cid (add_ports sc (- k)) ((upd_ctl cid (add_ports sc k) sv)\<lparr>sv_rc := rc\<rparr>))" for k rc
    by (rule server_inv_same [OF inv l]) (use D st in \<open>simp_all add: add_ports_undo\<close>)
  have undo2: "server_inv sc (upd_ctl cid (add_ports sc (- k)) (upd_ctl cid (add_ports sc k) sv))" for k
    by (rule server_inv_same [OF inv l]) (use D st in \<open>simp_all add: add_ports_undo\<close>)
  have go: "server_inv sc (upd_ctl cid (\<lambda>c. c\<lparr>ct_running := Some px'\<rparr>) ((upd_ctl cid (add_ports sc (px_usedPortsNum px')) sv)\<lparr>sv_rc := rc\<rparr>))"
    if "px_usedPortsNum px' = used_ports_num cfg"
      "sc_MaxPortsPerClient sc \<le> 0 \<or> ct_portsUsedNum (sv_ctls sv cid) + used_ports_num cfg \<le> sc_MaxPortsPerClient sc"
    for px' rc cfg
  proof -
    have pc: "ports_counted sc (add_ports sc (px_usedPortsNum px') (sv_ctls sv cid)\<lparr>ct_running := Some px'\<rparr>)"
      using that used_ports_num_nonneg [of cfg] by (intro ports_counted_run [OF D(2) r]) auto
    show ?thesis
    by (rule server_inv_same [OF inv l, where c = "add_ports sc (px_usedPortsNum px') (sv_ctls sv cid)\<lparr>ct_running := Some px'\<rparr>"])
      (use D st pc in simp_all)
  qed
  show ?thesis
    using D(1) inv
    by (auto simp: RegisterProxy_run_def Let_def NewProxy_def undo1 undo2 not_less
        split: option.splits sum.splits prod.splits dest!: proxy_Run_keeps)
      (metis go)+
qed

lemma RegisterProxy_add_inv [inv_intros]:
  assumes inv: "server_inv sc sv" and l: "live sv cid"
  shows "server_inv sc (snd (RegisterProxy_add now cid addr sv))"
proof (cases "ct_running (sv_ctls sv cid)")
  case None
  then show ?thesis using inv by (simp add: RegisterProxy_add_def)
next
  case (Some px)
  let ?c = "sv_ctls sv cid"
  have st: "\<not> ct_stopped ?c" using l by (simp add: live_def)
  note D = server_invD(1) [OF inv] server_invD(2) [OF inv l] server_invD(3) [OF inv l]
  show ?thesis
  proof (cases "sv_pxys sv (px_name px)")
    case None
    then have "ct_proxies ?c (px_name px) = None"
      using D(3) by (cases "ct_proxies ?c (px_name px)") (auto simp: registered_def)
    then have pc: "ports_counted sc (?c\<lparr>ct_running := None, ct_proxies := (ct_proxies ?c)(px_name px \<mapsto> px)\<rparr>)"
      by (rule ports_counted_add [OF D(2) Some])
    show ?thesis
      by (rule server_inv_upd [OF inv l, where K = "{px_name px}"
            and c = "?c\<lparr>ct_running := None, ct_proxies := (ct_proxies ?c)(px_name px \<mapsto> px)\<rparr>"])
        (use Some None st pc server_invD(6) [OF inv] in \<open>auto simp: RegisterProxy_add_def pxys_Add_def\<close>)
  next
    case (Some q)
    with \<open>ct_running ?c = Some px\<close> show ?thesis
      by (intro server_inv_same [OF inv l, where c = "add_ports sc (- px_usedPortsNum px) (?c\<lparr>ct_running := None\<rparr>)"])
        (use st D(1) ports_counted_drop [OF D(2)] in \<open>auto simp: RegisterProxy_add_def pxys_Add_def\<close>)
  qed
qed

lemma close_proxy_inv:
  assumes inv: "server_inv sc sv" and l: "live sv cid" and p: "ct_proxies (sv_ctls sv cid) name = Some px" and "reg = name"
  shows "server_inv sc (close_proxy now cid px name reg sv)"
proof -
  let ?c = "sv_ctls sv cid"
  have st: "\<not> ct_stopped ?c" using l by (simp add: live_def)
  note D = server_invD(1) [OF inv] server_invD(2) [OF inv l] server_invD(3) [OF inv l]
  show ?thesis
    by (rule server_inv_upd [OF inv l, where K = "{name}"
          and c = "add_ports sc (- px_usedPortsNum px) ?c\<lparr>ct_proxies := (ct_proxies ?c)(name := None)\<rparr>"])
      (use assms(4) p st D(1) ports_counted_del [OF D(2) p] server_invD(6) [OF inv]
        in \<open>auto simp: close_proxy_def Let_def pxys_Del_def add_ports_def\<close>)
qed

lemma CloseProxy_inv [inv_intros]:
  assumes "server_inv sc sv" and "live sv cid"
  shows "server_inv sc (CloseProxy now cid name sv)"
  using assms close_proxy_inv [OF assms] server_invD(3) [OF assms]
  by (auto simp: CloseProxy_def registered_def split: option.splits)

lemma ForceCloseProxy_inv [inv_intros]:
  assumes "server_inv sc sv" and "live sv cid"
  shows "server_inv sc (snd (ForceCloseProxy now cid name sv))"
  using assms close_proxy_inv [OF assms] by (auto simp: ForceCloseProxy_def split: option.splits)

text \<open>Steps that touch neither the proxies nor the ports of any control.\<close>

lemma server_inv_harmless:
  assumes inv: "server_inv sc sv" and "sv_cfg sv' = sv_cfg sv" "sv_pxys sv' = sv_pxys sv" "sv_ctl_next sv' = sv_ctl_next sv"
    and c: "\<And>i. ct_proxies (sv_ctls sv' i) = ct_proxies (sv_ctls sv i) \<and> ct_running (sv_ctls sv' i) = ct_running (sv_ctls sv i) \<and>
      ct_portsUsedNum (sv_ctls sv' i) = ct_portsUsedNum (sv_ctls sv i) \<and> ct_stopped (sv_ctls sv' i) = ct_stopped (sv_ctls sv i)"
    and "\<And>r i. sv_ctlsByRunID sv' r = Some i \<Longrightarrow> i < sv_ctl_next sv"
  shows "server_inv sc sv'"
proof -
  have "live sv' i = live sv i" for i using c assms by (simp add: live_def)
  moreover have "ports_counted sc (sv_ctls sv' i) = ports_counted sc (sv_ctls sv i)" for i
    using c [of i] by (simp add: ports_counted_def running_ports_def)
  moreover have "registered p (sv_ctls sv' i) = registered p (sv_ctls sv i)" for i p
    using c [of i] by (simp add: registered_def)
  ultimately show ?thesis
    using inv assms(2-6) unfolding server_inv_def by simp blast
qed

lemma send_simps [simp]:
  "ct_proxies (send m c) = ct_proxies c" "ct_running (send m c) = ct_running c"
  "ct_portsUsedNum (send m c) = ct_portsUsedNum c" "ct_stopped (send m c) = ct_stopped c"
  "ct_poolCount (send m c) = ct_poolCount c" "ct_workConnCh (send m c) = ct_workConnCh c"
  "ct_workConnCh_closed (send m c) = ct_workConnCh_closed c" "ct_workConnCh_cap (send m c) = ct_workConnCh_cap c"
  "ct_sendCh_closed (send m c) = ct_sendCh_closed c"
  by (simp_all add: send_def)

definition same_books :: "control \<Rightarrow> control \<Rightarrow> bool" where
  "same_books c' c \<longleftrightarrow> ct_proxies c' = ct_proxies c \<and> ct_running c' = ct_running c \<and>
     ct_portsUsedNum c' = ct_portsUsedNum c \<and> ct_stopped c' = ct_stopped c"

lemma GetWorkConn_books: "same_books (snd (GetWorkConn w c)) c"
  by (auto simp: same_books_def GetWorkConn_def Let_def split: list.splits wait.splits)

lemma pool_loop_books: "same_books (fst (snd (pool_loop n write_ok w i wc closed c))) c"
proof (induction n arbitrary: i wc closed c)
  case (Suc n)
  obtain res c' where g: "GetWorkConn (w i) c = (res, c')" by force
  then have "same_books c' c" using GetWorkConn_books [of "w i" c] by simp
  then show ?case
    using Suc [of "Suc i" _ _ c'] g by (auto simp: same_books_def split: sum.splits)
qed (simp add: same_books_def)

lemma fold_send_books: "same_books (fold (\<lambda>_. send m) xs c) c"
proof (induction xs arbitrary: c)
  case (Cons x xs)
  then show ?case using Cons.IH [of "send m c"] by (simp add: same_books_def)
qed (simp add: same_books_def)

lemma ctl_Start_books: "same_books (ctl_Start c) c"
  by (simp add: ctl_Start_def fold_send_books)

lemma send_books: "same_books (send m c) c"
  by (simp add: same_books_def)

lemma server_inv_books:
  assumes "server_inv sc sv" and "\<And>c. same_books (f c) c"
  shows "server_inv sc (upd_ctl cid f sv)"
  by (rule server_inv_harmless [OF assms(1)])
    (use assms(2) [of "sv_ctls sv cid"] server_invD(6) [OF assms(1)] in \<open>auto simp: same_books_def\<close>)

lemma svc_RegisterWorkConn_inv [inv_intros]:
  assumes "server_inv sc sv"
  shows "server_inv sc (snd (svc_RegisterWorkConn md5 plugin conn runID wm sv))"
  by (rule server_inv_harmless [OF assms])
    (use server_invD(6) [OF assms] in \<open>auto simp: svc_RegisterWorkConn_def ctl_RegisterWorkConn_def Let_def
      split: option.splits if_splits\<close>)

lemma CloseUser_inv [inv_intros]:
  "server_inv sc sv \<Longrightarrow> server_inv sc (snd (CloseUser ks user sv))"
  by (auto simp: CloseUser_def same_books_def split: option.splits intro!: server_inv_books)

lemma manager_Ping_inv [inv_intros]:
  "server_inv sc sv \<Longrightarrow> server_inv sc (snd (manager_Ping md5 err_text plugin now cid m sv))"
  by (auto simp: manager_Ping_def Let_def same_books_def split: sum.splits option.splits intro!: server_inv_books)

lemma ctls_Close_inv [inv_intros]:
  assumes "server_inv sc sv"
  shows "server_inv sc (ctls_Close runIDs sv)"
proof -
  have "server_inv sc (fold (\<lambda>r sv. case sv_ctlsByRunID sv r of None \<Rightarrow> sv | Some cid \<Rightarrow> upd_ctl cid ctl_Close sv) runIDs sv)"
    using assms
  proof (induction runIDs arbitrary: sv)
    case (Cons r rs)
    have "server_inv sc (case sv_ctlsByRunID sv r of None \<Rightarrow> sv | Some cid \<Rightarrow> upd_ctl cid ctl_Close sv)"
      using Cons.prems by (auto simp: same_books_def ctl_Close_def split: option.splits intro!: server_inv_books)
    then show ?case using Cons.IH by simp
  qed simp
  then show ?thesis unfolding ctls_Close_def by (rule server_inv_harmless) auto
qed

lemma ctls_Del_inv [inv_intros]:
  assumes "server_inv sc sv"
  shows "server_inv sc (ctls_Del runID cid sv)"
  by (rule server_inv_harmless [OF assms]) (use server_invD(6) [OF assms] in \<open>auto simp: ctls_Del_def split: if_splits\<close>)

lemma stop_loop_keeps [simp]:
  "sv_ctls (stop_loop now proxies names sv) = sv_ctls sv" "sv_cfg (stop_loop now proxies names sv) = sv_cfg sv"
  "sv_ctl_next (stop_loop now proxies names sv) = sv_ctl_next sv"
  "sv_ctlsByRunID (stop_loop now proxies names sv) = sv_ctlsByRunID sv"
  by (induction now proxies names sv rule: stop_loop.induct) (auto split: option.splits)

lemma stop_loop_pxys:
  assumes "\<And>n px. proxies n = Some px \<Longrightarrow> px_name px = n"
  shows "sv_pxys (stop_loop now proxies names sv) n = (if n \<in> set names \<and> proxies n \<noteq> None then None else sv_pxys sv n)"
  using assms
proof (induction now proxies names sv rule: stop_loop.induct)
  case (2 now proxies name names sv)
  show ?case
  proof (cases "proxies name")
    case None
    then show ?thesis using 2 by auto
  next
    case (Some px)
    with "2.prems" have "px_name px = name" by blast
    with Some 2 show ?thesis by (auto simp: pxys_Del_def)
  qed
qed simp

lemma stoper_facts:
  assumes "registered (sv_pxys sv) (sv_ctls sv cid)" and "set order = dom (ct_proxies (sv_ctls sv cid))"
  shows "i \<noteq> cid \<Longrightarrow> sv_ctls (stoper now order cid sv) i = sv_ctls sv i"
    and "ct_stopped (sv_ctls (stoper now order cid sv) cid)"
    and "sv_cfg (stoper now order cid sv) = sv_cfg sv" "sv_ctl_next (stoper now order cid sv) = sv_ctl_next sv"
    and "sv_ctlsByRunID (stoper now order cid sv) = sv_ctlsByRunID sv"
    and "sv_pxys (stoper now order cid sv) n = (if ct_proxies (sv_ctls sv cid) n \<noteq> None then None else sv_pxys sv n)"
  using assms by (auto simp: stoper_def Let_def stop_loop_pxys registered_def)

lemma stoper_inv [inv_intros]:
  assumes inv: "server_inv sc sv" and l: "live sv cid" and s: "stoppable sv order cid"
  shows "server_inv sc (stoper now order cid sv)"
proof -
  note D = server_invD [OF inv]
  have o: "set order = dom (ct_proxies (sv_ctls sv cid))" using s by (simp add: stoppable_def)
  note F = stoper_facts [OF D(3) [OF l] o]
  have lv: "live (stoper now order cid sv) i \<longleftrightarrow> live sv i \<and> i \<noteq> cid" for i
    using F(1,2,4) by (cases "i = cid") (auto simp: live_def)
  have reg: "registered (sv_pxys (stoper now order cid sv)) (sv_ctls sv i)" if "live sv i" "i \<noteq> cid" for i
    unfolding registered_def
  proof (intro allI impI)
    fix n px assume p: "ct_proxies (sv_ctls sv i) n = Some px"
    then have "ct_proxies (sv_ctls sv cid) n = None" using D(4) [OF that(1) l, of n] that(2) by (cases "ct_proxies (sv_ctls sv cid) n") auto
    then show "px_name px = n \<and> sv_pxys (stoper now order cid sv) n = Some px"
      using D(3) [OF that(1)] p by (simp add: F(6) registered_def)
  qed
  have cov: "\<exists>i. live sv i \<and> i \<noteq> cid \<and> ct_proxies (sv_ctls sv i) n = Some px"
    if "sv_pxys (stoper now order cid sv) n = Some px" for n px
    using that D(5) [of n px] by (auto simp: F(6) split: if_splits)
  have dis: "i = j" if "live sv i" "live sv j" "ct_proxies (sv_ctls sv i) n \<noteq> None" "ct_proxies (sv_ctls sv j) n \<noteq> None" for i j n
    using D(4) that by blast
  have 1: "\<forall>i. live sv i \<and> i \<noteq> cid \<longrightarrow> ports_counted sc (sv_ctls (stoper now order cid sv) i) \<and>
      registered (sv_pxys (stoper now order cid sv)) (sv_ctls (stoper now order cid sv) i)"
    using D(2) reg F(1) by simp
  have 2: "\<forall>n i j. (live sv i \<and> i \<noteq> cid) \<and> (live sv j \<and> j \<noteq> cid) \<and> ct_proxies (sv_ctls (stoper now order cid sv) i) n \<noteq> None \<and>
      ct_proxies (sv_ctls (stoper now order cid sv) j) n \<noteq> None \<longrightarrow> i = j"
    using dis F(1) by metis
  have 3: "\<forall>n px. sv_pxys (stoper now order cid sv) n = Some px \<longrightarrow>
      (\<exists>i. (live sv i \<and> i \<noteq> cid) \<and> ct_proxies (sv_ctls (stoper now order cid sv) i) n = Some px)"
    using cov F(1) by metis
  show ?thesis
    unfolding server_inv_def lv using 1 2 3 D(1,6) by (simp add: F(3-5))
qed

lemma new_control_inv:
  assumes inv: "server_inv sc sv" and "NewControl now sc m i o' = Some ctl"
  shows "server_inv sc (sv\<lparr>sv_ctls := (sv_ctls sv)(sv_ctl_next sv := ctl), sv_ctl_next := Suc (sv_ctl_next sv)\<rparr>)"
proof -
  let ?sv = "sv\<lparr>sv_ctls := (sv_ctls sv)(sv_ctl_next sv := ctl), sv_ctl_next := Suc (sv_ctl_next sv)\<rparr>"
  have c: "ct_proxies ctl = Map.empty" "\<not> ct_stopped ctl" "ct_running ctl = None" "ct_portsUsedNum ctl = 0"
    using assms(2) by (auto simp: NewControl_def Let_def split: if_splits)
  have lv: "live ?sv i \<longleftrightarrow> live sv i \<or> i = sv_ctl_next sv" for i
    using c(2) by (auto simp: live_def less_Suc_eq)
  have nl: "live sv i \<Longrightarrow> i \<noteq> sv_ctl_next sv" for i by (simp add: live_def)
  have "ports_counted sc ctl" "registered p ctl" for p
    by (auto simp: c ports_counted_def running_ports_def ports_of_def registered_def)
  then have 1: "\<forall>i. live sv i \<or> i = sv_ctl_next sv \<longrightarrow> ports_counted sc (sv_ctls ?sv i) \<and> registered (sv_pxys ?sv) (sv_ctls ?sv i)"
    using server_invD(2,3) [OF inv] by auto
  have 2: "\<forall>n i j. (live sv i \<or> i = sv_ctl_next sv) \<and> (live sv j \<or> j = sv_ctl_next sv) \<and> ct_proxies (sv_ctls ?sv i) n \<noteq> None \<and>
      ct_proxies (sv_ctls ?sv j) n \<noteq> None \<longrightarrow> i = j"
    using server_invD(4) [OF inv] c(1) nl by (auto split: if_splits)
  have 3: "\<forall>n px. sv_pxys ?sv n = Some px \<longrightarrow> (\<exists>i. (live sv i \<or> i = sv_ctl_next sv) \<and> ct_proxies (sv_ctls ?sv i) n = Some px)"
  proof (intro allI impI)
    fix n px assume "sv_pxys ?sv n = Some px"
    then obtain i where "live sv i" "ct_proxies (sv_ctls sv i) n = Some px" using server_invD(5) [OF inv, of n px] by auto
    then show "\<exists>i. (live sv i \<or> i = sv_ctl_next sv) \<and> ct_proxies (sv_ctls ?sv i) n = Some px"
      using nl [of i] by (intro exI [of _ i]) simp
  qed
  show ?thesis
    unfolding server_inv_def lv
    by (intro conjI 1 2 3) (use server_invD(1,6) [OF inv] in \<open>auto simp: less_SucI\<close>)
qed

lemma log_event_inv [inv_intros]:
  assumes "server_inv sc sv"
  shows "server_inv sc (log_event e sv)"
  by (rule server_inv_harmless [OF assms]) (use server_invD(6) [OF assms] in auto)

lemma ctls_Add_inv:
  assumes inv: "server_inv sc sv" and "cid < sv_ctl_next sv" and a: "ctls_Add runID cid sv = (old, sv')"
  shows "server_inv sc sv'"
proof (rule server_inv_harmless [OF inv])
  show "i < sv_ctl_next sv" if "sv_ctlsByRunID sv' r = Some i" for r i
    using that a assms(2) server_invD(6) [OF inv] by (auto simp: ctls_Add_def Let_def split: option.splits if_splits)
qed (use a in \<open>auto simp: ctls_Add_def Let_def Replaced_def split: option.splits if_splits\<close>)

lemma add_control_inv:
  assumes inv: "server_inv sc sv" and n: "NewControl now sc m i o' = Some ctl"
    and s: "\<And>c. sv_ctlsByRunID sv (lm_RunID m) = Some c \<Longrightarrow> live sv c \<Longrightarrow> stoppable sv order c"
  shows "server_inv sc (add_control now order ctl sv)"
proof -
  let ?sv1 = "sv\<lparr>sv_ctls := (sv_ctls sv)(sv_ctl_next sv := ctl), sv_ctl_next := Suc (sv_ctl_next sv)\<rparr>"
  obtain old sv2 where a: "ctls_Add (lm_RunID (ct_loginMsg ctl)) (sv_ctl_next sv) ?sv1 = (old, sv2)" by force
  have inv2: "server_inv sc sv2"
    using ctls_Add_inv [OF new_control_inv [OF inv n] _ a] by simp
  have m: "ct_loginMsg ctl = m" using n by (auto simp: NewControl_def Let_def split: if_splits)
  have inv3: "server_inv sc (stoper now order c sv2)" if "old = Some c" "\<not> ct_stopped (sv_ctls sv2 c)" for c
  proof -
    have id: "sv_ctlsByRunID sv (lm_RunID m) = Some c" using a m that(1) by (simp add: ctls_Add_def Let_def split: option.splits)
    then have ne: "c < sv_ctl_next sv" by (rule server_invD(6) [OF inv])
    have sv2: "sv_ctls sv2 = (sv_ctls ?sv1)(c := Replaced (sv_ctls ?sv1 c))" "sv_ctl_next sv2 = Suc (sv_ctl_next sv)"
      using a that(1) by (auto simp: ctls_Add_def Let_def split: option.splits)
    have l: "live sv c" "live sv2 c" using that(2) ne by (auto simp: live_def sv2 Replaced_def)
    have "stoppable sv2 order c" using s [OF id l(1)] ne by (simp add: stoppable_def sv2 Replaced_def)
    then show ?thesis by (rule stoper_inv [OF inv2 l(2)])
  qed
  show ?thesis
    using a inv2 inv3
    by (auto simp: add_control_def Let_def ctl_Start_books intro!: log_event_inv server_inv_books split: option.splits)
qed

lemma RegisterControl_inv [inv_intros]:
  assumes inv: "server_inv sc sv"
    and s: "\<forall>m cid. with_run_id rand l = Some m \<and> sv_ctlsByRunID sv (lm_RunID m) = Some cid \<and> live sv cid \<longrightarrow> stoppable sv order cid"
  shows "server_inv sc (snd (RegisterControl md5 rand ae now order l sv))"
proof -
  have "server_inv sc (add_control now order ctl sv)"
    if "with_run_id rand l = Some m" "NewControl now (sv_cfg sv) m i o' = Some ctl" for m i o' ctl
    using add_control_inv [OF inv, of now m i o' ctl order] s that server_invD(1) [OF inv] by blast
  then show ?thesis
    using inv by (auto simp: RegisterControl_def split: option.splits sum.splits prod.splits)
qed

lemma server_step_inv [inv_intros]: "server_step sv sv' \<Longrightarrow> server_inv sc sv \<Longrightarrow> server_inv sc sv'"
  by (erule server_stepE)
    (auto intro: RegisterControl_inv RegisterProxy_run_inv RegisterProxy_add_inv CloseProxy_inv ForceCloseProxy_inv
      svc_RegisterWorkConn_inv CloseUser_inv stoper_inv ctls_Del_inv manager_Ping_inv ctls_Close_inv
      intro!: server_inv_books simp: send_books GetWorkConnFromPool_def pool_loop_books)

lemma NewServer_inv [inv_intros]: "server_inv sc (NewServer sc au allow c0)"
  by (simp add: server_inv_def NewServer_def live_def)

lemma server_reachable_inv: "server_reachable sc allow sv \<Longrightarrow> server_inv sc sv"
  by (induction rule: server_reachable.induct) (auto intro: NewServer_inv server_step_inv)

subsection \<open>The resources in reachable states\<close>

lemma RegisterProxy_run_rc:
  assumes "res_inv P (sv_rc sv)" and "env_ok (sv_rc sv) en"
  shows "res_inv P (sv_rc (snd (RegisterProxy_run pf ae en cid m sv)))"
proof -
  have "res_inv P rc" if "proxy_Run sc en (sv_rc sv) px = (r, rc)" for sc px r rc
    using proxy_Run_inv [OF assms, of sc px] that by simp
  then show ?thesis
    using assms(1) by (auto simp: RegisterProxy_run_def Let_def split: option.splits sum.splits prod.splits)
qed

lemma RegisterProxy_add_rc:
  "res_inv P (sv_rc sv) \<Longrightarrow> res_inv P (sv_rc (snd (RegisterProxy_add now cid addr sv)))"
  by (auto simp: RegisterProxy_add_def Let_def proxy_Close_inv split: option.splits)

lemma close_proxy_rc: "res_inv P (sv_rc sv) \<Longrightarrow> res_inv P (sv_rc (close_proxy now cid px name reg sv))"
  by (simp add: close_proxy_def Let_def proxy_Close_inv)

lemma stop_loop_rc: "res_inv P (sv_rc sv) \<Longrightarrow> res_inv P (sv_rc (stop_loop now proxies names sv))"
  by (induction now proxies names sv rule: stop_loop.induct) (auto simp: proxy_Close_inv split: option.splits)

lemma stoper_rc: "res_inv P (sv_rc sv) \<Longrightarrow> res_inv P (sv_rc (stoper now order cid sv))"
  by (simp add: stoper_def Let_def stop_loop_rc)

lemma RegisterControl_rc:
  "res_inv P (sv_rc sv) \<Longrightarrow> res_inv P (sv_rc (snd (RegisterControl md5 rand ae now order l sv)))"
  by (auto simp: RegisterControl_def add_control_def ctls_Add_def Let_def stoper_rc
      split: option.splits sum.splits prod.splits)

lemma ctls_Close_rc: "sv_rc (ctls_Close runIDs sv) = sv_rc sv"
proof -
  have "sv_rc (fold (\<lambda>r sv. case sv_ctlsByRunID sv r of None \<Rightarrow> sv | Some cid \<Rightarrow> upd_ctl cid ctl_Close sv) runIDs sv) = sv_rc sv"
    by (induction runIDs arbitrary: sv) (auto split: option.splits)
  then show ?thesis by (simp add: ctls_Close_def)
qed

lemma server_step_rc: "server_step sv sv' \<Longrightarrow> res_inv P (sv_rc sv) \<Longrightarrow> res_inv P (sv_rc sv')"
  by (erule server_stepE)
    (auto simp: RegisterControl_rc RegisterProxy_run_rc RegisterProxy_add_rc CloseProxy_def ForceCloseProxy_def
      close_proxy_rc svc_RegisterWorkConn_def CloseUser_def stoper_rc ctls_Del_def manager_Ping_def ctls_Close_rc Let_def
      split: option.splits prod.splits sum.splits)

lemma server_reachable_rc: "server_reachable sc allow sv \<Longrightarrow> res_inv (allowed allow) (sv_rc sv)"
  by (induction rule: server_reachable.induct) (auto simp: NewServer_def NewResources_inv server_step_rc)

end
