(* ===== verification/Frp_Sessions.thy ===== *)
theory Frp_Sessions
  imports Frp_Control
begin

text \<open>
  What the theory of controls shows: the tables of proxies and controls agree in every
  reachable state, the number of ports of a client stays within its limit, registrations
  that fail or are closed leave nothing behind, who may log in, what a reconnecting client
  finds, and what the pool of work connections hands out.
\<close>

section \<open>Lemmas\<close>

lemma NewProxyConfFromMsg_group:
  "NewProxyConfFromMsg pf s m = Inr c \<Longrightarrow> bc_Group (GetBaseConfig c) = np_Group m"
proof -
  have "bc_Group (GetBaseConfig (UnmarshalFromMsg pf m' c')) = np_Group m'" for m' c'
    by (cases c') (simp_all add: base_unmarshalFromMsg_def Let_def)
  then show "NewProxyConfFromMsg pf s m = Inr c \<Longrightarrow> bc_Group (GetBaseConfig c) = np_Group m"
    by (auto simp: NewProxyConfFromMsg_def Let_def split: option.splits if_splits)
qed

lemma upd_ctl_undo: "upd_ctl cid (add_ports sc (- k)) (upd_ctl cid (add_ports sc k) sv) = sv"
  by (simp add: upd_ctl_def add_ports_undo)

lemma RegisterProxy_run_Inl:
  assumes "RegisterProxy_run pf ae en cid m sv = (Inl e, sv')"
  shows "sv' = sv \<or> (\<exists>rc cfg err. sv' = sv\<lparr>sv_rc := rc\<rparr> \<and> NewProxyConfFromMsg pf (sv_cfg sv) m = Inr cfg \<and>
    proxy_Run (sv_cfg sv) en (sv_rc sv) (NewProxy (lm_User (ct_loginMsg (sv_ctls sv cid))) cfg) = (Inl err, rc))"
proof -
  have u: "upd_ctl cid (add_ports sc (- k)) (upd_ctl cid (add_ports sc k) sv\<lparr>sv_rc := rc\<rparr>) = sv\<lparr>sv_rc := rc\<rparr>" for sc k rc
    by (simp add: upd_ctl_def add_ports_undo)
  show ?thesis
    using assms
    by (auto simp: RegisterProxy_run_def Let_def u upd_ctl_undo split: option.splits sum.splits prod.splits if_splits)
qed

text \<open>A registration that runs: the state with the running proxy, before the tables.\<close>

lemma RegisterProxy_run_Inr:
  assumes "RegisterProxy_run pf ae en cid m sv = (Inr addr, sv')"
  obtains cfg px rc where "NewProxyConfFromMsg pf (sv_cfg sv) m = Inr cfg"
    "proxy_Run (sv_cfg sv) en (sv_rc sv) (NewProxy (lm_User (ct_loginMsg (sv_ctls sv cid))) cfg) = (Inr (addr, px), rc)"
    "sv_pxys sv (np_ProxyName m) = None" "px_name px = np_ProxyName m"
    "sv' = upd_ctl cid (\<lambda>c. add_ports (sv_cfg sv) (px_usedPortsNum px) c\<lparr>ct_running := Some px\<rparr>) (sv\<lparr>sv_rc := rc\<rparr>)"
proof -
  from assms obtain cfg px rc where
    c: "NewProxyConfFromMsg pf (sv_cfg sv) m = Inr cfg" and
    r: "proxy_Run (sv_cfg sv) en (sv_rc sv) (NewProxy (lm_User (ct_loginMsg (sv_ctls sv cid))) cfg) = (Inr (addr, px), rc)" and
    e: "sv_pxys sv (np_ProxyName m) = None" and
    s: "sv' = upd_ctl cid (\<lambda>c. c\<lparr>ct_running := Some px\<rparr>)
      (upd_ctl cid (add_ports (sv_cfg sv) (px_usedPortsNum (NewProxy (lm_User (ct_loginMsg (sv_ctls sv cid))) cfg))) sv\<lparr>sv_rc := rc\<rparr>)"
    by (auto simp: RegisterProxy_run_def Let_def pxys_Exist_def split: option.splits sum.splits prod.splits if_splits)
  note k = proxy_Run_keeps [OF r]
  have "sv' = upd_ctl cid (\<lambda>c. add_ports (sv_cfg sv) (px_usedPortsNum px) c\<lparr>ct_running := Some px\<rparr>) (sv\<lparr>sv_rc := rc\<rparr>)"
    using s k by (simp add: upd_ctl_def)
  moreover have "px_name px = np_ProxyName m" using k NewProxyConfFromMsg_name [OF c] by (simp add: NewProxy_def)
  ultimately show ?thesis using that c r e by blast
qed

lemma RegisterProxy_Inr:
  assumes "RegisterProxy pf ae en cid m sv = (Inr addr, sv')" and "ct_running (sv_ctls sv cid) = None"
  obtains cfg px rc where "NewProxyConfFromMsg pf (sv_cfg sv) m = Inr cfg"
    "proxy_Run (sv_cfg sv) en (sv_rc sv) (NewProxy (lm_User (ct_loginMsg (sv_ctls sv cid))) cfg) = (Inr (addr, px), rc)"
    "sv_pxys sv (np_ProxyName m) = None" "px_name px = np_ProxyName m"
    "sv' = upd_ctl cid (\<lambda>c. add_ports (sv_cfg sv) (px_usedPortsNum px) c\<lparr>ct_proxies := (ct_proxies c)(np_ProxyName m \<mapsto> px)\<rparr>)
      (sv\<lparr>sv_rc := rc, sv_pxys := (sv_pxys sv)(np_ProxyName m \<mapsto> px)\<rparr>)"
proof -
  from assms(1) obtain addr1 sv1 where r: "RegisterProxy_run pf ae en cid m sv = (Inr addr1, sv1)"
    and a: "RegisterProxy_add (en_now en) cid addr1 sv1 = (Inr addr, sv')"
    by (auto simp: RegisterProxy_def split: prod.splits sum.splits)
  from r obtain cfg px rc where p: "NewProxyConfFromMsg pf (sv_cfg sv) m = Inr cfg"
    "proxy_Run (sv_cfg sv) en (sv_rc sv) (NewProxy (lm_User (ct_loginMsg (sv_ctls sv cid))) cfg) = (Inr (addr1, px), rc)"
    "sv_pxys sv (np_ProxyName m) = None" "px_name px = np_ProxyName m" and
    s1: "sv1 = upd_ctl cid (\<lambda>c. add_ports (sv_cfg sv) (px_usedPortsNum px) c\<lparr>ct_running := Some px\<rparr>) (sv\<lparr>sv_rc := rc\<rparr>)"
    by (rule RegisterProxy_run_Inr)
  let ?c = "add_ports (sv_cfg sv) (px_usedPortsNum px) (sv_ctls sv cid)"
  have idle: "?c\<lparr>ct_running := None\<rparr> = ?c"
    using assms(2) by (intro control.equality) (simp_all add: add_ports_def)
  have "sv' = upd_ctl cid (\<lambda>_. (?c\<lparr>ct_running := None\<rparr>)\<lparr>ct_proxies := (ct_proxies ?c)(np_ProxyName m \<mapsto> px)\<rparr>)
      (sv\<lparr>sv_rc := rc, sv_pxys := (sv_pxys sv)(np_ProxyName m \<mapsto> px)\<rparr>)" and ad: "addr = addr1"
    using a p(3,4) by (auto simp: s1 RegisterProxy_add_def pxys_Add_def Let_def upd_ctl_def)
  then have "sv' = upd_ctl cid (\<lambda>c. add_ports (sv_cfg sv) (px_usedPortsNum px) c\<lparr>ct_proxies := (ct_proxies c)(np_ProxyName m \<mapsto> px)\<rparr>)
      (sv\<lparr>sv_rc := rc, sv_pxys := (sv_pxys sv)(np_ProxyName m \<mapsto> px)\<rparr>)"
    unfolding idle by (simp add: upd_ctl_def)
  then show ?thesis using that [OF p(1) _ p(3,4)] p(2) ad by blast
qed

lemma RegisterProxy_Inl:
  assumes "RegisterProxy pf ae en cid m sv = (Inl e, sv')" and "ct_running (sv_ctls sv cid) = None"
  shows "RegisterProxy_run pf ae en cid m sv = (Inl e, sv')"
proof (cases "RegisterProxy_run pf ae en cid m sv")
  case (Pair res sv1)
  show ?thesis
  proof (cases res)
    case (Inr addr1)
    with Pair have "RegisterProxy_run pf ae en cid m sv = (Inr addr1, sv1)" by simp
    then obtain cfg px rc where "sv_pxys sv (np_ProxyName m) = None" "px_name px = np_ProxyName m"
      "sv1 = upd_ctl cid (\<lambda>c. add_ports (sv_cfg sv) (px_usedPortsNum px) c\<lparr>ct_running := Some px\<rparr>) (sv\<lparr>sv_rc := rc\<rparr>)"
      by (rule RegisterProxy_run_Inr)
    then have False using assms(1) Pair Inr by (auto simp: RegisterProxy_def RegisterProxy_add_def pxys_Add_def Let_def)
    then show ?thesis ..
  qed (use Pair assms in \<open>simp add: RegisterProxy_def\<close>)
qed

section \<open>A server for the examples\<close>

definition demo_api :: api_env where
  "demo_api = \<lparr>ae_ok = True, ae_api = (\<lambda>_. NoResponse), ae_now = 0, ae_token = ''''\<rparr>"

definition demo_auth :: auth_cfg where
  "demo_auth = \<lparr>ac_token = ''t'', ac_AuthenticateHeartBeats = False, ac_AuthenticateNewWorkConns = False\<rparr>"

definition demo_login :: "int \<Rightarrow> login_msg" where
  "demo_login pool = \<lparr>lm_Version = ''0.51.2'', lm_User = ''bob'', lm_PrivilegeKey = GetAuthKey (map of_char) ''t'' 7,
     lm_Timestamp = 7, lm_RunID = ''bob-1'', lm_PoolCount = pool\<rparr>"

definition demo_control :: control where
  "demo_control = \<lparr>ct_runID = ''bob-1'', ct_loginMsg = demo_login 1, ct_sendCh = [], ct_sendCh_closed = False,
     ct_workConnCh = [], ct_workConnCh_cap = 11, ct_workConnCh_closed = False, ct_proxies = Map.empty,
     ct_poolCount = 1, ct_portsUsedNum = 0, ct_lastPing = 0, ct_shutdown = False, ct_stopped = False, ct_inLimit = 0, ct_outLimit = 0,
     ct_running = None\<rparr>"

definition demo_started :: control where
  "demo_started = demo_control\<lparr>ct_sendCh := [ReqWorkConn]\<rparr>"

definition demo_sv0 :: server where
  "demo_sv0 = NewServer demo_server demo_auth {7000} demo_started"

definition demo_sv1 :: server where
  "demo_sv1 = snd (RegisterControl (map of_char) (\<lambda>_. None) demo_api 0 [] (demo_login 1) demo_sv0)"

definition demo_msg :: new_proxy_msg where
  "demo_msg = zero_msg\<lparr>np_ProxyName := ''ssh'', np_ProxyType := ''tcp'', np_RemotePort := 7000\<rparr>"

definition demo_sv2 :: server where
  "demo_sv2 = snd (RegisterProxy_run (\<lambda>_ _. None) demo_api (demo_env True) 0 demo_msg demo_sv1)"

definition demo_sv3 :: server where
  "demo_sv3 = snd (RegisterProxy_add 0 0 '''' demo_sv2)"

lemma demo_sv0_reachable: "server_reachable demo_server {7000} demo_sv0"
  unfolding demo_sv0_def by (rule server_reachable.start)

lemma demo_compat: "Compat ''0.51.2''"
  by (simp add: Compat_def LessThan_def Proto_def Major_def Minor_def getSubVersion_def go_split.simps parse_int_def
      parse_sign_def digit_val_def Let_def)

lemma demo_sv1_eq: "demo_sv1 = demo_sv0\<lparr>sv_ctl_next := 1, sv_ctlsByRunID := [''bob-1'' \<mapsto> 0], sv_events := [EvNewClient]\<rparr>"
proof -
  have v: "VerifyLogin (map of_char) demo_auth
      \<lparr>am_Timestamp = 7, am_PrivilegeKey = GetAuthKey (map of_char) ''t'' 7\<rparr> = None"
    by (simp add: VerifyLogin_def demo_auth_def)
  have n: "NewControl 0 demo_server (demo_login 1) 0 0 = Some demo_control"
    by (simp add: NewControl_def demo_server_def demo_login_def demo_control_def)
  have st: "ctl_Start demo_control = demo_started"
    by (simp add: ctl_Start_def send_def demo_started_def demo_control_def)
  have "check_login (map of_char) demo_api demo_sv0 (demo_login 1) = Inr (0, 0)"
    using v demo_compat
    by (simp add: check_login_def demo_login_def demo_sv0_def NewServer_def login_api_def demo_server_def)
  then have "demo_sv1 = add_control 0 [] demo_control demo_sv0"
    using n by (simp add: demo_sv1_def RegisterControl_def with_run_id_def demo_login_def demo_sv0_def NewServer_def)
  also have "\<dots> = demo_sv0\<lparr>sv_ctl_next := 1, sv_ctlsByRunID := [''bob-1'' \<mapsto> 0], sv_events := [EvNewClient]\<rparr>"
    using st by (simp add: add_control_def ctls_Add_def log_event_def upd_ctl_def Let_def demo_sv0_def NewServer_def
        demo_control_def [THEN arg_cong, of ct_loginMsg] demo_login_def fun_upd_idem)
  finally show ?thesis .
qed

lemma demo_sv1_reachable: "server_reachable demo_server {7000} demo_sv1"
  unfolding demo_sv1_def
  by (rule server_reachable.step [OF demo_sv0_reachable server_step.login]) (simp add: demo_sv0_def NewServer_def)

lemma demo_sv1_live: "live demo_sv1 0" "ct_running (sv_ctls demo_sv1 0) = None" "sv_ctls demo_sv1 0 = demo_started"
  by (simp_all add: demo_sv1_eq live_def demo_sv0_def NewServer_def demo_started_def demo_control_def)

lemma demo_sv1_env: "env_ok (sv_rc demo_sv1) (demo_env b)"
  by (simp add: demo_sv1_eq demo_sv0_def NewServer_def NewResources_env demo_env_def)

lemma demo_conf: "NewProxyConfFromMsg (\<lambda>_ _. None) demo_server demo_msg = Inr (server_view demo_tcp_conf)"
  by (simp add: NewProxyConfFromMsg_def demo_msg_def DefaultProxyConf_def NewConfByType_def demo_tcp_conf_def
      base_unmarshalFromMsg_def base_SetDefaultValues_def zero_base_def zero_msg_def base_validateForServer_def
      server_view_def forget_local_def Let_def)

definition demo_px :: proxy_obj where
  "demo_px = (NewProxy ''bob'' (server_view demo_tcp_conf))\<lparr>px_realBindPort := 7000, px_listeners := [NetListener 7000]\<rparr>"

lemma demo_run:
  "proxy_Run demo_server (demo_env True) (NewResources {7000}) (NewProxy ''bob'' (server_view demo_tcp_conf)) =
     (Inr (port_addr 7000, demo_px), (NewResources {7000})\<lparr>re_tcp := (re_tcp (NewResources {7000}))
        \<lparr>tc_ports := take_port (NewPortManager {7000}) ''ssh'' 0 7000\<rparr>\<rparr>)"
  by (simp add: proxy_Run_def NewProxy_def server_view_def demo_tcp_conf_def TCPProxy_Run_def zero_base_def
      NewResources_def NewTCPGroupCtl_def NewPortManager_def Acquire_def demo_env_def Let_def forget_local_def
      base_SetDefaultValues_def demo_px_def)

lemma demo_sv2_run_eq:
  "RegisterProxy_run (\<lambda>_ _. None) demo_api (demo_env True) 0 demo_msg demo_sv1 =
     (Inr (port_addr 7000), upd_ctl 0 (\<lambda>c. c\<lparr>ct_running := Some demo_px\<rparr>)
       (upd_ctl 0 (add_ports demo_server 1) demo_sv1\<lparr>sv_rc := (NewResources {7000})\<lparr>re_tcp := (re_tcp (NewResources {7000}))
          \<lparr>tc_ports := take_port (NewPortManager {7000}) ''ssh'' 0 7000\<rparr>\<rparr>\<rparr>))"
proof -
  have c: "sv_cfg demo_sv1 = demo_server" "sv_rc demo_sv1 = NewResources {7000}" "sv_pxys demo_sv1 = Map.empty"
    by (simp_all add: demo_sv1_eq demo_sv0_def NewServer_def)
  have u: "lm_User (ct_loginMsg demo_started) = ''bob''" by (simp add: demo_started_def demo_control_def demo_login_def)
  have a: "check_api demo_server demo_api ''bob'' demo_msg = None" by (simp add: check_api_def demo_api_def demo_server_def)
  have p: "px_usedPortsNum (NewProxy ''bob'' (server_view demo_tcp_conf)) = 1"
    by (simp add: NewProxy_def server_view_def demo_tcp_conf_def)
  have k: "ct_portsUsedNum demo_started = 0" "sc_MaxPortsPerClient demo_server = 2"
    by (simp_all add: demo_started_def demo_control_def demo_server_def)
  show ?thesis
    unfolding RegisterProxy_run_def Let_def c u demo_sv1_live(3) a demo_conf p
    by (simp add: k c demo_run p pxys_Exist_def)
qed

lemma demo_sv2_run: "ct_running (sv_ctls demo_sv2 0) = Some demo_px" "sv_pxys demo_sv2 = Map.empty"
    "live demo_sv2 0" "ct_proxies (sv_ctls demo_sv2 0) = Map.empty"
  unfolding demo_sv2_def demo_sv2_run_eq snd_conv using demo_sv1_live
  by (simp_all add: live_def demo_sv1_eq demo_sv0_def NewServer_def demo_started_def demo_control_def)

lemma demo_sv3_eq: "ct_proxies (sv_ctls demo_sv3 0) = [''ssh'' \<mapsto> demo_px]" "sv_pxys demo_sv3 = [''ssh'' \<mapsto> demo_px]" "live demo_sv3 0"
proof -
  have n: "px_name demo_px = ''ssh''"
    by (simp add: demo_px_def NewProxy_def server_view_def demo_tcp_conf_def zero_base_def forget_local_def)
  show "ct_proxies (sv_ctls demo_sv3 0) = [''ssh'' \<mapsto> demo_px]" "sv_pxys demo_sv3 = [''ssh'' \<mapsto> demo_px]" "live demo_sv3 0"
    using demo_sv2_run by (simp_all add: demo_sv3_def RegisterProxy_add_def pxys_Add_def Let_def n live_def)
qed

lemma demo_sv3_reachable: "server_reachable demo_server {7000} demo_sv3"
proof -
  have "server_reachable demo_server {7000} demo_sv2"
    unfolding demo_sv2_def
    by (rule server_reachable.step [OF demo_sv1_reachable server_step.run [OF demo_sv1_live(1,2) demo_sv1_env]])
  then show ?thesis
    unfolding demo_sv3_def by (rule server_reachable.step [OF _ server_step.add [OF demo_sv2_run(3)]])
qed

section \<open>Properties\<close>



text \<open>
  (C32) With a limit of ports per client, the proxies of a control, with the one being
  registered, never use more ports than the limit, and the counter is their sum.
\<close>

theorem ports_within_limit:
  assumes "server_reachable sc allow sv" and "live sv cid" and "sc_MaxPortsPerClient sc > 0"
  shows "ct_portsUsedNum (sv_ctls sv cid) = ports_of (ct_proxies (sv_ctls sv cid)) + running_ports (sv_ctls sv cid) \<and>
    ports_of (ct_proxies (sv_ctls sv cid)) + running_ports (sv_ctls sv cid) \<le> sc_MaxPortsPerClient sc"
  using server_invD(2) [OF server_reachable_inv [OF assms(1)] assms(2)] assms(3) by (simp add: ports_counted_def)

theorem ports_within_limit_witness: "ct_portsUsedNum (sv_ctls demo_sv3 0) \<le> 2"
  using ports_within_limit [OF demo_sv3_reachable demo_sv3_eq(3)] by (simp add: demo_server_def)



lemma demo_register:
  "RegisterProxy (\<lambda>_ _. None) demo_api (demo_env True) 0 demo_msg demo_sv1 =
     (Inr (port_addr 7000), snd (RegisterProxy (\<lambda>_ _. None) demo_api (demo_env True) 0 demo_msg demo_sv1))"
proof -
  have n: "px_name demo_px = ''ssh''"
    by (simp add: demo_px_def NewProxy_def server_view_def demo_tcp_conf_def zero_base_def forget_local_def)
  have "RegisterProxy_run (\<lambda>_ _. None) demo_api (demo_env True) 0 demo_msg demo_sv1 = (Inr (port_addr 7000), demo_sv2)"
    using demo_sv2_run_eq by (simp add: demo_sv2_def)
  then show ?thesis
    using demo_sv2_run by (simp add: RegisterProxy_def RegisterProxy_add_def pxys_Add_def Let_def n demo_env_def)
qed



text \<open>
  (C31) Who is let in: a login succeeds exactly if an identifier could be made, the version is
  compatible, the key was made from the server's token and the login's timestamp, the pool is
  not smaller than -10, and, with the API enabled, the user name is one to 64 letters and
  digits, the API server answered the check of the token with success, and the limits could
  be read or were refused with a status other than 200.
\<close>

theorem login_admission:
  "(\<exists>cid sv'. RegisterControl md5 rand ae now order l sv = (Inr cid, sv')) \<longleftrightarrow>
     (lm_RunID l \<noteq> '''' \<or> RandID rand \<noteq> None) \<and> Compat (lm_Version l) \<and>
     lm_PrivilegeKey l = GetAuthKey md5 (ac_token (sv_auth sv)) (lm_Timestamp l) \<and>
     min (lm_PoolCount l) (sc_MaxPoolCount (sv_cfg sv)) \<ge> -10 \<and>
     (sc_EnableApi (sv_cfg sv) \<longrightarrow> ae_ok ae \<and> username_ok (lm_User l) \<and>
        (\<exists>txt b. ae_api ae (token_query (lm_User l) (lm_PrivilegeKey l) (ae_now ae) (ae_token ae)) =
           Response 200 txt (Some b) \<and> ab_Success b) \<and>
        snd (GetProxyLimit (ae_api ae) (lm_User l) (ae_now ae) (ae_token ae)) = None)"
proof -
  have api: "(\<exists>v. login_api (sv_cfg sv) ae m = Inr v) \<longleftrightarrow>
     (sc_EnableApi (sv_cfg sv) \<longrightarrow> ae_ok ae \<and> username_ok (lm_User m) \<and>
        (\<exists>txt b. ae_api ae (token_query (lm_User m) (lm_PrivilegeKey m) (ae_now ae) (ae_token ae)) =
           Response 200 txt (Some b) \<and> ab_Success b) \<and>
        snd (GetProxyLimit (ae_api ae) (lm_User m) (ae_now ae) (ae_token ae)) = None)" for m
    using CheckToken_ok [of "ae_api ae" "lm_User m" "lm_PrivilegeKey m" "ae_now ae" "ae_token ae"]
    by (cases "CheckToken (ae_api ae) (lm_User m) (lm_PrivilegeKey m) (ae_now ae) (ae_token ae)")
      (auto simp: login_api_def split: prod.splits option.splits)
  have chk: "(\<exists>v. check_login md5 ae sv m = Inr v) \<longleftrightarrow> Compat (lm_Version m) \<and>
     lm_PrivilegeKey m = GetAuthKey md5 (ac_token (sv_auth sv)) (lm_Timestamp m) \<and> (\<exists>v. login_api (sv_cfg sv) ae m = Inr v)" for m
    by (auto simp: check_login_def VerifyLogin_def)
  have new: "(\<exists>c. NewControl now (sv_cfg sv) m i o' = Some c) \<longleftrightarrow> min (lm_PoolCount m) (sc_MaxPoolCount (sv_cfg sv)) \<ge> -10" for m i o'
    by (auto simp: NewControl_def Let_def)
  have id: "(\<exists>m. with_run_id rand l = Some m) \<longleftrightarrow> lm_RunID l \<noteq> '''' \<or> RandID rand \<noteq> None"
    by (auto simp: with_run_id_def)
  have same: "lm_Version m = lm_Version l \<and> lm_PrivilegeKey m = lm_PrivilegeKey l \<and> lm_Timestamp m = lm_Timestamp l \<and>
      lm_User m = lm_User l \<and> lm_PoolCount m = lm_PoolCount l" if "with_run_id rand l = Some m" for m
    using that by (auto simp: with_run_id_def split: if_splits)
  have "(\<exists>cid sv'. RegisterControl md5 rand ae now order l sv = (Inr cid, sv')) \<longleftrightarrow>
      (\<exists>m. with_run_id rand l = Some m \<and> (\<exists>v. check_login md5 ae sv m = Inr v) \<and> (\<exists>c. NewControl now (sv_cfg sv) m 0 0 = Some c))"
  proof -
    have "NewControl now (sv_cfg sv) m i o' = None \<longleftrightarrow> NewControl now (sv_cfg sv) m 0 0 = None" for m i o'
      by (simp add: NewControl_def Let_def)
    then show ?thesis
      by (auto simp: RegisterControl_def split: option.splits sum.splits prod.splits)
        (metis option.exhaust)
  qed
  also have "\<dots> \<longleftrightarrow> (\<exists>m. with_run_id rand l = Some m) \<and> (\<exists>v. check_login md5 ae sv l = Inr v) \<and> (\<exists>c. NewControl now (sv_cfg sv) l 0 0 = Some c)"
    using same unfolding chk new api by (cases "with_run_id rand l") simp_all
  finally show ?thesis unfolding id chk new api by blast
qed

theorem login_admission_witness:
  "\<exists>cid sv'. RegisterControl (map of_char) (\<lambda>_. None) demo_api 0 [] (demo_login 1) demo_sv0 = (Inr cid, sv')"
  unfolding login_admission
  by (simp add: demo_login_def demo_compat demo_sv0_def NewServer_def demo_auth_def demo_server_def)

text \<open>
  A client that reconnects under its run id gets its names back: the new control is in
  force, the old one is stopped, every name it had is free again, and the proxies of all others
  are untouched.
\<close>

theorem replaced_control_frees_names:
  assumes "server_reachable sc allow sv" and "with_run_id rand l = Some m" and "sv_ctlsByRunID sv (lm_RunID m) = Some old"
    and "live sv old" and "stoppable sv order old"
    and "RegisterControl md5 rand ae now order l sv = (Inr cid, sv')"
  shows "sv_ctlsByRunID sv' (lm_RunID m) = Some cid \<and> live sv' cid \<and> \<not> live sv' old \<and>
    (\<forall>n. sv_pxys sv' n = (if ct_proxies (sv_ctls sv old) n \<noteq> None then None else sv_pxys sv n)) \<and>
    (\<forall>i. i \<noteq> old \<and> live sv i \<longrightarrow> live sv' i \<and> ct_proxies (sv_ctls sv' i) = ct_proxies (sv_ctls sv i))"
proof -
  note inv = server_reachable_inv [OF assms(1)]
  have ne: "old < sv_ctl_next sv" using server_invD(6) [OF inv assms(3)] .
  from assms(2,6) obtain i o' ctl where n: "NewControl now (sv_cfg sv) m i o' = Some ctl"
    and r: "cid = sv_ctl_next sv" "sv' = add_control now order ctl sv"
    by (auto simp: RegisterControl_def split: option.splits sum.splits prod.splits)
  have c: "ct_loginMsg ctl = m" "\<not> ct_stopped ctl" using n by (auto simp: NewControl_def Let_def split: if_splits)
  define sv2 where "sv2 = upd_ctl old Replaced (sv\<lparr>sv_ctls := (sv_ctls sv)(cid := ctl), sv_ctl_next := Suc cid\<rparr>)
    \<lparr>sv_ctlsByRunID := (sv_ctlsByRunID sv)(lm_RunID m \<mapsto> cid)\<rparr>"
  have st: "\<not> ct_stopped (sv_ctls sv2 old)" using assms(4) ne by (simp add: sv2_def live_def Replaced_def r(1))
  have s: "sv' = log_event EvNewClient (upd_ctl cid ctl_Start (stoper now order old sv2))"
    using assms(3) c(1) st unfolding r(2) sv2_def r(1) by (simp add: add_control_def ctls_Add_def Let_def)
  have o2: "ct_proxies (sv_ctls sv2 old) = ct_proxies (sv_ctls sv old)" using ne by (simp add: sv2_def r(1) Replaced_def)
  have "registered (sv_pxys sv2) (sv_ctls sv2 old)"
    using server_invD(3) [OF inv assms(4)] o2 by (simp add: sv2_def registered_def)
  moreover have "set order = dom (ct_proxies (sv_ctls sv2 old))" using assms(5) o2 by (simp add: stoppable_def)
  moreover have co: "cid \<noteq> old" using ne r(1) by simp
  ultimately have F: "\<And>i. i \<noteq> old \<Longrightarrow> sv_ctls sv' i = (if i = cid then ctl_Start (sv_ctls sv2 cid) else sv_ctls sv2 i)"
    "ct_stopped (sv_ctls sv' old)"
    "sv_ctl_next sv' = sv_ctl_next sv2" "sv_ctlsByRunID sv' = sv_ctlsByRunID sv2"
    "\<And>n. sv_pxys sv' n = (if ct_proxies (sv_ctls sv2 old) n \<noteq> None then None else sv_pxys sv2 n)"
    using stoper_facts [of sv2 old order] by (simp_all add: s)
  have x: "sv_ctl_next sv2 = Suc cid" "sv_pxys sv2 = sv_pxys sv" "\<And>i. i \<noteq> old \<Longrightarrow> i \<noteq> cid \<Longrightarrow> sv_ctls sv2 i = sv_ctls sv i"
    "sv_ctls sv2 cid = ctl" "sv_ctlsByRunID sv2 (lm_RunID m) = Some cid"
    using ne by (simp_all add: sv2_def r(1))
  have "live sv' i \<and> ct_proxies (sv_ctls sv' i) = ct_proxies (sv_ctls sv i)" if "i \<noteq> old" "live sv i" for i
    using that F(1) [OF that(1)] x(3) [OF that(1)] by (auto simp: live_def F(3) x(1) r(1))
  moreover have "\<not> ct_stopped (ctl_Start ctl)" using ctl_Start_books [of ctl] c(2) by (simp add: same_books_def)
  then have "live sv' cid" using F(1) [OF co] x(1,4) ne by (simp add: live_def F(3) r(1))
  moreover have "\<not> live sv' old" using F(2) by (simp add: live_def)
  ultimately show ?thesis using F(4,5) x(2,5) o2 by simp
qed

theorem replaced_control_frees_names_witness:
  "sv_pxys (snd (RegisterControl (map of_char) (\<lambda>_. None) demo_api 0 [''ssh''] (demo_login 1) demo_sv3)) ''ssh'' = None"
proof -
  have k: "sv_auth demo_sv3 = demo_auth" "sv_cfg demo_sv3 = demo_server" "sv_ctlsByRunID demo_sv3 ''bob-1'' = Some 0"
    "ct_running (sv_ctls demo_sv3 0) = None"
    using demo_sv2_run unfolding demo_sv3_def demo_sv2_def demo_sv2_run_eq snd_conv
    by (simp_all add: RegisterProxy_add_def pxys_Add_def Let_def demo_sv1_eq demo_sv0_def NewServer_def upd_ctl_def)
  have "check_login (map of_char) demo_api demo_sv3 (demo_login 1) = Inr (0, 0)"
    using demo_compat by (simp add: check_login_def demo_login_def k login_api_def demo_server_def VerifyLogin_def demo_auth_def)
  moreover have "NewControl 0 demo_server (demo_login 1) 0 0 = Some demo_control"
    by (simp add: NewControl_def demo_server_def demo_login_def demo_control_def)
  ultimately have r: "RegisterControl (map of_char) (\<lambda>_. None) demo_api 0 [''ssh''] (demo_login 1) demo_sv3 =
      (Inr (sv_ctl_next demo_sv3), add_control 0 [''ssh''] demo_control demo_sv3)"
    by (simp add: RegisterControl_def with_run_id_def demo_login_def k)
  have w: "with_run_id (\<lambda>_. None) (demo_login 1) = Some (demo_login 1)" by (simp add: with_run_id_def demo_login_def)
  have id: "sv_ctlsByRunID demo_sv3 (lm_RunID (demo_login 1)) = Some 0" using k by (simp add: demo_login_def)
  have "stoppable demo_sv3 [''ssh''] 0" using k by (simp add: stoppable_def demo_sv3_eq)
  from replaced_control_frees_names [OF demo_sv3_reachable w id demo_sv3_eq(3) this r] r show ?thesis
    by (simp add: demo_sv3_eq)
qed

lemma pool_loop_result:
  assumes "pool_loop n write_ok w i wc closed ctl = ((res, err), ctl', closed')"
    and "\<forall>x \<in> set closed. \<not> write_ok x" and "n > 0"
  shows "\<exists>new. closed' = closed @ new \<and> length new \<le> n \<and> (\<forall>x \<in> set new. \<not> write_ok x) \<and>
    (case err of
       Some e \<Rightarrow> res = None
     | None \<Rightarrow> (\<exists>c. res = Some c \<and> (write_ok c \<or> length new = n \<and> c = last new)))"
  using assms
proof (induction n arbitrary: i wc closed ctl)
  case (Suc n)
  obtain r ctl1 where g: "GetWorkConn (w i) ctl = (r, ctl1)" by force
  show ?case
  proof (cases r)
    case (Inl e)
    with g Suc.prems(1) show ?thesis by (intro exI [of _ "[]"]) auto
  next
    case (Inr c)
    show ?thesis
    proof (cases "write_ok c")
      case True
      with g Inr Suc.prems(1) show ?thesis by (intro exI [of _ "[]"]) auto
    next
      case False
      have l: "pool_loop n write_ok w (Suc i) (Some c) (closed @ [c]) ctl1 = ((res, err), ctl', closed')"
        using g Inr False Suc.prems(1) by simp
      show ?thesis
      proof (cases "n = 0")
        case True
        with l False show ?thesis by (intro exI [of _ "[c]"]) auto
      next
        case False': False
        have "\<forall>x \<in> set (closed @ [c]). \<not> write_ok x" using False Suc.prems(2) by simp
        from Suc.IH [OF l this] False' obtain new where n: "closed' = (closed @ [c]) @ new" "length new \<le> n"
          "\<forall>x \<in> set new. \<not> write_ok x" "case err of Some e \<Rightarrow> res = None
             | None \<Rightarrow> (\<exists>c. res = Some c \<and> (write_ok c \<or> length new = n \<and> c = last new))" by blast
        with False False' show ?thesis
          by (intro exI [of _ "c # new"]) (auto split: option.splits)
      qed
    qed
  qed
qed simp

text \<open>
  What the pool hands out: a result without an error is a connection to which the start
  message was written, or else all \<open>poolCount + 1\<close> attempts failed, every connection tried was
  closed, and the last of them is handed out as if it were good. With an error there is no
  connection, and only connections that failed are closed.
\<close>

theorem pool_result:
  assumes "ct_poolCount ctl \<ge> 0" and "GetWorkConnFromPool write_ok w ctl = ((res, err), ctl', closed)"
  shows "(\<forall>x \<in> set closed. \<not> write_ok x) \<and> int (length closed) \<le> ct_poolCount ctl + 1 \<and>
    (case err of
       Some e \<Rightarrow> res = None
     | None \<Rightarrow> (\<exists>c. res = Some c \<and> (write_ok c \<or> int (length closed) = ct_poolCount ctl + 1 \<and> c = last closed)))"
proof -
  have n: "nat (ct_poolCount ctl + 1) > 0" using assms(1) by simp
  from pool_loop_result [OF assms(2) [unfolded GetWorkConnFromPool_def] _ n] assms(1)
  show ?thesis by (auto split: option.splits simp: le_nat_iff)
qed

theorem pool_result_witness:
  "fst (GetWorkConnFromPool (\<lambda>_. False) (\<lambda>_. TimesOut) (demo_control\<lparr>ct_workConnCh := [5, 6]\<rparr>)) = (Some 6, None) \<and>
   snd (snd (GetWorkConnFromPool (\<lambda>_. False) (\<lambda>_. TimesOut) (demo_control\<lparr>ct_workConnCh := [5, 6]\<rparr>))) = [5, 6] \<and>
   (\<exists>c. Some 6 = Some c \<and> (False \<or> int (length [5 :: nat, 6]) = 1 + 1 \<and> c = last [5, 6]))"
proof -
  let ?c = "demo_control\<lparr>ct_workConnCh := [5, 6]\<rparr>"
  have r: "GetWorkConnFromPool (\<lambda>_. False) (\<lambda>_. TimesOut) ?c =
      ((Some 6, None), fst (snd (GetWorkConnFromPool (\<lambda>_. False) (\<lambda>_. TimesOut) ?c)), [5, 6])"
    by (simp add: GetWorkConnFromPool_def demo_control_def GetWorkConn_def send_def numeral_2_eq_2 nat_add_distrib)
  have pc: "ct_poolCount ?c = 1" by (simp add: demo_control_def)
  have "ct_poolCount ?c \<ge> 0" using pc by simp
  note p = pool_result [OF this r]
  have "fst (GetWorkConnFromPool (\<lambda>_. False) (\<lambda>_. TimesOut) ?c) = (Some 6, None)" by (subst r) simp
  moreover have "snd (snd (GetWorkConnFromPool (\<lambda>_. False) (\<lambda>_. TimesOut) ?c)) = [5, 6]" by (subst r) simp
  ultimately show ?thesis using p unfolding pc by (intro conjI) simp_all
qed

text \<open>
  The number of pooled connections comes from the client and is only bounded above. A number
  below -10 makes the server panic at login, outside of any recovery; a number from -10 to -1
  is accepted, and then every request for a work connection returns neither a connection nor
  an error, without a single attempt.
\<close>

theorem negative_pool_count:
  assumes "lm_PoolCount m < 0" and "sc_MaxPoolCount sc \<ge> 0"
  shows "(NewControl now sc m i o' = None \<longleftrightarrow> lm_PoolCount m < -10) \<and>
    (\<forall>ctl. NewControl now sc m i o' = Some ctl \<longrightarrow> GetWorkConnFromPool write_ok w ctl = ((None, None), ctl, []))"
  using assms by (auto simp: NewControl_def GetWorkConnFromPool_def Let_def split: if_splits)

theorem negative_pool_count_witness:
  "NewControl 0 demo_server (demo_login (- 11)) 0 0 = None \<and>
   GetWorkConnFromPool (\<lambda>_. True) (\<lambda>_. TimesOut) (the (NewControl 0 demo_server (demo_login (- 1)) 0 0)) =
     ((None, None), the (NewControl 0 demo_server (demo_login (- 1)) 0 0), [])"
proof -
  have "\<exists>c. NewControl 0 demo_server (demo_login (- 1)) 0 0 = Some c"
    by (simp add: NewControl_def demo_login_def demo_server_def Let_def)
  moreover have "lm_PoolCount (demo_login (- 1)) < 0" "lm_PoolCount (demo_login (- 11)) < -10" "sc_MaxPoolCount demo_server \<ge> 0"
    by (simp_all add: demo_login_def demo_server_def)
  ultimately show ?thesis
    using negative_pool_count [of "demo_login (- 1)" demo_server 0 0 0 "\<lambda>_. True" "\<lambda>_. TimesOut"]
      negative_pool_count [of "demo_login (- 11)" demo_server 0 0 0 "\<lambda>_. True" "\<lambda>_. TimesOut"] by auto
qed

text \<open>
  The search for the control of a user takes any run id that contains the user's name
  followed by a hyphen, the last one visited, so that it may be the control of another user.
\<close>

lemma search_loop_eq:
  "search_loop m user ks ctl =
     (case filter (\<lambda>k. go_contains k (user @ ''-'')) ks of [] \<Rightarrow> ctl | k # ks' \<Rightarrow> m (last (k # ks')))"
  by (induction ks arbitrary: ctl) (auto split: list.splits)

theorem search_finds_other_user:
  assumes "sv_ctlsByRunID sv (other @ user @ ''-'' @ rest) = Some cid" and "ks = ks' @ [other @ user @ ''-'' @ rest]"
  shows "SearchByID ks user sv = Some cid"
proof -
  have "go_contains (other @ user @ ''-'' @ rest) (user @ ''-'')"
    unfolding go_contains_iff by (metis append.assoc)
  then show ?thesis
    using assms by (cases "filter (\<lambda>k. go_contains k (user @ ''-'')) ks'") (auto simp: SearchByID_def search_loop_eq)
qed

theorem search_finds_other_user_witness: "SearchByID [''notbob-1''] ''bob'' (demo_sv0\<lparr>sv_ctlsByRunID := [''notbob-1'' \<mapsto> 3]\<rparr>) = Some 3"
  using search_finds_other_user [of "demo_sv0\<lparr>sv_ctlsByRunID := [''notbob-1'' \<mapsto> 3]\<rparr>" "''not''" "''bob''" "''1''" 3 _ "[]"] by simp


text \<open>
  A stopped control keeps its proxies in its map until it is taken out of the table of
  controls. A request to close one of them in between succeeds again, and takes a proxy of
  the same name out of the table that another client has registered meanwhile: that client
  still holds it, but the name is free.
\<close>

theorem stale_close_removes_other:
  assumes "SearchByID ks user sv = Some old" and "ct_stopped (sv_ctls sv old)" and "ct_proxies (sv_ctls sv old) n = Some px"
    and "cid \<noteq> old" and "ct_proxies (sv_ctls sv cid) n = Some px'" and "sv_pxys sv n = Some px'"
  shows "\<exists>sv'. APICloseUserProxy now ks user n sv = ((200, ''Proxy closed''), sv') \<and>
    sv_pxys sv' n = None \<and> ct_proxies (sv_ctls sv' cid) n = Some px'"
  using assms by (simp add: APICloseUserProxy_def ForceCloseProxy_def close_proxy_def pxys_Del_def Let_def)

theorem stale_close_removes_other_witness:
  "\<exists>sv'. APICloseUserProxy 0 [''bob-1''] ''bob'' ''ssh'' (demo_sv0\<lparr>sv_ctlsByRunID := [''bob-1'' \<mapsto> 1],
       sv_pxys := [''ssh'' \<mapsto> demo_px], sv_ctls := (\<lambda>i. demo_control\<lparr>ct_stopped := i = 1, ct_proxies := [''ssh'' \<mapsto> demo_px]\<rparr>)\<rparr>)
     = ((200, ''Proxy closed''), sv') \<and> sv_pxys sv' ''ssh'' = None \<and> ct_proxies (sv_ctls sv' 0) ''ssh'' = Some demo_px"
  by (rule stale_close_removes_other [where old = 1 and px = demo_px]) (simp_all add: SearchByID_def search_loop_eq go_contains.simps)

end
