(* ===== verification/Frp_Typing.thy ===== *)
theory Frp_Typing
  imports Frp_Sessions
begin

text \<open>
  A discipline of types for the proxies that run on the server. The configuration of a proxy
  decides which listeners it has, how many functions it closes with and how many ports it
  uses; \<open>Close\<close> of each type relies on it. Starting a proxy yields a well-typed one, and every
  step of the server preserves the types of all proxies it holds.
\<close>

section \<open>Types\<close>

datatype listener_type = TNet | TTCPGroup | THTTPS | TMux | TMuxGroup | TInternal

fun type_of :: "listener \<Rightarrow> listener_type" where
  "type_of (NetListener _) = TNet"
| "type_of (TCPGroupListener _ _) = TTCPGroup"
| "type_of (HTTPSListener _) = THTTPS"
| "type_of (MuxListener _) = TMux"
| "type_of (MuxGroupListener _ _) = TMuxGroup"
| "type_of (InternalListener _) = TInternal"

text \<open>The listeners a configuration calls for.\<close>

fun conf_listeners :: "server_conf \<Rightarrow> proxy_conf \<Rightarrow> listener_type list" where
  "conf_listeners sc (TCPProxyConf b port) = [if bc_Group b = '''' then TNet else TTCPGroup]"
| "conf_listeners sc (UDPProxyConf b port) = []"
| "conf_listeners sc (HTTPProxyConf b d f) = []"
| "conf_listeners sc (HTTPSProxyConf b d) = replicate (length (listen_domains sc d)) THTTPS"
| "conf_listeners sc (TCPMuxProxyConf b d f) =
     replicate (length (listen_domains sc d)) (if bc_Group b = '''' then TMux else TMuxGroup)"
| "conf_listeners sc (STCPProxyConf b r) = [TInternal]"
| "conf_listeners sc (SUDPProxyConf b r) = [TInternal]"
| "conf_listeners sc (XTCPProxyConf b r) = []"

text \<open>The functions to close with: only those of HTTP proxies, one per route.\<close>

definition conf_close_fns :: "server_conf \<Rightarrow> string \<Rightarrow> proxy_conf \<Rightarrow> close_fn list" where
  "conf_close_fns sc name cfg =
     (case cfg of
        HTTPProxyConf b d f \<Rightarrow>
          map (\<lambda>rc. if bc_Group b = '''' then RouteUnRegister rc else GroupUnRegister name (bc_Group b)) (http_routes sc name d f)
      | _ \<Rightarrow> [])"

text \<open>The port in the configuration of a running proxy is the one it listens on.\<close>

fun port_matches :: "proxy_conf \<Rightarrow> proxy_obj \<Rightarrow> bool" where
  "port_matches (TCPProxyConf b port) px \<longleftrightarrow>
     px_realBindPort px = port \<and> (bc_Group b = '''' \<longrightarrow> px_listeners px = [NetListener port])"
| "port_matches (UDPProxyConf b port) px \<longleftrightarrow> px_realBindPort px = port"
| "port_matches _ px \<longleftrightarrow> px_realBindPort px = 0"

definition well_typed :: "server_conf \<Rightarrow> proxy_obj \<Rightarrow> bool" where
  "well_typed sc px \<longleftrightarrow>
     px_name px = bc_ProxyName (GetBaseConfig (px_cfg px)) \<and>
     px_usedPortsNum px = used_ports_num (px_cfg px) \<and>
     map type_of (px_listeners px) = conf_listeners sc (px_cfg px) \<and>
     px_closeFuncs px = conf_close_fns sc (px_name px) (px_cfg px) \<and>
     port_matches (px_cfg px) px"

section \<open>Starting yields a well-typed proxy\<close>

lemma http_register_loop_fns:
  "http_register_loop name b port c cfgs fns addrs = (None, c', fns', addrs') \<Longrightarrow>
     fns' = fns @ map (\<lambda>rc. if bc_Group b = '''' then RouteUnRegister rc else GroupUnRegister name (bc_Group b)) cfgs"
  by (induction name b port c cfgs fns addrs arbitrary: c' rule: http_register_loop.induct)
    (auto simp: http_register_def split: prod.splits sum.splits option.splits if_splits)

lemma https_loop_listeners:
  "https_loop port re ds ls addrs = (None, re', ls', addrs') \<Longrightarrow>
     map type_of ls' = map type_of ls @ replicate (length ds) THTTPS"
  by (induction port re ds ls addrs rule: https_loop.induct) (auto split: prod.splits sum.splits)

lemma httpConnectListen_listener:
  "httpConnectListen b f re domain = (Inr l, re') \<Longrightarrow> type_of l = (if bc_Group b = '''' then TMux else TMuxGroup)"
  by (auto simp: httpConnectListen_def Let_def split: prod.splits sum.splits if_splits)

lemma httpConnectRun_listeners:
  "httpConnectRun b f port re ds ls addrs = (None, re', ls', addrs') \<Longrightarrow>
     map type_of ls' = map type_of ls @ replicate (length ds) (if bc_Group b = '''' then TMux else TMuxGroup)"
proof (induction b f port re ds ls addrs rule: httpConnectRun.induct)
  case (2 b f port re domain ds ls addrs)
  obtain r re1 where l: "httpConnectListen b f re domain = (r, re1)" by force
  show ?case
    using "2.IH" [OF l [symmetric]] "2.prems" l httpConnectListen_listener [of b f re domain _ re1]
    by (cases r) auto
qed simp

lemma proxy_Run_typed:
  assumes "proxy_Run sc en re (NewProxy user cfg) = (Inr (addr, px), re')"
  shows "well_typed sc px"
proof (cases cfg)
  case (TCPProxyConf b port)
  then show ?thesis
    using assms
    by (auto simp: proxy_Run_def NewProxy_def TCPProxy_Run_def well_typed_def conf_close_fns_def Let_def
        split: if_splits prod.splits sum.splits)
next
  case (HTTPProxyConf b d f)
  then show ?thesis
    using assms http_register_loop_fns [of "bc_ProxyName b" b "sc_VhostHTTPPort sc" "re_http re"
        "http_routes sc (bc_ProxyName b) d f" "[]" "[]"]
    by (auto simp: proxy_Run_def NewProxy_def HTTPProxy_Run_def well_typed_def conf_close_fns_def Let_def
        split: if_splits prod.splits sum.splits option.splits)
next
  case (HTTPSProxyConf b d)
  then show ?thesis
    using assms https_loop_listeners [of "sc_VhostHTTPSPort sc" re "listen_domains sc d" "[]" "[]"]
    by (auto simp: proxy_Run_def NewProxy_def HTTPSProxy_Run_def well_typed_def conf_close_fns_def Let_def
        split: prod.splits option.splits)
next
  case (TCPMuxProxyConf b d f)
  then show ?thesis
    using assms httpConnectRun_listeners [of b f "sc_TCPMuxHTTPConnectPort sc" re "listen_domains sc d" "[]" "[]"]
    by (auto simp: proxy_Run_def NewProxy_def TCPMuxProxy_Run_def well_typed_def conf_close_fns_def Let_def
        split: prod.splits option.splits if_splits)
qed (use assms in \<open>auto simp: proxy_Run_def NewProxy_def UDPProxy_Run_def STCPProxy_Run_def XTCPProxy_Run_def well_typed_def
    conf_close_fns_def Let_def split: if_splits prod.splits sum.splits option.splits bool.splits\<close>)


section \<open>Every step preserves the types\<close>

definition typed_ctl :: "server_conf \<Rightarrow> control \<Rightarrow> bool" where
  "typed_ctl sc c \<longleftrightarrow>
     (\<forall>n px. ct_proxies c n = Some px \<longrightarrow> well_typed sc px) \<and> (\<forall>px. ct_running c = Some px \<longrightarrow> well_typed sc px)"

definition typed_server :: "server_conf \<Rightarrow> server \<Rightarrow> bool" where
  "typed_server sc sv \<longleftrightarrow> sv_cfg sv = sc \<and> (\<forall>cid < sv_ctl_next sv. typed_ctl sc (sv_ctls sv cid))"

lemma typed_ctl_books: "same_books c' c \<Longrightarrow> typed_ctl sc c' = typed_ctl sc c"
  by (simp add: typed_ctl_def same_books_def)

lemma typed_ctl_simps [simp]:
  "typed_ctl sc (add_ports sc' k c) = typed_ctl sc c" "typed_ctl sc (send m c) = typed_ctl sc c"
  by (simp_all add: typed_ctl_def)

lemma typed_upd:
  assumes "typed_server sc sv" and "sv_cfg sv' = sv_cfg sv" and "sv_ctl_next sv' = sv_ctl_next sv"
    and "\<And>i. i < sv_ctl_next sv \<Longrightarrow> typed_ctl sc (sv_ctls sv i) \<Longrightarrow> typed_ctl sc (sv_ctls sv' i)"
  shows "typed_server sc sv'"
  using assms by (simp add: typed_server_def)

lemma typed_books:
  assumes "typed_server sc sv" and "\<And>c. same_books (f c) c"
  shows "typed_server sc (upd_ctl cid f sv)"
  by (rule typed_upd [OF assms(1)]) (auto simp: typed_ctl_books [OF assms(2)])

lemma typed_same_ctls:
  assumes "typed_server sc sv" and "sv_cfg sv' = sv_cfg sv" and "sv_ctl_next sv' = sv_ctl_next sv"
    and "\<And>i. same_books (sv_ctls sv' i) (sv_ctls sv i)"
  shows "typed_server sc sv'"
  by (rule typed_upd [OF assms(1-3)]) (simp add: typed_ctl_books [OF assms(4)])

lemma typed_ctls_Add:
  assumes "typed_server sc sv" and "ctls_Add runID cid sv = (old, sv')"
  shows "typed_server sc sv'"
proof (rule typed_same_ctls [OF assms(1)])
  have "same_books (Replaced c) c" "same_books c c" for c by (simp_all add: same_books_def Replaced_def)
  then show "same_books (sv_ctls sv' i) (sv_ctls sv i)" for i
    using assms(2) by (auto simp: ctls_Add_def Let_def split: option.splits)
qed (use assms(2) in \<open>auto simp: ctls_Add_def Let_def split: option.splits\<close>)

lemma typed_run:
  assumes "typed_server sc sv" and "RegisterProxy_run pf ae en cid m sv = (r, sv')"
  shows "typed_server sc sv'"
proof (cases r)
  case (Inl e)
  then show ?thesis using RegisterProxy_run_Inl [of pf ae en cid m sv e sv'] assms by (auto simp: typed_server_def)
next
  case (Inr addr)
  with assms(2) have "RegisterProxy_run pf ae en cid m sv = (Inr addr, sv')" by simp
  then obtain cfg px rc where
    run: "proxy_Run (sv_cfg sv) en (sv_rc sv) (NewProxy (lm_User (ct_loginMsg (sv_ctls sv cid))) cfg) = (Inr (addr, px), rc)" and
    sv': "sv' = upd_ctl cid (\<lambda>c. add_ports (sv_cfg sv) (px_usedPortsNum px) c\<lparr>ct_running := Some px\<rparr>) (sv\<lparr>sv_rc := rc\<rparr>)"
    by (rule RegisterProxy_run_Inr)
  have "well_typed sc px" using proxy_Run_typed [OF run] assms(1) by (simp add: typed_server_def)
  then show ?thesis by (intro typed_upd [OF assms(1)]) (auto simp: sv' typed_ctl_def)
qed

lemma typed_add:
  assumes "typed_server sc sv"
  shows "typed_server sc (snd (RegisterProxy_add now cid addr sv))"
  by (rule typed_upd [OF assms]) (auto simp: RegisterProxy_add_def typed_ctl_def Let_def split: option.splits)

lemma typed_close_proxy:
  assumes "typed_server sc sv"
  shows "typed_server sc (close_proxy now cid px name reg sv)"
  by (rule typed_upd [OF assms]) (auto simp: close_proxy_def typed_ctl_def Let_def)

lemma typed_stoper:
  assumes "typed_server sc sv"
  shows "typed_server sc (stoper now order cid sv)"
  by (rule typed_upd [OF assms]) (auto simp: stoper_def typed_ctl_def Let_def)

lemma typed_new_control:
  assumes "typed_server sc sv" and "NewControl now sc' m i o' = Some ctl"
  shows "typed_server sc (sv\<lparr>sv_ctls := (sv_ctls sv)(sv_ctl_next sv := ctl), sv_ctl_next := Suc (sv_ctl_next sv)\<rparr>)"
proof -
  have "typed_ctl sc ctl" using assms(2) by (auto simp: NewControl_def typed_ctl_def Let_def split: if_splits)
  then show ?thesis using assms(1) by (auto simp: typed_server_def less_Suc_eq)
qed

lemma typed_add_control:
  assumes "typed_server sc sv" and "NewControl now sc' m i o' = Some ctl"
  shows "typed_server sc (add_control now order ctl sv)"
proof -
  let ?sv1 = "sv\<lparr>sv_ctls := (sv_ctls sv)(sv_ctl_next sv := ctl), sv_ctl_next := Suc (sv_ctl_next sv)\<rparr>"
  obtain old sv2 where a: "ctls_Add (lm_RunID (ct_loginMsg ctl)) (sv_ctl_next sv) ?sv1 = (old, sv2)" by force
  have "typed_server sc sv2" by (rule typed_ctls_Add [OF typed_new_control [OF assms] a])
  then have "typed_server sc (case old of None \<Rightarrow> sv2 | Some c \<Rightarrow> if ct_stopped (sv_ctls sv2 c) then sv2 else stoper now order c sv2)"
    by (simp add: typed_stoper split: option.splits)
  from typed_books [OF this, of ctl_Start "sv_ctl_next sv"] show ?thesis
    by (simp add: add_control_def a ctl_Start_books typed_server_def)
qed

lemma typed_login:
  assumes "typed_server sc sv"
  shows "typed_server sc (snd (RegisterControl md5 rand ae now order l sv))"
  using assms typed_add_control [OF assms]
  by (auto simp: RegisterControl_def split: option.splits sum.splits prod.splits)

lemma ctls_Close_books:
  "sv_cfg (ctls_Close runIDs sv) = sv_cfg sv \<and> sv_ctl_next (ctls_Close runIDs sv) = sv_ctl_next sv \<and>
   same_books (sv_ctls (ctls_Close runIDs sv) i) (sv_ctls sv i)"
proof -
  let ?f = "fold (\<lambda>r sv. case sv_ctlsByRunID sv r of None \<Rightarrow> sv | Some cid \<Rightarrow> upd_ctl cid ctl_Close sv) runIDs"
  have "sv_cfg (?f sv) = sv_cfg sv \<and> sv_ctl_next (?f sv) = sv_ctl_next sv \<and> same_books (sv_ctls (?f sv) i) (sv_ctls sv i)"
    by (induction runIDs arbitrary: sv) (auto simp: same_books_def ctl_Close_def split: option.splits if_splits)
  then show ?thesis by (simp add: ctls_Close_def)
qed

text \<open>Preservation, one case per step.\<close>

lemma server_step_typed:
  assumes "server_step sv sv'" and "typed_server sc sv"
  shows "typed_server sc sv'"
  using assms
proof (induction rule: server_step.induct)
  case (login rand l sv order md5 ae now)
  then show ?case by (simp add: typed_login)
next
  case (run sv cid en pf ae m)
  then show ?case using typed_run [OF run.prems, of pf ae en cid m] by (cases "RegisterProxy_run pf ae en cid m sv") simp
next
  case (work_conn md5 plugin conn runID wm sv)
  then show ?case
    by (intro typed_same_ctls [OF work_conn])
      (auto simp: svc_RegisterWorkConn_def ctl_RegisterWorkConn_def same_books_def Let_def split: option.splits if_splits)
next
  case (close_user ks user sv)
  then show ?case
    by (auto simp: CloseUser_def same_books_def split: option.splits intro!: typed_books)
next
  case (forget runID cid sv)
  then show ?case by (auto simp: ctls_Del_def typed_server_def)
next
  case (ping md5 err_text pplugin now cid pm sv)
  then show ?case
    by (auto simp: manager_Ping_def Let_def same_books_def split: sum.splits option.splits intro!: typed_books)
next
  case (close_all runIDs sv)
  then show ?case using ctls_Close_books by (intro typed_same_ctls [OF close_all]) auto
qed (auto simp: typed_add CloseProxy_def ForceCloseProxy_def typed_close_proxy typed_stoper send_books GetWorkConnFromPool_def
    pool_loop_books typed_books split: option.splits)

lemma server_reachable_typed: "server_reachable sc allow sv \<Longrightarrow> typed_server sc sv"
proof (induction rule: server_reachable.induct)
  case (start au c0)
  show ?case by (simp add: NewServer_def typed_server_def)
next
  case (step sv sv')
  show ?case by (rule server_step_typed [OF step.hyps(2) step.IH])
qed

text \<open>
  (C34) Proxies are well typed: in every reachable state, each proxy in the table, in the list of a
  control or just being registered has the listeners, the functions to close with, the number
  of ports and the bound port that its configuration calls for; starting a proxy establishes
  it for each of the eight types, and no step of the server breaks it.
\<close>

theorem proxies_well_typed:
  assumes "server_reachable sc allow sv"
  shows "(sv_pxys sv n = Some px \<longrightarrow> well_typed sc px) \<and>
    (cid < sv_ctl_next sv \<and> (ct_proxies (sv_ctls sv cid) n = Some px \<or> ct_running (sv_ctls sv cid) = Some px) \<longrightarrow> well_typed sc px) \<and>
    (server_step sv sv' \<longrightarrow> typed_server sc sv')"
proof -
  have t: "typed_server sc sv" using server_reachable_typed [OF assms] .
  then have ctl: "typed_ctl sc (sv_ctls sv i)" if "i < sv_ctl_next sv" for i using that by (simp add: typed_server_def)
  have "well_typed sc px" if tab: "sv_pxys sv n = Some px"
  proof -
    obtain i where "live sv i" "ct_proxies (sv_ctls sv i) n = Some px"
      using server_invD(5) [OF server_reachable_inv [OF assms] tab] by blast
    then show ?thesis using ctl [of i] by (auto simp: live_def typed_ctl_def)
  qed
  moreover have "well_typed sc px"
    if "cid < sv_ctl_next sv" "ct_proxies (sv_ctls sv cid) n = Some px \<or> ct_running (sv_ctls sv cid) = Some px"
    using ctl [OF that(1)] that(2) by (auto simp: typed_ctl_def)
  moreover have "server_step sv sv' \<Longrightarrow> typed_server sc sv'" using t by (rule server_step_typed [rotated])
  ultimately show ?thesis by blast
qed

theorem proxies_well_typed_witness: "well_typed demo_server demo_px \<and> map type_of (px_listeners demo_px) = [TNet]"
  using proxies_well_typed [OF demo_sv3_reachable, of "''ssh''" demo_px] by (simp add: demo_sv3_eq demo_px_def)

end
