(* ===== verification/Frp_Client.thy ===== *)
theory Frp_Client
  imports Frp_Auth Frp_Config "HOL-Library.Sublist"
begin

text \<open>
  The client: the health monitor (\<open>client/health/health.go\<close>), the state machine of one proxy
  (\<open>client/proxy/proxy_wrapper.go\<close>), the manager of all proxies
  (\<open>client/proxy/proxy_manager.go\<close>), the handling of the server's messages
  (\<open>client/control.go\<close>) and the reconnection (\<open>client/service.go\<close>). Messages to the server are
  collected in the order in which they are sent; the clock, the start of a plugin and the
  outcome of a login are arguments. Times are in nanoseconds.
\<close>

section \<open>Health checks\<close>

record monitor =
  hm_interval :: int
  hm_timeout :: int
  hm_maxFailedTimes :: int
  hm_failedTimes :: "64 word"
  hm_statusOK :: bool

definition NewMonitor :: "int \<Rightarrow> int \<Rightarrow> int \<Rightarrow> monitor" where
  "NewMonitor intervalS timeoutS maxFailedTimes =
     \<lparr>hm_interval = (if intervalS \<le> 0 then 10 else intervalS) * 1000000000,
      hm_timeout = (if timeoutS \<le> 0 then 3 else timeoutS) * 1000000000,
      hm_maxFailedTimes = (if maxFailedTimes \<le> 0 then 1 else maxFailedTimes),
      hm_failedTimes = 0, hm_statusOK = False\<rparr>"

datatype health_callback = StatusNormal | StatusFailed

text \<open>One round of the worker; the argument says whether the check succeeded.\<close>

definition check_health :: "bool \<Rightarrow> monitor \<Rightarrow> monitor \<times> health_callback option" where
  "check_health ok m =
     (if ok then
        (if \<not> hm_statusOK m then (m\<lparr>hm_statusOK := True\<rparr>, Some StatusNormal) else (m, None))
      else
        (let m = m\<lparr>hm_failedTimes := hm_failedTimes m + 1\<rparr>
         in if hm_statusOK m \<and> sint (hm_failedTimes m) \<ge> hm_maxFailedTimes m
            then (m\<lparr>hm_statusOK := False\<rparr>, Some StatusFailed) else (m, None)))"

fun check_healths :: "bool list \<Rightarrow> monitor \<Rightarrow> monitor \<times> health_callback option list" where
  "check_healths [] m = (m, [])"
| "check_healths (ok # oks) m =
     (let (m, cb) = check_health ok m; (m, cbs) = check_healths oks m in (m, cb # cbs))"

text \<open>
  The check itself: the address or URL and how it answers. \<open>dial\<close> says whether a connection
  to the address succeeds, \<open>get\<close> gives the status code of a request.
\<close>

definition doCheck :: "string \<Rightarrow> string \<Rightarrow> string \<Rightarrow> (string \<Rightarrow> bool) \<Rightarrow> (string \<Rightarrow> int option) \<Rightarrow> bool" where
  "doCheck checkType addr url dial get =
     (if checkType = ''tcp'' then addr = '''' \<or> dial addr
      else if checkType = ''http'' then (case get url of None \<Rightarrow> False | Some code \<Rightarrow> code div 100 = 2)
      else False)"

section \<open>The state of a proxy\<close>

datatype phase = PhaseNew | PhaseWaitStart | PhaseStartErr | PhaseRunning | PhaseCheckFailed | PhaseClosed

datatype client_msg = SendNewProxy new_proxy_msg | SendCloseProxy string

text \<open>
  \<open>w_health\<close> is True while the checks fail. \<open>w_plugins\<close> counts the plugins that were started
  for the proxy and not closed. \<open>w_stopped\<close> tells that \<open>closeCh\<close> is closed.
\<close>

record wrapper =
  w_Name :: string
  w_Type :: string
  w_Phase :: phase
  w_Err :: string
  w_Cfg :: proxy_conf
  w_RemoteAddr :: string
  w_monitor :: bool
  w_health :: bool
  w_lastSendStartMsg :: int
  w_lastStartErr :: int
  w_plugins :: nat
  w_stopped :: bool

definition waitResponseTimeout :: int where "waitResponseTimeout = 20000000000"

definition startErrTimeout :: int where "startErrTimeout = 30000000000"

definition statusCheckInterval :: int where "statusCheckInterval = 3000000000"

text \<open>A time that was never set lies before all others.\<close>

definition zero_time :: int where "zero_time = - 62135596800000000000"

definition NewWrapper :: "proxy_conf \<Rightarrow> wrapper" where
  "NewWrapper cfg =
     (let b = GetBaseConfig cfg; checked = hk_Type (bc_HealthCheckConf b) \<noteq> ''''
      in \<lparr>w_Name = bc_ProxyName b, w_Type = bc_ProxyType b, w_Phase = PhaseNew, w_Err = '''', w_Cfg = cfg,
          w_RemoteAddr = '''', w_monitor = checked, w_health = checked, w_lastSendStartMsg = zero_time,
          w_lastStartErr = zero_time, w_plugins = 0, w_stopped = False\<rparr>)"

text \<open>
  \<open>Run\<close> of the underlying proxy, which starts its plugin if it has one; the argument is the
  error. What a UDP proxy resolves at its start is part of that outcome.
\<close>

definition pxy_Run :: "string option \<Rightarrow> wrapper \<Rightarrow> string option \<times> wrapper" where
  "pxy_Run err w =
     (case err of
        Some e \<Rightarrow> (Some e, w)
      | None \<Rightarrow> (None, if ls_Plugin (bc_LocalSvrConf (GetBaseConfig (w_Cfg w))) \<noteq> ''''
                      then w\<lparr>w_plugins := Suc (w_plugins w)\<rparr> else w))"

definition send_close :: "wrapper \<Rightarrow> client_msg" where
  "send_close w = SendCloseProxy (w_Name w)"

text \<open>The result is the error, the new state and the messages sent.\<close>

definition SetRunningStatus :: "string option \<Rightarrow> string \<Rightarrow> string \<Rightarrow> wrapper \<Rightarrow> string option \<times> wrapper \<times> client_msg list" where
  "SetRunningStatus run_err remoteAddr respErr w =
     (if w_Phase w \<noteq> PhaseWaitStart then (Some ''status not wait start, ignore start message'', w, [])
      else
        (let w = w\<lparr>w_RemoteAddr := remoteAddr\<rparr> in
         if respErr \<noteq> '''' then (Some respErr, w\<lparr>w_Phase := PhaseClosed, w_Err := respErr\<rparr>, [])
         else (case pxy_Run run_err w of
                 (Some e, w) \<Rightarrow> (Some e, w\<lparr>w_Phase := PhaseClosed, w_Err := e\<rparr>, [send_close w])
               | (None, w) \<Rightarrow> (None, w\<lparr>w_Phase := PhaseRunning, w_Err := ''''\<rparr>, []))))"

text \<open>\<open>None\<close> is the panic of closing a closed channel.\<close>

definition wrapper_Stop :: "wrapper \<Rightarrow> (wrapper \<times> client_msg list) option" where
  "wrapper_Stop w =
     (if w_stopped w then None
      else Some (w\<lparr>w_stopped := True, w_plugins := w_plugins w - 1, w_Phase := PhaseClosed\<rparr>, [send_close w]))"

definition start_due :: "int \<Rightarrow> wrapper \<Rightarrow> bool" where
  "start_due now w \<longleftrightarrow>
     w_Phase w = PhaseNew \<or> w_Phase w = PhaseCheckFailed \<or>
     w_Phase w = PhaseWaitStart \<and> now > w_lastSendStartMsg w + waitResponseTimeout \<or>
     w_Phase w = PhaseStartErr \<and> now > w_lastStartErr w + startErrTimeout"

text \<open>One round of \<open>checkWorker\<close>.\<close>

definition check_round :: "int \<Rightarrow> wrapper \<Rightarrow> wrapper \<times> client_msg list" where
  "check_round now w =
     (if \<not> w_health w then
        (if start_due now w
         then (w\<lparr>w_Phase := PhaseWaitStart, w_lastSendStartMsg := now\<rparr>, [SendNewProxy (MarshalToMsg (w_Cfg w) zero_msg)])
         else (w, []))
      else if w_Phase w = PhaseRunning \<or> w_Phase w = PhaseWaitStart
      then (w\<lparr>w_Phase := PhaseCheckFailed\<rparr>, [send_close w])
      else (w, []))"

text \<open>The callbacks also wake the worker.\<close>

definition on_health :: "health_callback \<Rightarrow> wrapper \<Rightarrow> wrapper" where
  "on_health cb w = w\<lparr>w_health := (case cb of StatusNormal \<Rightarrow> False | StatusFailed \<Rightarrow> True)\<rparr>"

text \<open>Whether a work connection is passed to the proxy; otherwise it is closed.\<close>

definition InWorkConn :: "wrapper \<Rightarrow> bool" where
  "InWorkConn w \<longleftrightarrow> w_Phase w = PhaseRunning"

record working_status =
  ws_Name :: string
  ws_Type :: string
  ws_Phase :: phase
  ws_Err :: string
  ws_Cfg :: proxy_conf
  ws_RemoteAddr :: string

definition GetStatus :: "wrapper \<Rightarrow> working_status" where
  "GetStatus w = \<lparr>ws_Name = w_Name w, ws_Type = w_Type w, ws_Phase = w_Phase w, ws_Err = w_Err w, ws_Cfg = w_Cfg w,
     ws_RemoteAddr = w_RemoteAddr w\<rparr>"

text \<open>Everything that happens to a proxy, with the messages it sends.\<close>

inductive wrapper_step :: "wrapper \<Rightarrow> client_msg list \<Rightarrow> wrapper \<Rightarrow> bool" where
  check: "check_round now w = (w', ms) \<Longrightarrow> wrapper_step w ms w'"
| response: "SetRunningStatus run_err addr err w = (res, w', ms) \<Longrightarrow> wrapper_step w ms w'"
| health: "w_monitor w \<Longrightarrow> wrapper_step w [] (on_health cb w)"
| stop: "wrapper_Stop w = Some (w', ms) \<Longrightarrow> wrapper_step w ms w'"

inductive_cases wrapper_stepE: "wrapper_step w ms w'"

inductive wrapper_run :: "wrapper \<Rightarrow> client_msg list \<Rightarrow> wrapper \<Rightarrow> bool" where
  nil: "wrapper_run w [] w"
| snoc: "wrapper_run w ms w1 \<Longrightarrow> wrapper_step w1 ms' w2 \<Longrightarrow> wrapper_run w (ms @ ms') w2"

section \<open>The manager of the proxies\<close>

record proxy_manager =
  pm_proxies :: "string \<rightharpoonup> wrapper"
  pm_sent :: "client_msg list"

definition NewProxyManager :: proxy_manager where
  "NewProxyManager = \<lparr>pm_proxies = Map.empty, pm_sent = []\<rparr>"

text \<open>\<open>HandleEvent\<close> sends what a proxy wants to send.\<close>

definition HandleEvent :: "client_msg list \<Rightarrow> proxy_manager \<Rightarrow> proxy_manager" where
  "HandleEvent ms pm = pm\<lparr>pm_sent := pm_sent pm @ ms\<rparr>"

definition StartProxy :: "string option \<Rightarrow> string \<Rightarrow> string \<Rightarrow> string \<Rightarrow> proxy_manager \<Rightarrow> string option \<times> proxy_manager" where
  "StartProxy run_err name remoteAddr serverRespErr pm =
     (case pm_proxies pm name of
        None \<Rightarrow> (Some ''not found'', pm)
      | Some w \<Rightarrow>
          (case SetRunningStatus run_err remoteAddr serverRespErr w of
             (err, w', ms) \<Rightarrow> (err, HandleEvent ms (pm\<lparr>pm_proxies := (pm_proxies pm)(name \<mapsto> w')\<rparr>))))"

definition HandleWorkConn :: "string \<Rightarrow> proxy_manager \<Rightarrow> bool" where
  "HandleWorkConn name pm = (case pm_proxies pm name of None \<Rightarrow> False | Some w \<Rightarrow> InWorkConn w)"

definition GetAllProxyStatus :: "string list \<Rightarrow> proxy_manager \<Rightarrow> working_status list" where
  "GetAllProxyStatus order pm = concat (map (\<lambda>name. case pm_proxies pm name of None \<Rightarrow> [] | Some w \<Rightarrow> [GetStatus w]) order)"

text \<open>Taking a proxy out and stopping it; a second stop would panic.\<close>

definition stop_proxy :: "string \<Rightarrow> proxy_manager \<Rightarrow> proxy_manager option" where
  "stop_proxy name pm =
     (case pm_proxies pm name of
        None \<Rightarrow> Some pm
      | Some w \<Rightarrow>
          (case wrapper_Stop w of
             None \<Rightarrow> None
           | Some (_, ms) \<Rightarrow> Some (HandleEvent ms (pm\<lparr>pm_proxies := (pm_proxies pm)(name := None)\<rparr>))))"

text \<open>
  The loops of \<open>Reload\<close>; the lists are the names of the proxies and of the configurations in
  the order of the iteration.
\<close>

fun reload_del :: "(string \<rightharpoonup> proxy_conf) \<Rightarrow> string list \<Rightarrow> proxy_manager \<Rightarrow> proxy_manager option" where
  "reload_del cfgs [] pm = Some pm"
| "reload_del cfgs (name # names) pm =
     (case pm_proxies pm name of
        None \<Rightarrow> reload_del cfgs names pm
      | Some w \<Rightarrow>
          if cfgs name \<noteq> Some (w_Cfg w)
          then (case stop_proxy name pm of None \<Rightarrow> None | Some pm' \<Rightarrow> reload_del cfgs names pm')
          else reload_del cfgs names pm)"

fun reload_add :: "(string \<rightharpoonup> proxy_conf) \<Rightarrow> string list \<Rightarrow> proxy_manager \<Rightarrow> proxy_manager" where
  "reload_add cfgs [] pm = pm"
| "reload_add cfgs (name # names) pm =
     (case cfgs name of
        None \<Rightarrow> reload_add cfgs names pm
      | Some cfg \<Rightarrow>
          reload_add cfgs names
            (if pm_proxies pm name = None then pm\<lparr>pm_proxies := (pm_proxies pm)(name \<mapsto> NewWrapper cfg)\<rparr> else pm))"

definition Reload :: "(string \<rightharpoonup> proxy_conf) \<Rightarrow> string list \<Rightarrow> string list \<Rightarrow> proxy_manager \<Rightarrow> proxy_manager option" where
  "Reload cfgs old_names new_names pm = map_option (reload_add cfgs new_names) (reload_del cfgs old_names pm)"

fun stop_all :: "string list \<Rightarrow> proxy_manager \<Rightarrow> proxy_manager option" where
  "stop_all [] pm = Some pm"
| "stop_all (name # names) pm = (case stop_proxy name pm of None \<Rightarrow> None | Some pm' \<Rightarrow> stop_all names pm')"

definition pm_Close :: "string list \<Rightarrow> proxy_manager \<Rightarrow> proxy_manager option" where
  "pm_Close order pm = map_option (\<lambda>pm. pm\<lparr>pm_proxies := Map.empty\<rparr>) (stop_all order pm)"


section \<open>The control of the client\<close>

text \<open>
  The state that the handler of messages works on. Pings are collected apart from the messages
  of the proxies. \<open>cl_conn_closed\<close> tells that the handler closed the connection.
\<close>

record client_cfg_hb =
  hb_Interval :: int
  hb_Timeout :: int
  hb_TCPMux :: bool

record client_ctl =
  cl_runID :: string
  cl_pm :: proxy_manager
  cl_lastPong :: int
  cl_pings :: "auth_msg list"
  cl_conn_closed :: bool

datatype client_event =
    HbSend int
  | HbCheck int
  | RecvReqWorkConn
  | RecvNewProxyResp "string option" string string string
  | RecvNatHoleResp
  | RecvPong int string
  | ServerClosed

definition hb_check_on :: "client_cfg_hb \<Rightarrow> bool" where
  "hb_check_on hb \<longleftrightarrow> hb_Interval hb > 0 \<and> hb_Timeout hb > 0 \<and> \<not> hb_TCPMux hb"

text \<open>
  One round of \<open>msgHandler\<close>: the flag is False if it returns. Work connections and holes are
  served by goroutines of their own.
\<close>

fun msg_step :: "client_cfg_hb \<Rightarrow> digest \<Rightarrow> auth_cfg \<Rightarrow> client_event \<Rightarrow> client_ctl \<Rightarrow> bool \<times> client_ctl" where
  "msg_step hb md5 au (HbSend now) cl =
     (if hb_Interval hb > 0
      then (True, cl\<lparr>cl_pings := cl_pings cl @ [SetPing md5 au now \<lparr>am_Timestamp = 0, am_PrivilegeKey = ''''\<rparr>]\<rparr>)
      else (True, cl))"
| "msg_step hb md5 au (HbCheck now) cl =
     (if hb_check_on hb \<and> now - cl_lastPong cl > hb_Timeout hb * 1000000000
      then (False, cl\<lparr>cl_conn_closed := True\<rparr>) else (True, cl))"
| "msg_step hb md5 au RecvReqWorkConn cl = (True, cl)"
| "msg_step hb md5 au (RecvNewProxyResp run_err name addr err) cl =
     (True, cl\<lparr>cl_pm := snd (StartProxy run_err name addr err (cl_pm cl))\<rparr>)"
| "msg_step hb md5 au RecvNatHoleResp cl = (True, cl)"
| "msg_step hb md5 au (RecvPong now err) cl =
     (if err \<noteq> '''' then (False, cl\<lparr>cl_conn_closed := True\<rparr>) else (True, cl\<lparr>cl_lastPong := now\<rparr>))"
| "msg_step hb md5 au ServerClosed cl = (False, cl)"

fun msgHandler :: "client_cfg_hb \<Rightarrow> digest \<Rightarrow> auth_cfg \<Rightarrow> client_event list \<Rightarrow> client_ctl \<Rightarrow> bool \<times> client_ctl" where
  "msgHandler hb md5 au [] cl = (True, cl)"
| "msgHandler hb md5 au (ev # evs) cl =
     (let (go, cl') = msg_step hb md5 au ev cl in if go then msgHandler hb md5 au evs cl' else (False, cl'))"

text \<open>
  \<open>HandleReqWorkConn\<close>: what is sent on the new connection, and what becomes of it. \<open>reply\<close> is
  the start message of the server with its error, if it comes.
\<close>

datatype work_outcome = NotConnected | ConnClosed | HandedTo string

definition HandleReqWorkConn ::
    "digest \<Rightarrow> auth_cfg \<Rightarrow> int \<Rightarrow> bool \<Rightarrow> bool \<Rightarrow> (string \<times> string) option \<Rightarrow> client_ctl \<Rightarrow> (string \<times> auth_msg) option \<times> work_outcome" where
  "HandleReqWorkConn md5 au now connect_ok write_ok reply cl =
     (if \<not> connect_ok then (None, NotConnected)
      else (let m = (cl_runID cl, SetNewWorkConn md5 au now \<lparr>am_Timestamp = 0, am_PrivilegeKey = ''''\<rparr>) in
            if \<not> write_ok then (None, ConnClosed)
            else (Some m,
                  case reply of
                    None \<Rightarrow> ConnClosed
                  | Some (name, err) \<Rightarrow>
                      if err \<noteq> '''' then ConnClosed
                      else if HandleWorkConn name (cl_pm cl) then HandedTo name else ConnClosed)))"

section \<open>Reconnection\<close>

definition reconnectDelays :: "int list" where
  "reconnectDelays = [5000000000, 10000000000, 20000000000]"

text \<open>
  \<open>keepControllerWorking\<close>, driven by the outcomes of the logins it tries: the waits, and
  whether the program has exited. After a success the loop goes on when the control has
  closed.
\<close>

fun keepControllerWorking :: "bool list \<Rightarrow> nat \<Rightarrow> int list \<times> bool" where
  "keepControllerWorking [] n = ([], n \<ge> length reconnectDelays)"
| "keepControllerWorking (ok # oks) n =
     (if n \<ge> length reconnectDelays then ([], True)
      else (let (waits, exited) = keepControllerWorking oks (if ok then 0 else Suc n)
            in (reconnectDelays ! n # waits, exited)))"

section \<open>Lemmas on one proxy\<close>

definition start_msg_of :: "wrapper \<Rightarrow> client_msg" where
  "start_msg_of w = SendNewProxy (MarshalToMsg (w_Cfg w) zero_msg)"

text \<open>
  What the messages sent so far say about the phase: a proxy that waits for an answer or runs has
  asked for its start after any request to close it; one whose check failed has asked to be
  closed; a new one has sent nothing. The phase for a failed start is never entered.
\<close>

definition wrapper_inv :: "proxy_conf \<Rightarrow> client_msg list \<Rightarrow> wrapper \<Rightarrow> bool" where
  "wrapper_inv cfg ms w \<longleftrightarrow>
     w_Cfg w = cfg \<and> w_Name w = bc_ProxyName (GetBaseConfig cfg) \<and> w_Phase w \<noteq> PhaseStartErr \<and>
     (w_Phase w = PhaseNew \<longleftrightarrow> ms = [] \<and> \<not> w_stopped w) \<and>
     (w_Phase w = PhaseWaitStart \<or> w_Phase w = PhaseRunning \<longrightarrow> ms \<noteq> [] \<and> last ms = start_msg_of w) \<and>
     (w_Phase w = PhaseCheckFailed \<longrightarrow> ms \<noteq> [] \<and> last ms = send_close w) \<and>
     (w_stopped w \<longrightarrow> w_Phase w = PhaseClosed) \<and>
     set ms \<subseteq> {start_msg_of w, send_close w} \<and> (\<not> w_monitor w \<longrightarrow> \<not> w_health w)"

lemma wrapper_inv_new: "wrapper_inv cfg [] (NewWrapper cfg)"
  by (simp add: wrapper_inv_def NewWrapper_def Let_def)

lemma wrapper_step_inv [inv_intros]:
  assumes "wrapper_step w ms' w'" and "wrapper_inv cfg ms w"
  shows "wrapper_inv cfg (ms @ ms') w'"
  using assms(1)
proof cases
  case (check now)
  then show ?thesis
  proof (cases "w_Phase w = PhaseClosed")
    case True
    then have "w' = w" "ms' = []" using check by (auto simp: check_round_def start_due_def split: if_splits)
    then show ?thesis using assms(2) by simp
  next
    case False
    then have "\<not> w_stopped w" using assms(2) by (simp add: wrapper_inv_def)
    then show ?thesis
      using check assms(2)
      by (auto simp: wrapper_inv_def check_round_def start_due_def start_msg_of_def send_close_def split: if_splits)
  qed
next
  case (response run_err addr err res)
  then show ?thesis
    using assms(2) by (auto simp: wrapper_inv_def SetRunningStatus_def pxy_Run_def start_msg_of_def send_close_def Let_def
        split: if_splits option.splits)
next
  case (health cb)
  then show ?thesis
    using assms(2) by (auto simp: wrapper_inv_def on_health_def start_msg_of_def send_close_def)
next
  case stop
  then show ?thesis
    using assms(2) by (auto simp: wrapper_inv_def wrapper_Stop_def start_msg_of_def send_close_def split: if_splits)
qed

lemma wrapper_run_inv: "wrapper_run w ms w' \<Longrightarrow> w = NewWrapper cfg \<Longrightarrow> wrapper_inv cfg ms w'"
  by (induction rule: wrapper_run.induct) (auto simp: wrapper_inv_new intro: wrapper_step_inv)

text \<open>
  The phase of a proxy tells which request the server got last: a proxy that is running or
  waits for its start has asked to be started, with its own configuration, after every request
  to be closed; one taken down by its health check has asked to be closed. All requests are for
  the proxy itself, and the phase of a failed start is dead code.
\<close>

theorem phase_tells_last_request:
  assumes "wrapper_run (NewWrapper cfg) ms w"
  shows "w_Phase w \<noteq> PhaseStartErr \<and> (w_Phase w = PhaseNew \<longrightarrow> ms = []) \<and>
    (w_Phase w = PhaseWaitStart \<or> w_Phase w = PhaseRunning \<longrightarrow> ms \<noteq> [] \<and> last ms = SendNewProxy (MarshalToMsg cfg zero_msg)) \<and>
    (w_Phase w = PhaseCheckFailed \<longrightarrow> ms \<noteq> [] \<and> last ms = SendCloseProxy (bc_ProxyName (GetBaseConfig cfg))) \<and>
    set ms \<subseteq> {SendNewProxy (MarshalToMsg cfg zero_msg), SendCloseProxy (bc_ProxyName (GetBaseConfig cfg))}"
  using wrapper_run_inv [OF assms refl] by (auto simp: wrapper_inv_def start_msg_of_def send_close_def)

definition demo_waiting :: wrapper where
  "demo_waiting = (NewWrapper demo_http)\<lparr>w_Phase := PhaseWaitStart, w_lastSendStartMsg := 1\<rparr>"

lemma demo_check_round:
  "check_round 1 (NewWrapper demo_http) = (demo_waiting, [SendNewProxy (MarshalToMsg demo_http zero_msg)])"
  by (simp add: demo_waiting_def check_round_def start_due_def NewWrapper_def Let_def demo_http_def zero_base_def)

lemma wrapper_run_one: "wrapper_step w ms w' \<Longrightarrow> wrapper_run w ms w'"
  using wrapper_run.snoc [OF wrapper_run.nil] by fastforce

theorem phase_tells_last_request_witness:
  "w_Phase demo_waiting = PhaseWaitStart \<and>
   last [SendNewProxy (MarshalToMsg demo_http zero_msg)] = SendNewProxy (MarshalToMsg demo_http zero_msg) \<and>
   w_Phase demo_waiting \<noteq> PhaseStartErr"
  using phase_tells_last_request [OF wrapper_run_one [OF wrapper_step.check [OF demo_check_round]]]
  by (simp add: demo_waiting_def)

text \<open>A closed proxy stays closed and asks for nothing but, when it is stopped, to be closed.\<close>

lemma closed_step:
  assumes "wrapper_step w ms w'" and "w_Phase w = PhaseClosed"
  shows "w_Phase w' = PhaseClosed \<and> set ms \<subseteq> {send_close w} \<and> w_Name w' = w_Name w"
  using assms
  by (cases rule: wrapper_stepE)
    (auto simp: check_round_def start_due_def SetRunningStatus_def on_health_def wrapper_Stop_def send_close_def split: if_splits)

lemma closed_run:
  assumes "wrapper_run w ms w'" and "w_Phase w = PhaseClosed"
  shows "w_Phase w' = PhaseClosed \<and> set ms \<subseteq> {send_close w} \<and> w_Name w' = w_Name w"
  using assms
proof (induction rule: wrapper_run.induct)
  case (snoc w ms w1 ms' w2)
  then show ?case using closed_step [OF snoc.hyps(2)] by (auto simp: send_close_def)
qed simp


text \<open>
  A refusal is final: a proxy that waits for its start and is told an error by the server is
  closed, says so, and from then on, whatever its checks, its health monitor, late answers of the
  server and the clock do, it never runs and never asks for a start again. Only a change of
  its configuration replaces it.
\<close>

theorem refusal_is_final:
  assumes "w_Phase w = PhaseWaitStart" and "err \<noteq> ''''"
    and "SetRunningStatus run_err addr err w = (res, w1, ms1)" and "wrapper_run w1 ms w2"
  shows "res = Some err \<and> ms1 = [] \<and> w_Err w1 = err \<and> w_Phase w2 = PhaseClosed \<and> \<not> InWorkConn w2 \<and>
    set ms \<subseteq> {SendCloseProxy (w_Name w)}"
proof -
  have w1: "w1 = w\<lparr>w_RemoteAddr := addr, w_Phase := PhaseClosed, w_Err := err\<rparr>" and "res = Some err" "ms1 = []"
    using assms(1-3) by (auto simp: SetRunningStatus_def)
  then show ?thesis using closed_run [OF assms(4)] by (simp add: InWorkConn_def send_close_def)
qed

theorem refusal_is_final_witness:
  "\<not> InWorkConn (fst (check_round 99000000000 (demo_waiting\<lparr>w_RemoteAddr := '''', w_Phase := PhaseClosed, w_Err := ''busy''\<rparr>)))"
proof -
  let ?w1 = "demo_waiting\<lparr>w_RemoteAddr := '''', w_Phase := PhaseClosed, w_Err := ''busy''\<rparr>"
  have "SetRunningStatus None '''' ''busy'' demo_waiting = (Some ''busy'', ?w1, [])"
    by (simp add: SetRunningStatus_def demo_waiting_def)
  from refusal_is_final [OF _ _ this wrapper_run_one [OF wrapper_step.check [OF prod.collapse [symmetric]]]]
  show ?thesis by (simp add: demo_waiting_def)
qed

section \<open>Lemmas on the manager\<close>

definition kept :: "(string \<rightharpoonup> proxy_conf) \<Rightarrow> proxy_manager \<Rightarrow> string \<Rightarrow> wrapper option" where
  "kept cfgs pm name =
     (case pm_proxies pm name of None \<Rightarrow> None | Some w \<Rightarrow> if cfgs name = Some (w_Cfg w) then Some w else None)"

definition dropped :: "(string \<rightharpoonup> proxy_conf) \<Rightarrow> proxy_manager \<Rightarrow> string \<Rightarrow> client_msg list" where
  "dropped cfgs pm name =
     (case pm_proxies pm name of
        None \<Rightarrow> [] | Some w \<Rightarrow> if cfgs name = Some (w_Cfg w) then [] else [SendCloseProxy (w_Name w)])"

definition pm_ok :: "proxy_manager \<Rightarrow> bool" where
  "pm_ok pm \<longleftrightarrow> (\<forall>name w. pm_proxies pm name = Some w \<longrightarrow> \<not> w_stopped w)"

lemma stop_proxy_ok:
  assumes "pm_ok pm"
  obtains pm' where "stop_proxy name pm = Some pm'" and "pm_proxies pm' = (pm_proxies pm)(name := None)"
    and "pm_sent pm' = pm_sent pm @ (case pm_proxies pm name of None \<Rightarrow> [] | Some w \<Rightarrow> [SendCloseProxy (w_Name w)])"
    and "pm_ok pm'"
proof (cases "pm_proxies pm name")
  case None
  then have "(pm_proxies pm)(name := None) = pm_proxies pm" by auto
  then show ?thesis using that [of pm] None assms by (simp add: stop_proxy_def)
next
  case (Some w)
  then have run: "\<not> w_stopped w" using assms by (auto simp: pm_ok_def)
  show ?thesis
    by (rule that [of "HandleEvent [SendCloseProxy (w_Name w)] (pm\<lparr>pm_proxies := (pm_proxies pm)(name := None)\<rparr>)"])
      (use run Some assms in \<open>auto simp: stop_proxy_def wrapper_Stop_def HandleEvent_def send_close_def pm_ok_def\<close>)
qed

lemma reload_del_spec:
  assumes "distinct names" and "pm_ok pm"
  shows "\<exists>pm'. reload_del cfgs names pm = Some pm' \<and> pm_ok pm' \<and>
    pm_proxies pm' = (\<lambda>n. if n \<in> set names then kept cfgs pm n else pm_proxies pm n) \<and>
    pm_sent pm' = pm_sent pm @ concat (map (dropped cfgs pm) names)"
  using assms
proof (induction names arbitrary: pm)
  case (Cons n names)
  let ?step = "if kept cfgs pm n = pm_proxies pm n then Some pm else stop_proxy n pm"
  obtain pm1 where pm1: "?step = Some pm1" "pm_ok pm1" "pm_proxies pm1 = (pm_proxies pm)(n := kept cfgs pm n)"
    "pm_sent pm1 = pm_sent pm @ dropped cfgs pm n"
  proof (cases "kept cfgs pm n = pm_proxies pm n")
    case True
    then show ?thesis
      using that [of pm] Cons.prems by (auto simp: kept_def dropped_def fun_upd_idem_iff split: option.splits if_splits)
  next
    case False
    obtain pm' where "stop_proxy n pm = Some pm'" "pm_proxies pm' = (pm_proxies pm)(n := None)"
      "pm_sent pm' = pm_sent pm @ (case pm_proxies pm n of None \<Rightarrow> [] | Some w \<Rightarrow> [SendCloseProxy (w_Name w)])" "pm_ok pm'"
      using stop_proxy_ok [OF Cons.prems(2)] .
    then show ?thesis
      using that [of pm'] False by (auto simp: kept_def dropped_def split: option.splits if_splits)
  qed
  have run: "reload_del cfgs (n # names) pm = reload_del cfgs names pm1"
    using pm1(1) by (auto simp: kept_def split: option.splits if_splits)
  have same: "m \<noteq> n \<Longrightarrow> kept cfgs pm1 m = kept cfgs pm m \<and> dropped cfgs pm1 m = dropped cfgs pm m" for m
    by (simp add: kept_def dropped_def pm1(3))
  have maps: "map (dropped cfgs pm1) names = map (dropped cfgs pm) names"
    "\<And>m. m \<in> set names \<Longrightarrow> kept cfgs pm1 m = kept cfgs pm m"
    by (rule map_cong [OF refl], use Cons.prems(1) same in fastforce) (use Cons.prems(1) same in fastforce)
  obtain pm2 where "reload_del cfgs names pm1 = Some pm2" "pm_ok pm2"
    "pm_proxies pm2 = (\<lambda>n. if n \<in> set names then kept cfgs pm1 n else pm_proxies pm1 n)"
    "pm_sent pm2 = pm_sent pm1 @ concat (map (dropped cfgs pm1) names)"
    using Cons.IH [of pm1] Cons.prems(1) pm1(2) by auto
  then show ?case
    unfolding run using pm1(3,4) Cons.prems(1)
    by (intro exI [of _ pm2]) (simp add: fun_eq_iff maps del: map_eq_conv)
qed simp

lemma reload_add_spec:
  "pm_proxies (reload_add cfgs names pm) =
     (\<lambda>n. if n \<in> set names \<and> pm_proxies pm n = None then map_option NewWrapper (cfgs n) else pm_proxies pm n) \<and>
   pm_sent (reload_add cfgs names pm) = pm_sent pm"
  by (induction names arbitrary: pm) (auto simp: fun_eq_iff split: option.splits)

text \<open>
  \<open>Reload\<close> puts exactly the new configurations to work: whatever the order of the
  iterations, it succeeds, a proxy whose configuration is unchanged is kept in its state, every
  other configured one starts afresh, and nothing else remains; and exactly the proxies that
  were dropped or changed ask the server to be closed, each once.
\<close>

theorem reload_exact:
  assumes "pm_ok pm" and "distinct old_names" and "set old_names = dom (pm_proxies pm)" and "set new_names = dom cfgs"
  shows "\<exists>pm'. Reload cfgs old_names new_names pm = Some pm' \<and> pm_ok pm' \<and>
    (\<forall>n. pm_proxies pm' n =
       (case cfgs n of
          None \<Rightarrow> None
        | Some cfg \<Rightarrow> Some (case pm_proxies pm n of
                               Some w \<Rightarrow> if w_Cfg w = cfg then w else NewWrapper cfg | None \<Rightarrow> NewWrapper cfg))) \<and>
    pm_sent pm' = pm_sent pm @ concat (map (dropped cfgs pm) old_names)"
proof -
  obtain pm1 where pm1: "reload_del cfgs old_names pm = Some pm1" "pm_ok pm1"
    "pm_proxies pm1 = (\<lambda>n. if n \<in> set old_names then kept cfgs pm n else pm_proxies pm n)"
    "pm_sent pm1 = pm_sent pm @ concat (map (dropped cfgs pm) old_names)"
    using reload_del_spec [OF assms(2,1)] by blast
  have k: "pm_proxies pm1 n = kept cfgs pm n" for n
    using assms(3) by (auto simp: pm1(3) kept_def domIff)
  have new: "\<not> w_stopped (NewWrapper cfg)" for cfg by (simp add: NewWrapper_def Let_def)
  let ?pm' = "reload_add cfgs new_names pm1"
  have p: "pm_proxies ?pm' n = (case cfgs n of None \<Rightarrow> None | Some cfg \<Rightarrow> Some (case pm_proxies pm n of
      Some w \<Rightarrow> if w_Cfg w = cfg then w else NewWrapper cfg | None \<Rightarrow> NewWrapper cfg))" for n
    by (cases "cfgs n") (auto simp: reload_add_spec k kept_def assms(4) split: option.splits)
  have "pm_ok ?pm'"
    using assms(1) new by (auto simp: pm_ok_def p split: option.splits if_splits)
  then show ?thesis
    using pm1(1,4) p by (simp add: Reload_def reload_add_spec)
qed

definition demo_pm :: proxy_manager where
  "demo_pm = \<lparr>pm_proxies = [''web'' \<mapsto> demo_waiting], pm_sent = []\<rparr>"

theorem reload_exact_witness:
  "\<exists>pm'. Reload [''web'' \<mapsto> demo_http] [''web''] [''web''] demo_pm = Some pm' \<and>
     pm_proxies pm' ''web'' = Some demo_waiting \<and> pm_sent pm' = []"
proof -
  have "pm_ok demo_pm" by (simp add: pm_ok_def demo_pm_def demo_waiting_def NewWrapper_def Let_def)
  from reload_exact [OF this, of "[''web'']" "[''web'']" "[''web'' \<mapsto> demo_http]"]
  show ?thesis
    by (auto simp: demo_pm_def dropped_def demo_waiting_def NewWrapper_def Let_def)
qed


section \<open>Health, plugins and reconnection\<close>

definition callback :: "health_callback option \<Rightarrow> wrapper \<Rightarrow> wrapper" where
  "callback cb w = (case cb of None \<Rightarrow> w | Some cb \<Rightarrow> on_health cb w)"

lemma check_healths_flag:
  "w_health w = (\<not> hm_statusOK m) \<Longrightarrow>
   w_health (fold callback (snd (check_healths oks m)) w) = (\<not> hm_statusOK (fst (check_healths oks m)))"
  by (induction oks arbitrary: m w) (auto simp: check_health_def callback_def on_health_def Let_def case_prod_beta)

lemma check_healths_failed:
  "hm_failedTimes (fst (check_healths oks m)) = hm_failedTimes m + of_nat (length (filter Not oks))"
  by (induction oks arbitrary: m) (auto simp: check_health_def Let_def case_prod_beta)

text \<open>
  The health monitor and its proxy agree on the state after any sequence of checks; but the
  failures are never reset: the monitor counts all of them since its start, so that with
  \<open>health_check_max_failed = 3\<close> three failures, none following another, take the proxy down,
  and from then on a single failure does.
\<close>

theorem health_failures_accumulate:
  "w_health (fold callback (snd (check_healths oks (NewMonitor i t k))) (NewWrapper cfg\<lparr>w_health := True\<rparr>)) =
     (\<not> hm_statusOK (fst (check_healths oks (NewMonitor i t k)))) \<and>
   hm_failedTimes (fst (check_healths oks (NewMonitor i t k))) = of_nat (length (filter Not oks)) \<and>
   snd (check_healths [True, False, True, False, True, False, True, False] (NewMonitor i t 3)) =
     [Some StatusNormal, None, None, None, None, Some StatusFailed, Some StatusNormal, Some StatusFailed]"
  by (simp add: check_healths_flag check_healths_failed NewMonitor_def) (simp add: check_health_def)

lemma keepControllerWorking_sublist:
  "n \<le> 3 \<Longrightarrow> snd (keepControllerWorking oks n) = sublist [False, False, False] (replicate n False @ oks)"
proof (induction oks arbitrary: n)
  case Nil
  then consider "n = 0" | "n = 1" | "n = 2" | "n = 3" by linarith
  then show ?case by cases (simp_all add: reconnectDelays_def numeral_2_eq_2 numeral_3_eq_3 sublist_Cons_right)
next
  case (Cons ok oks)
  have rep: "replicate n False @ False # oks = replicate (Suc n) False @ oks"
    by (simp add: replicate_app_Cons_same)
  from Cons.prems consider "n = 0" | "n = 1" | "n = 2" | "n = 3" by linarith
  then show ?case
    using Cons.IH [of 0] Cons.IH [of "Suc n"] rep
    by cases
      (cases ok; simp add: reconnectDelays_def numeral_2_eq_2 numeral_3_eq_3 sublist_Cons_right case_prod_beta Let_def)+
qed

text \<open>
  The client reconnects after 5, 10 and 20 seconds, begins anew after every success, and
  gives up, ending the program, exactly upon three failed logins in a row.
\<close>

theorem reconnection:
  "snd (keepControllerWorking oks 0) = sublist [False, False, False] oks \<and>
   set (fst (keepControllerWorking oks n)) \<subseteq> {5000000000, 10000000000, 20000000000} \<and>
   fst (keepControllerWorking (True # oks) 0) = 5000000000 # fst (keepControllerWorking oks 0) \<and>
   fst (keepControllerWorking [False, False, True, False] 0) = [5000000000, 10000000000, 20000000000, 5000000000]"
proof -
  have "set (fst (keepControllerWorking oks n)) \<subseteq> set reconnectDelays"
    by (induction oks arbitrary: n) (auto simp: case_prod_beta Let_def intro: nth_mem subsetD)
  then show ?thesis
    using keepControllerWorking_sublist [of 0 oks] by (simp add: reconnectDelays_def case_prod_beta Let_def)
qed

text \<open>
  When a running proxy fails its health check and recovers, its plugin is started once more
  and the former one is never closed.
\<close>

lemma health_run:
  assumes "w_monitor w" and "w_Phase w = PhaseRunning \<or> w_Phase w = PhaseWaitStart"
  shows "wrapper_run w [send_close w, start_msg_of w] (w\<lparr>w_health := False, w_Phase := PhaseWaitStart, w_lastSendStartMsg := now\<rparr>)"
proof -
  let ?w1 = "on_health StatusFailed w"
  let ?w2 = "?w1\<lparr>w_Phase := PhaseCheckFailed\<rparr>"
  let ?w3 = "on_health StatusNormal ?w2"
  have "wrapper_run w [] ?w1" using wrapper_run_one wrapper_step.health [OF assms(1)] .
  moreover have "wrapper_step ?w1 [send_close w] ?w2"
    by (rule wrapper_step.check [of 0]) (use assms(2) in \<open>auto simp: check_round_def on_health_def send_close_def\<close>)
  ultimately have "wrapper_run w [send_close w] ?w2" using wrapper_run.snoc by fastforce
  moreover have "wrapper_step ?w2 [] ?w3" by (rule wrapper_step.health) (simp add: on_health_def assms(1))
  ultimately have "wrapper_run w [send_close w] ?w3" using wrapper_run.snoc by fastforce
  moreover have "wrapper_step ?w3 [start_msg_of w] (w\<lparr>w_health := False, w_Phase := PhaseWaitStart, w_lastSendStartMsg := now\<rparr>)"
    by (rule wrapper_step.check [of now]) (simp add: check_round_def on_health_def start_due_def start_msg_of_def)
  ultimately show ?thesis using wrapper_run.snoc by fastforce
qed

lemma answer_run:
  assumes "wrapper_run w ms w1" and "w_Phase w1 = PhaseWaitStart"
  obtains w2 where "wrapper_run w ms w2" and "w_Phase w2 = PhaseRunning"
    and "w_plugins w2 = (if ls_Plugin (bc_LocalSvrConf (GetBaseConfig (w_Cfg w1))) \<noteq> '''' then Suc (w_plugins w1) else w_plugins w1)"
proof -
  obtain w2 where s: "SetRunningStatus None '''' '''' w1 = (None, w2, [])" "w_Phase w2 = PhaseRunning"
    "w_plugins w2 = (if ls_Plugin (bc_LocalSvrConf (GetBaseConfig (w_Cfg w1))) \<noteq> '''' then Suc (w_plugins w1) else w_plugins w1)"
    using assms(2) by (simp add: SetRunningStatus_def pxy_Run_def Let_def)
  show thesis
    using that [OF _ s(2,3)] wrapper_run.snoc [OF assms(1) wrapper_step.response [OF s(1)]] by simp
qed

theorem plugin_started_again:
  assumes "w_monitor w" and "w_Phase w = PhaseRunning" and "ls_Plugin (bc_LocalSvrConf (GetBaseConfig (w_Cfg w))) \<noteq> ''''"
  shows "\<exists>ms w'. wrapper_run w ms w' \<and> w_Phase w' = PhaseRunning \<and> w_plugins w' = Suc (w_plugins w)"
proof -
  obtain w2 where "wrapper_run w [send_close w, start_msg_of w] w2" "w_Phase w2 = PhaseRunning" "w_plugins w2 = Suc (w_plugins w)"
    using answer_run [OF health_run [OF assms(1), of 0]] assms(2,3) by auto
  then show ?thesis by blast
qed

text \<open>
  An answer does not tell which request it answers. If the health check fails and recovers
  before the answer to the first request comes, the proxy runs upon that answer although the
  server has closed it since, and ignores the answer to its second request, be it an error.
\<close>

theorem stale_answer_accepted:
  assumes "w_monitor w" and "w_Phase w = PhaseWaitStart"
  shows "\<exists>w'. wrapper_run w [send_close w, start_msg_of w] w' \<and> w_Phase w' = PhaseRunning \<and>
    SetRunningStatus None '''' err w' = (Some ''status not wait start, ignore start message'', w', [])"
proof -
  obtain w' where "wrapper_run w [send_close w, start_msg_of w] w'" and run: "w_Phase w' = PhaseRunning"
    using answer_run [OF health_run [OF assms(1), of 0]] assms(2) by auto
  moreover have "SetRunningStatus None '''' err w' = (Some ''status not wait start, ignore start message'', w', [])"
    using run by (simp add: SetRunningStatus_def)
  ultimately show ?thesis by blast
qed

end
