(* ===== verification/Frp_ClientRun.thy ===== *)
theory Frp_ClientRun
  imports Frp_Client
begin

text \<open>
  The life of the client's manager of proxies as a step relation (rounds of the workers, answers
  of the server, health checks, reloads and the shutdown), and what the messages sent so far
  say about each proxy, over any number of reloads.
\<close>

section \<open>Steps of the manager\<close>

definition put_wrapper :: "string \<Rightarrow> wrapper \<Rightarrow> proxy_manager \<Rightarrow> proxy_manager" where
  "put_wrapper n w pm = pm\<lparr>pm_proxies := (pm_proxies pm)(n \<mapsto> w)\<rparr>"

inductive own_step :: "proxy_manager \<Rightarrow> proxy_manager \<Rightarrow> bool" where
  check: "pm_proxies pm n = Some w \<Longrightarrow> check_round now w = (w', ms) \<Longrightarrow>
    own_step pm (HandleEvent ms (put_wrapper n w' pm))"
| health: "pm_proxies pm n = Some w \<Longrightarrow> w_monitor w \<Longrightarrow> own_step pm (put_wrapper n (on_health cb w) pm)"
| reload: "keyed cfgs \<Longrightarrow> distinct old \<Longrightarrow> set old = dom (pm_proxies pm) \<Longrightarrow> set new = dom cfgs \<Longrightarrow>
    Reload cfgs old new pm = Some pm' \<Longrightarrow> own_step pm pm'"
| close: "set order = dom (pm_proxies pm) \<Longrightarrow> pm_Close order pm = Some pm' \<Longrightarrow> own_step pm pm'"

inductive_cases own_stepE: "own_step pm pm'"

inductive pm_reachable :: "proxy_manager \<Rightarrow> bool" where
  start: "pm_reachable NewProxyManager"
| own: "pm_reachable pm \<Longrightarrow> own_step pm pm' \<Longrightarrow> pm_reachable pm'"
| answer: "pm_reachable pm \<Longrightarrow> StartProxy run_err n addr err pm = (res, pm') \<Longrightarrow> pm_reachable pm'"

section \<open>What the messages say\<close>

fun concerns :: "string \<Rightarrow> client_msg \<Rightarrow> bool" where
  "concerns n (SendNewProxy m) = (np_ProxyName m = n)"
| "concerns n (SendCloseProxy x) = (x = n)"

text \<open>The last request for a proxy.\<close>

definition asked :: "string \<Rightarrow> client_msg list \<Rightarrow> client_msg option" where
  "asked n ms = (if filter (concerns n) ms = [] then None else Some (last (filter (concerns n) ms)))"

text \<open>Between two requests to close it a proxy is always requested with the same configuration.\<close>

definition steady :: "string \<Rightarrow> client_msg list \<Rightarrow> bool" where
  "steady n ms \<longleftrightarrow> successively (\<lambda>x y. x = y \<or> x = SendCloseProxy n \<or> y = SendCloseProxy n) (filter (concerns n) ms)"

lemma asked_Nil [simp]: "asked n [] = None" by (simp add: asked_def)

lemma asked_snoc [simp]: "asked n (ms @ [m]) = (if concerns n m then Some m else asked n ms)"
  by (simp add: asked_def)

lemma steady_Nil [simp]: "steady n []" by (simp add: steady_def)

lemma steady_snoc [simp]:
  "steady n (ms @ [m]) \<longleftrightarrow>
     steady n ms \<and> (concerns n m \<longrightarrow> asked n ms \<in> {None, Some m, Some (SendCloseProxy n)} \<or> m = SendCloseProxy n)"
  by (auto simp: steady_def asked_def successively_append_iff)

lemma MarshalToMsg_name: "np_ProxyName (MarshalToMsg cfg m) = bc_ProxyName (GetBaseConfig cfg)"
  by (cases cfg) (simp_all add: base_marshalToMsg_def role_marshalToMsg_def Let_def)

text \<open>What is known of one proxy.\<close>

definition wrapper_says :: "string \<Rightarrow> wrapper \<Rightarrow> client_msg option \<Rightarrow> bool" where
  "wrapper_says n w a \<longleftrightarrow>
     w_Name w = n \<and> bc_ProxyName (GetBaseConfig (w_Cfg w)) = n \<and> \<not> w_stopped w \<and> w_Phase w \<noteq> PhaseStartErr \<and>
     a \<in> {None, Some (SendCloseProxy n), Some (start_msg_of w)} \<and>
     (w_Phase w \<in> {PhaseNew, PhaseCheckFailed} \<longrightarrow> a \<noteq> Some (start_msg_of w)) \<and>
     (w_Phase w \<in> {PhaseWaitStart, PhaseRunning} \<longrightarrow> a = Some (start_msg_of w))"

definition slot_says :: "string \<Rightarrow> wrapper option \<Rightarrow> client_msg option \<Rightarrow> bool" where
  "slot_says n wo a = (case wo of None \<Rightarrow> a \<in> {None, Some (SendCloseProxy n)} | Some w \<Rightarrow> wrapper_says n w a)"

lemma slot_says_simps [simp]:
  "slot_says n None a \<longleftrightarrow> a \<in> {None, Some (SendCloseProxy n)}" "slot_says n (Some w) a = wrapper_says n w a"
  by (simp_all add: slot_says_def)

definition pm_inv :: "proxy_manager \<Rightarrow> bool" where
  "pm_inv pm \<longleftrightarrow> (\<forall>n. steady n (pm_sent pm) \<and> slot_says n (pm_proxies pm n) (asked n (pm_sent pm)))"

lemma slotD: "pm_inv pm \<Longrightarrow> slot_says n (pm_proxies pm n) (asked n (pm_sent pm))"
  by (simp add: pm_inv_def)

lemma saysD: "pm_inv pm \<Longrightarrow> pm_proxies pm n = Some w \<Longrightarrow> wrapper_says n w (asked n (pm_sent pm))"
  using slotD [of pm n] by simp

lemma pm_inv_ok: "pm_inv pm \<Longrightarrow> pm_ok pm"
  using saysD by (fastforce simp: pm_ok_def wrapper_says_def)

lemma start_msg_concerns: "bc_ProxyName (GetBaseConfig (w_Cfg w)) = n \<Longrightarrow> concerns k (start_msg_of w) = (k = n)"
  by (auto simp: start_msg_of_def MarshalToMsg_name)

lemma start_msg_not_close [simp]: "start_msg_of w \<noteq> SendCloseProxy n" "SendCloseProxy n \<noteq> start_msg_of w"
  by (simp_all add: start_msg_of_def)

text \<open>The effect of a step on one proxy: without a message, with a request to start or to close.\<close>

lemma pm_inv_quiet [inv_intros]:
  assumes "pm_inv pm" and "slot_says n (Some w') (asked n (pm_sent pm))"
  shows "pm_inv (put_wrapper n w' pm)"
  using assms by (auto simp: pm_inv_def put_wrapper_def simp del: slot_says_simps)

lemma pm_inv_send:
  assumes "pm_inv pm" and "\<And>k. concerns k m = (k = n)" and "slot_says n new (Some m)"
    and "m = SendCloseProxy n \<or> asked n (pm_sent pm) \<in> {None, Some m, Some (SendCloseProxy n)}"
  shows "pm_inv (HandleEvent [m] (pm\<lparr>pm_proxies := (pm_proxies pm)(n := new)\<rparr>))"
  using assms by (auto simp: pm_inv_def HandleEvent_def simp del: slot_says_simps)

lemma pm_inv_start:
  assumes "pm_inv pm" and "pm_proxies pm n = Some w" and "wrapper_says n w' (Some (start_msg_of w'))"
    and "w_Cfg w' = w_Cfg w"
  shows "pm_inv (HandleEvent [start_msg_of w'] (put_wrapper n w' pm))"
proof -
  have m: "concerns k (start_msg_of w') = (k = n)" for k
    using assms(3) by (intro start_msg_concerns) (simp add: wrapper_says_def)
  have "asked n (pm_sent pm) \<in> {None, Some (start_msg_of w'), Some (SendCloseProxy n)}"
    using saysD [OF assms(1,2)] assms(4) by (auto simp: wrapper_says_def start_msg_of_def)
  then show ?thesis
    unfolding put_wrapper_def using assms(1,3) m by (intro pm_inv_send) simp_all
qed

lemma pm_inv_close:
  assumes "pm_inv pm" and "\<And>w'. new = Some w' \<Longrightarrow> wrapper_says n w' (Some (SendCloseProxy n))"
  shows "pm_inv (HandleEvent [SendCloseProxy n] (pm\<lparr>pm_proxies := (pm_proxies pm)(n := new)\<rparr>))"
  using assms by (intro pm_inv_send) (auto simp: slot_says_def split: option.splits)

lemma HandleEvent_Nil [simp]: "HandleEvent [] pm = pm" by (simp add: HandleEvent_def)

lemma check_round_cases:
  "check_round now w = (w, []) \<or>
   check_round now w = (w\<lparr>w_Phase := PhaseWaitStart, w_lastSendStartMsg := now\<rparr>, [start_msg_of w]) \<or>
   check_round now w = (w\<lparr>w_Phase := PhaseCheckFailed\<rparr>, [send_close w])"
  by (simp add: check_round_def start_msg_of_def)

lemma check_round_inv:
  assumes "pm_inv pm" and w: "pm_proxies pm n = Some w" and r: "check_round now w = (w', ms)"
  shows "pm_inv (HandleEvent ms (put_wrapper n w' pm))"
proof -
  have says: "wrapper_says n w (asked n (pm_sent pm))" using saysD [OF assms(1) w] .
  consider "ms = []" "w' = w"
    | "ms = [start_msg_of w']" "w' = w\<lparr>w_Phase := PhaseWaitStart, w_lastSendStartMsg := now\<rparr>"
    | "ms = [SendCloseProxy n]" "w' = w\<lparr>w_Phase := PhaseCheckFailed\<rparr>"
  proof -
    have "w_Name w = n" using says by (simp add: wrapper_says_def)
    then show thesis
      using check_round_cases [of now w] r that by (auto simp: send_close_def start_msg_of_def)
  qed
  then show ?thesis
  proof cases
    case 1
    then show ?thesis using pm_inv_quiet [OF assms(1), of n w] says by simp
  next
    case 2
    then have "wrapper_says n w' (Some (start_msg_of w'))" using says by (simp add: wrapper_says_def)
    then show ?thesis using pm_inv_start [OF assms(1) w] 2 by simp
  next
    case 3
    then show ?thesis
      using pm_inv_close [OF assms(1), of "Some w'" n] says by (simp add: put_wrapper_def wrapper_says_def)
  qed
qed

lemma StartProxy_inv:
  assumes "pm_inv pm" and "StartProxy run_err n addr err pm = (res, pm')"
  shows "pm_inv pm'"
proof (cases "pm_proxies pm n")
  case None
  then show ?thesis using assms by (simp add: StartProxy_def)
next
  case (Some w)
  obtain w' ms where s: "SetRunningStatus run_err addr err w = (res, w', ms)" "pm' = HandleEvent ms (put_wrapper n w' pm)"
    using assms(2) Some by (auto simp: StartProxy_def put_wrapper_def split: prod.splits)
  have says: "wrapper_says n w (asked n (pm_sent pm))" using saysD [OF assms(1) Some] .
  consider "ms = []" "wrapper_says n w' (asked n (pm_sent pm))"
    | "ms = [SendCloseProxy n]" "wrapper_says n w' (Some (SendCloseProxy n))"
    using s(1) says
    by (auto simp: SetRunningStatus_def pxy_Run_def send_close_def start_msg_of_def wrapper_says_def Let_def
        split: if_splits option.splits)
  then show ?thesis
    using pm_inv_quiet [OF assms(1), of n w'] pm_inv_close [OF assms(1), of "Some w'" n]
    by cases (simp_all add: s(2) put_wrapper_def)
qed


lemma stop_proxy_inv:
  assumes "pm_inv pm" and "stop_proxy n pm = Some pm'"
  shows "pm_inv pm' \<and> pm_proxies pm' = (pm_proxies pm)(n := None)"
proof (cases "pm_proxies pm n")
  case None
  then show ?thesis using assms by (auto simp: stop_proxy_def)
next
  case (Some w)
  then have "w_Name w = n" using saysD [OF assms(1)] by (auto simp: wrapper_says_def)
  then have "pm' = HandleEvent [SendCloseProxy n] (pm\<lparr>pm_proxies := (pm_proxies pm)(n := None)\<rparr>)"
    using assms(2) Some by (auto simp: stop_proxy_def wrapper_Stop_def send_close_def split: if_splits)
  then show ?thesis using pm_inv_close [OF assms(1), of None n] by (simp add: HandleEvent_def)
qed

lemma reload_del_inv: "pm_inv pm \<Longrightarrow> reload_del cfgs names pm = Some pm' \<Longrightarrow> pm_inv pm'"
proof (induction names arbitrary: pm)
  case (Cons n names)
  then show ?case by (auto split: option.splits if_splits dest: stop_proxy_inv)
qed simp

lemma NewWrapper_says:
  "bc_ProxyName (GetBaseConfig cfg) = n \<Longrightarrow> a \<in> {None, Some (SendCloseProxy n)} \<Longrightarrow> wrapper_says n (NewWrapper cfg) a"
  by (auto simp: wrapper_says_def NewWrapper_def Let_def)

lemma reload_add_inv: "keyed cfgs \<Longrightarrow> pm_inv pm \<Longrightarrow> pm_inv (reload_add cfgs names pm)"
proof (induction names arbitrary: pm)
  case (Cons n names)
  have "pm_inv (put_wrapper n (NewWrapper c) pm)" if "cfgs n = Some c" "pm_proxies pm n = None" for c
  proof -
    have "bc_ProxyName (GetBaseConfig c) = n" using that Cons.prems(1) by (simp add: keyed_def)
    moreover have "asked n (pm_sent pm) \<in> {None, Some (SendCloseProxy n)}"
      using slotD [OF Cons.prems(2), of n] that(2) by simp
    ultimately have "wrapper_says n (NewWrapper c) (asked n (pm_sent pm))" by (rule NewWrapper_says)
    then show ?thesis using pm_inv_quiet [OF Cons.prems(2)] by simp
  qed
  then show ?case using Cons by (auto simp: put_wrapper_def split: option.splits)
qed simp

lemma stop_all_inv:
  "pm_inv pm \<Longrightarrow> stop_all names pm = Some pm' \<Longrightarrow> pm_inv pm' \<and> pm_proxies pm' = (pm_proxies pm) |` (- set names)"
proof (induction names arbitrary: pm)
  case (Cons n names)
  from Cons.prems(2) obtain pm1 where pm1: "stop_proxy n pm = Some pm1" "stop_all names pm1 = Some pm'"
    by (auto split: option.splits)
  have "pm_inv pm1" "pm_proxies pm1 = (pm_proxies pm)(n := None)" using stop_proxy_inv [OF Cons.prems(1) pm1(1)] by auto
  with Cons.IH [OF _ pm1(2)] show ?case by (auto simp: restrict_map_def fun_eq_iff)
qed (simp add: restrict_map_def)

lemma own_step_inv [inv_intros]: "own_step pm pm' \<Longrightarrow> pm_inv pm \<Longrightarrow> pm_inv pm'"
proof (induction rule: own_step.induct)
  case (check pm n w now w' ms)
  then show ?case by (simp add: check_round_inv)
next
  case (health pm n w cb)
  then show ?case
    using saysD [of pm n w] by (intro pm_inv_quiet) (auto simp: wrapper_says_def on_health_def start_msg_of_def)
next
  case (reload cfgs old pm new pm')
  then show ?case by (auto simp: Reload_def intro: reload_add_inv reload_del_inv)
next
  case (close order pm pm')
  then obtain pm1 where pm1: "stop_all order pm = Some pm1" "pm' = pm1\<lparr>pm_proxies := Map.empty\<rparr>"
    by (auto simp: pm_Close_def)
  with stop_all_inv [OF close.prems pm1(1)] close(1) have "pm_inv pm1" "pm_proxies pm1 = Map.empty"
    by (auto simp: restrict_map_def fun_eq_iff domIff)
  then show ?case by (simp add: pm1(2) pm_inv_def)
qed

lemma pm_reachable_inv: "pm_reachable pm \<Longrightarrow> pm_inv pm"
proof (induction rule: pm_reachable.induct)
  case start
  show ?case by (simp add: NewProxyManager_def pm_inv_def)
qed (rule own_step_inv StartProxy_inv; assumption)+

text \<open>
  (C9) The phase of a proxy and the messages agree, over any number of reloads: a proxy that
  runs or waits was last requested with its current configuration; one that is new, was taken
  down by its health check, or is no longer configured, was closed after its last request,
  if there was one; and a proxy is never requested with another configuration without
  having been closed. The phase of a failed start is dead code, and no proxy is stopped twice.
\<close>

theorem requests_match_phases:
  assumes "pm_reachable pm"
  shows "steady n (pm_sent pm) \<and>
    (case pm_proxies pm n of
       None \<Rightarrow> asked n (pm_sent pm) \<in> {None, Some (SendCloseProxy n)}
     | Some w \<Rightarrow> w_Name w = n \<and> w_Phase w \<noteq> PhaseStartErr \<and> \<not> w_stopped w \<and>
         (w_Phase w \<in> {PhaseNew, PhaseCheckFailed} \<longrightarrow> asked n (pm_sent pm) \<in> {None, Some (SendCloseProxy n)}) \<and>
         (w_Phase w \<in> {PhaseWaitStart, PhaseRunning} \<longrightarrow>
            asked n (pm_sent pm) = Some (SendNewProxy (MarshalToMsg (w_Cfg w) zero_msg))))"
proof -
  have "pm_inv pm" using pm_reachable_inv [OF assms] .
  then have "steady n (pm_sent pm)" "slot_says n (pm_proxies pm n) (asked n (pm_sent pm))" by (simp_all add: pm_inv_def)
  then show ?thesis
    by (cases "pm_proxies pm n") (auto simp: wrapper_says_def start_msg_of_def)
qed

definition demo_pm0 :: proxy_manager where
  "demo_pm0 = \<lparr>pm_proxies = [''web'' \<mapsto> NewWrapper demo_http], pm_sent = []\<rparr>"

definition demo_pm1 :: proxy_manager where
  "demo_pm1 = HandleEvent [SendNewProxy (MarshalToMsg demo_http zero_msg)] (put_wrapper ''web'' demo_waiting demo_pm0)"

lemma demo_http_name: "bc_ProxyName (GetBaseConfig demo_http) = ''web''"
  by (simp add: demo_http_def)

lemma demo_pm1_reachable: "pm_reachable demo_pm1"
proof -
  have "own_step NewProxyManager demo_pm0"
    by (rule own_step.reload [of "[''web'' \<mapsto> demo_http]" "[]" _ "[''web'']"])
      (simp_all add: keyed_def demo_http_name NewProxyManager_def Reload_def demo_pm0_def)
  then have "pm_reachable demo_pm0" by (rule pm_reachable.own [OF pm_reachable.start])
  moreover have "own_step demo_pm0 demo_pm1"
    unfolding demo_pm1_def by (rule own_step.check [OF _ demo_check_round]) (simp add: demo_pm0_def)
  ultimately show ?thesis by (rule pm_reachable.own)
qed

theorem requests_match_phases_witness:
  "asked ''web'' (pm_sent demo_pm1) = Some (SendNewProxy (MarshalToMsg demo_http zero_msg))"
  using requests_match_phases [OF demo_pm1_reachable, of "''web''"]
  by (simp add: demo_pm1_def put_wrapper_def HandleEvent_def demo_waiting_def NewWrapper_def Let_def split: option.splits)

end
