(* ===== verification/Frp_Manager.thy ===== *)
theory Frp_Manager
  imports Frp_Sessions
begin

text \<open>
  The loop that handles the messages of one client, \<open>manager\<close> of \<open>server/control.go\<close>, with the
  heartbeat that drops silent clients, and the first message of a connection,
  \<open>handleConnection\<close> of \<open>server/service.go\<close>. A run of the loop is driven by the list of what its
  \<open>select\<close> receives.
\<close>

section \<open>The loop\<close>

text \<open>
  What the loop receives: a tick of the heartbeat with the time, a message with what its
  handler uses of the environment, or the closing of the channel of messages.
\<close>

datatype manager_event =
    Heartbeat int
  | RecvNewProxy "new_proxy_msg \<Rightarrow> string + new_proxy_msg" api_env run_env new_proxy_msg
  | RecvNatHole
  | RecvCloseProxy int string
  | RecvPing "auth_msg \<Rightarrow> string + auth_msg" int auth_msg
  | ReadChClosed

text \<open>Without the ticker its channel is nil, and the loop never receives from it.\<close>

definition heartbeat_on :: "server_conf \<Rightarrow> bool" where
  "heartbeat_on sc \<longleftrightarrow> \<not> sc_TCPMux sc \<and> sc_HeartbeatTimeout sc > 0"

definition heartbeat_expired :: "server_conf \<Rightarrow> int \<Rightarrow> int \<Rightarrow> bool" where
  "heartbeat_expired sc lastPing now \<longleftrightarrow> now - lastPing > sc_HeartbeatTimeout sc * 1000000000"

record manager_env =
  me_pf :: parse_float
  me_md5 :: digest
  me_register_text :: "register_error \<Rightarrow> string"
  me_auth_text :: "auth_error \<Rightarrow> string"

text \<open>One round: the flag is False if the loop returns.\<close>

fun manager_step :: "manager_env \<Rightarrow> nat \<Rightarrow> manager_event \<Rightarrow> server \<Rightarrow> bool \<times> server" where
  "manager_step me cid (Heartbeat now) sv =
     (\<not> (heartbeat_on (sv_cfg sv) \<and> heartbeat_expired (sv_cfg sv) (ct_lastPing (sv_ctls sv cid)) now), sv)"
| "manager_step me cid (RecvNewProxy plugin ae en m) sv =
     (True, manager_NewProxy (me_pf me) (me_register_text me) plugin ae en cid m sv)"
| "manager_step me cid RecvNatHole sv = (True, sv)"
| "manager_step me cid (RecvCloseProxy now name) sv = (True, CloseProxy now cid name sv)"
| "manager_step me cid (RecvPing plugin now m) sv = manager_Ping (me_md5 me) (me_auth_text me) plugin now cid m sv"
| "manager_step me cid ReadChClosed sv = (False, sv)"

text \<open>When the loop returns, its deferred call starts the shutdown of the control.\<close>

fun manager_loop :: "manager_env \<Rightarrow> nat \<Rightarrow> manager_event list \<Rightarrow> server \<Rightarrow> bool \<times> server" where
  "manager_loop me cid [] sv = (True, sv)"
| "manager_loop me cid (ev # evs) sv =
     (let (go, sv') = manager_step me cid ev sv
      in if go then manager_loop me cid evs sv' else (False, upd_ctl cid ctl_Close sv'))"

section \<open>The first message of a connection\<close>

datatype first_msg =
    NoMsg
  | LoginMsg login_msg
  | NewWorkConnMsg string auth_msg
  | NewVisitorConnMsg string string int string bool
  | OtherMsg

datatype first_reply =
    LoginRespError string
  | NewVisitorConnResp string string

record conn_env =
  ce_md5 :: digest
  ce_rand :: "nat \<Rightarrow> nat list option"
  ce_login_plugin :: "login_msg \<Rightarrow> string + login_msg"
  ce_work_plugin :: "auth_msg \<Rightarrow> auth_msg option"
  ce_api :: api_env
  ce_now :: int
  ce_order :: "string list"
  ce_enc_ok :: bool
  ce_put_ok :: bool
  ce_login_text :: "login_error \<Rightarrow> string"
  ce_visitor_text :: "visitor_conn_error \<Rightarrow> string"

text \<open>
  The result: the answer written by \<open>handleConnection\<close> itself, whether the connection is closed,
  and the server. The success of a login is answered by the control.
\<close>

definition handleConnection :: "conn_env \<Rightarrow> nat \<Rightarrow> first_msg \<Rightarrow> server \<Rightarrow> first_reply option \<times> bool \<times> server" where
  "handleConnection ce conn msg sv =
     (let detailed = sc_DetailedErrorsToClient (sv_cfg sv);
          login_failed = (\<lambda>e. Some (LoginRespError (GenerateResponseErrorString ''register control error'' e detailed)))
      in case msg of
           NoMsg \<Rightarrow> (None, True, sv)
         | LoginMsg m \<Rightarrow>
             (case ce_login_plugin ce m of
                Inl e \<Rightarrow> (login_failed e, True, sv)
              | Inr m' \<Rightarrow>
                  (case RegisterControl (ce_md5 ce) (ce_rand ce) (ce_api ce) (ce_now ce) (ce_order ce) m' sv of
                     (Inl e, sv') \<Rightarrow> (login_failed (ce_login_text ce e), True, sv')
                   | (Inr _, sv') \<Rightarrow> (None, False, sv')))
         | NewWorkConnMsg runID m \<Rightarrow>
             (case svc_RegisterWorkConn (ce_md5 ce) (ce_work_plugin ce) conn runID m sv of
                (ok, sv') \<Rightarrow> (None, \<not> ok, sv'))
         | NewVisitorConnMsg runID name timestamp signKey useEncryption \<Rightarrow>
             (case RegisterVisitorConn (ce_md5 ce) (ce_enc_ok ce) (ce_put_ok ce) runID name timestamp signKey useEncryption sv of
                Inl e \<Rightarrow>
                  (Some (NewVisitorConnResp name
                     (GenerateResponseErrorString ''register visitor conn error'' (ce_visitor_text ce e) detailed)), True, sv)
              | Inr _ \<Rightarrow> (Some (NewVisitorConnResp name ''''), False, sv))
         | OtherMsg \<Rightarrow> (None, True, sv))"

section \<open>What a round keeps\<close>

text \<open>
  What the loop of a control relies on: the settings, and that nothing but a ping sets the
  time of the last ping.
\<close>

definition keeps :: "nat \<Rightarrow> server \<Rightarrow> server \<Rightarrow> bool" where
  "keeps cid sv' sv \<longleftrightarrow> sv_cfg sv' = sv_cfg sv \<and> sv_auth sv' = sv_auth sv \<and> sv_ctl_next sv' = sv_ctl_next sv \<and>
     ct_lastPing (sv_ctls sv' cid) = ct_lastPing (sv_ctls sv cid) \<and>
     ct_stopped (sv_ctls sv' cid) = ct_stopped (sv_ctls sv cid) \<and>
     (ct_running (sv_ctls sv cid) = None \<longrightarrow> ct_running (sv_ctls sv' cid) = None)"

lemma keeps_refl [simp]: "keeps cid sv sv" by (simp add: keeps_def)

lemma send_lastPing [simp]: "ct_lastPing (send m c) = ct_lastPing c" "ct_lastPing (add_ports sc k c) = ct_lastPing c"
  by (simp_all add: send_def add_ports_def)

lemma sv_auth_upd [simp]: "sv_auth (upd_ctl cid f sv) = sv_auth sv" "sv_auth (log_event e sv) = sv_auth sv"
  by (simp_all add: upd_ctl_def log_event_def)

lemma keeps_send: "keeps cid sv' sv \<Longrightarrow> keeps cid (upd_ctl cid (send m) sv') sv"
  by (simp add: keeps_def)

lemma keeps_CloseProxy: "keeps cid (CloseProxy now cid name sv) sv"
  by (auto simp: keeps_def CloseProxy_def close_proxy_def Let_def split: option.splits)

lemma RegisterProxy_run_lastPing:
  "sv_cfg (snd (RegisterProxy_run pf ae en cid m sv)) = sv_cfg sv \<and>
   sv_auth (snd (RegisterProxy_run pf ae en cid m sv)) = sv_auth sv \<and>
   sv_ctl_next (snd (RegisterProxy_run pf ae en cid m sv)) = sv_ctl_next sv \<and>
   ct_lastPing (sv_ctls (snd (RegisterProxy_run pf ae en cid m sv)) cid) = ct_lastPing (sv_ctls sv cid) \<and>
   ct_stopped (sv_ctls (snd (RegisterProxy_run pf ae en cid m sv)) cid) = ct_stopped (sv_ctls sv cid)"
  by (auto simp: RegisterProxy_run_def Let_def split: option.splits sum.splits prod.splits)

lemma RegisterProxy_add_lastPing:
  "sv_cfg (snd (RegisterProxy_add now cid addr sv)) = sv_cfg sv \<and>
   sv_auth (snd (RegisterProxy_add now cid addr sv)) = sv_auth sv \<and>
   sv_ctl_next (snd (RegisterProxy_add now cid addr sv)) = sv_ctl_next sv \<and>
   ct_lastPing (sv_ctls (snd (RegisterProxy_add now cid addr sv)) cid) = ct_lastPing (sv_ctls sv cid) \<and>
   ct_stopped (sv_ctls (snd (RegisterProxy_add now cid addr sv)) cid) = ct_stopped (sv_ctls sv cid) \<and>
   ct_running (sv_ctls (snd (RegisterProxy_add now cid addr sv)) cid) = None"
  by (auto simp: RegisterProxy_add_def Let_def split: option.splits)

lemma RegisterProxy_run_idle:
  assumes "RegisterProxy_run pf ae en cid m sv = (Inl e, sv')"
  shows "ct_running (sv_ctls sv' cid) = ct_running (sv_ctls sv cid)"
  using RegisterProxy_run_Inl [OF assms] by auto

lemma keeps_RegisterProxy: "keeps cid (snd (RegisterProxy pf ae en cid m sv)) sv"
proof (cases "RegisterProxy_run pf ae en cid m sv")
  case (Pair res sv1)
  show ?thesis
    using Pair RegisterProxy_run_lastPing [of pf ae en cid m sv] RegisterProxy_run_idle [of pf ae en cid m sv _ sv1]
      RegisterProxy_add_lastPing [of "en_now en" cid _ sv1]
    by (cases res) (auto simp: RegisterProxy_def keeps_def)
qed

lemma keeps_NewProxy: "keeps cid (manager_NewProxy pf et plugin ae en cid m sv) sv"
proof -
  have "keeps cid sv' sv" if "RegisterProxy pf ae en cid m' sv = (r, sv')" for m' r sv'
    using keeps_RegisterProxy [of cid pf ae en m' sv] that by simp
  then show ?thesis
    by (auto simp: manager_NewProxy_def Let_def keeps_def split: sum.splits prod.splits)
qed

text \<open>A round that is not a ping and does not end the loop.\<close>

definition is_ping :: "manager_event \<Rightarrow> bool" where
  "is_ping ev = (case ev of RecvPing _ _ _ \<Rightarrow> True | _ \<Rightarrow> False)"

lemma manager_step_keeps: "\<not> is_ping ev \<Longrightarrow> keeps cid (snd (manager_step me cid ev sv)) sv"
  by (cases ev) (simp_all add: is_ping_def keeps_NewProxy keeps_CloseProxy)

lemma manager_step_inv:
  assumes "server_inv sc sv" "live sv cid" "ct_running (sv_ctls sv cid) = None"
  shows "server_inv sc (snd (manager_step me cid ev sv)) \<and> live (snd (manager_step me cid ev sv)) cid \<and>
    ct_running (sv_ctls (snd (manager_step me cid ev sv)) cid) = None"
proof -
  have reg: "server_inv sc (snd (RegisterProxy pf ae en cid m sv))" for pf ae en m
  proof (cases "RegisterProxy_run pf ae en cid m sv")
    case (Pair res sv1)
    have "server_inv sc sv1" using RegisterProxy_run_inv [OF assms, of pf ae en m] Pair by simp
    moreover have "live sv1 cid" using RegisterProxy_run_lastPing [of pf ae en cid m sv] Pair assms(2) by (simp add: live_def)
    ultimately show ?thesis using Pair by (cases res) (simp_all add: RegisterProxy_def RegisterProxy_add_inv)
  qed
  have new: "server_inv sc (manager_NewProxy pf et plugin ae en cid m sv)" for pf et plugin ae en m
  proof -
    have "server_inv sc sv'" if "RegisterProxy pf ae en cid m' sv = (r, sv')" for m' r sv'
      using reg [of pf ae en m'] that by simp
    then show ?thesis
      using assms(1) by (auto simp: manager_NewProxy_def Let_def send_books split: sum.splits prod.splits
          intro!: server_inv_books log_event_inv)
  qed
  have lv: "live sv' cid \<and> ct_running (sv_ctls sv' cid) = None" if "keeps cid sv' sv" for sv'
    using that assms(2,3) by (simp add: keeps_def live_def)
  have ping: "live sv' cid \<and> ct_running (sv_ctls sv' cid) = None"
    if "sv' = snd (manager_Ping md5 et plugin now cid m sv)" for sv' md5 et plugin now m
    using that assms(2,3) by (auto simp: manager_Ping_def Let_def live_def split: sum.splits option.splits)
  show ?thesis
    using assms(1) new manager_Ping_inv CloseProxy_inv [OF assms(1,2)] lv [OF keeps_NewProxy] lv [OF keeps_CloseProxy]
      assms ping by (cases ev) auto
qed

section \<open>Properties\<close>

text \<open>
  The contract of the loop, over the times and the pings alone: it goes on as long as no tick
  finds the last ping too old, every ping is accepted by the plugins and carries a valid
  key, and the channel is open.
\<close>

fun survives :: "server_conf \<Rightarrow> (auth_msg \<Rightarrow> bool) \<Rightarrow> int \<Rightarrow> manager_event list \<Rightarrow> bool" where
  "survives sc valid lastPing [] = True"
| "survives sc valid lastPing (Heartbeat now # evs) =
     ((heartbeat_on sc \<longrightarrow> now \<le> lastPing + sc_HeartbeatTimeout sc * 1000000000) \<and> survives sc valid lastPing evs)"
| "survives sc valid lastPing (RecvPing plugin now m # evs) =
     ((\<exists>m'. plugin m = Inr m' \<and> valid m') \<and> survives sc valid now evs)"
| "survives sc valid lastPing (ReadChClosed # evs) = False"
| "survives sc valid lastPing (_ # evs) = survives sc valid lastPing evs"

lemma survives_cong:
  assumes "keeps cid sv' sv"
  shows "survives (sv_cfg sv') (\<lambda>m. VerifyPing md5 (sv_auth sv') m = None) (ct_lastPing (sv_ctls sv' cid)) evs =
    survives (sv_cfg sv) (\<lambda>m. VerifyPing md5 (sv_auth sv) m = None) (ct_lastPing (sv_ctls sv cid)) evs"
  using assms by (simp add: keeps_def)

lemma manager_loop_survives:
  "fst (manager_loop me cid evs sv) =
     survives (sv_cfg sv) (\<lambda>m. VerifyPing (me_md5 me) (sv_auth sv) m = None) (ct_lastPing (sv_ctls sv cid)) evs"
proof (induction evs arbitrary: sv)
  case (Cons ev evs)
  show ?case
  proof (cases "is_ping ev")
    case False
    note k = survives_cong [OF manager_step_keeps [OF False, of cid me sv], of "me_md5 me" evs]
    show ?thesis
      using Cons.IH [of "snd (manager_step me cid ev sv)"] k False
      by (cases ev) (auto simp: Let_def heartbeat_expired_def is_ping_def)
  next
    case True
    then obtain plugin now m where "ev = RecvPing plugin now m" by (cases ev) (auto simp: is_ping_def)
    then show ?thesis
      using Cons.IH by (auto simp: manager_Ping_def Let_def split: sum.splits option.splits)
  qed
qed simp

text \<open>
  (C30) The loop of a control keeps running exactly as its contract says: proxies that start or
  fail to start, closings and messages about holes never end it; an expired heartbeat, a
  rejected ping and a closed channel always do.
\<close>

theorem manager_contract:
  "fst (manager_loop me cid evs sv) \<longleftrightarrow>
     survives (sv_cfg sv) (\<lambda>m. VerifyPing (me_md5 me) (sv_auth sv) m = None) (ct_lastPing (sv_ctls sv cid)) evs"
  by (rule manager_loop_survives)

lemma survives_silent:
  assumes "heartbeat_on sc" and "t > lastPing + sc_HeartbeatTimeout sc * 1000000000" and "\<forall>ev \<in> set pre. \<not> is_ping ev"
  shows "\<not> survives sc valid lastPing (pre @ Heartbeat t # post)"
  using assms(3)
proof (induction pre)
  case Nil
  show ?case using assms(1,2) by simp
next
  case (Cons ev pre)
  then show ?case by (cases ev) (auto simp: is_ping_def)
qed

lemma manager_loop_inv:
  assumes "server_inv sc sv" "live sv cid" "ct_running (sv_ctls sv cid) = None"
  shows "server_inv sc (snd (manager_loop me cid evs sv)) \<and> live (snd (manager_loop me cid evs sv)) cid \<and>
    ct_running (sv_ctls (snd (manager_loop me cid evs sv)) cid) = None"
  using assms
proof (induction evs arbitrary: sv)
  case (Cons ev evs)
  obtain go sv1 where st: "manager_step me cid ev sv = (go, sv1)" by force
  have 1: "server_inv sc sv1" "live sv1 cid" "ct_running (sv_ctls sv1 cid) = None"
    using manager_step_inv [OF Cons.prems, of me ev] st by simp_all
  have "server_inv sc (upd_ctl cid ctl_Close sv1)"
    using 1(1) by (intro server_inv_books) (simp_all add: same_books_def ctl_Close_def)
  then show ?case
    using Cons.IH [OF 1] st 1 by (auto simp: live_def ctl_Close_def)
qed simp

lemma manager_loop_shutdown: "\<not> fst (manager_loop me cid evs sv) \<Longrightarrow> ct_shutdown (sv_ctls (snd (manager_loop me cid evs sv)) cid)"
  by (induction evs arbitrary: sv) (auto simp: Let_def ctl_Close_def split: prod.splits if_splits)

text \<open>
  (C29) A client that falls silent is dropped: once a tick comes later than the timeout after the
  last ping, with no ping in between, the loop has ended, the shutdown of the control has
  started, and when it is stopped every name its proxies had is free again.
\<close>

theorem silent_client_dropped:
  assumes "server_reachable sc allow sv" and "live sv cid" and "ct_running (sv_ctls sv cid) = None"
    and "heartbeat_on sc" and "t > ct_lastPing (sv_ctls sv cid) + sc_HeartbeatTimeout sc * 1000000000"
    and "\<forall>ev \<in> set pre. \<not> is_ping ev"
  shows "let (go, sv') = manager_loop me cid (pre @ Heartbeat t # post) sv in
    \<not> go \<and> ct_shutdown (sv_ctls sv' cid) \<and>
    (\<forall>order n. set order = dom (ct_proxies (sv_ctls sv' cid)) \<and> n \<in> set order \<longrightarrow>
       sv_pxys sv' n \<noteq> None \<and> sv_pxys (stoper now order cid sv') n = None)"
proof -
  let ?evs = "pre @ Heartbeat t # post"
  obtain go sv' where r: "manager_loop me cid ?evs sv = (go, sv')" by force
  note inv = server_reachable_inv [OF assms(1)]
  have "\<not> go"
    using manager_loop_survives [of me cid ?evs sv] survives_silent [OF assms(4-6)] r server_invD(1) [OF inv] by simp
  moreover have "ct_shutdown (sv_ctls sv' cid)"
    using manager_loop_shutdown [of me cid ?evs sv] r calculation by simp
  moreover have i: "server_inv sc sv'" "live sv' cid"
    using manager_loop_inv [OF inv assms(2,3), of me ?evs] r by simp_all
  note reg = server_invD(3) [OF i]
  have "sv_pxys sv' n \<noteq> None \<and> sv_pxys (stoper now order cid sv') n = None"
    if "set order = dom (ct_proxies (sv_ctls sv' cid))" "n \<in> set order" for order n
    using stoper_facts(6) [OF reg that(1), of now n] reg that by (auto simp: registered_def)
  ultimately show ?thesis unfolding r by (simp only: Let_def prod.case) blast
qed

definition demo_me :: manager_env where
  "demo_me = \<lparr>me_pf = (\<lambda>_ _. None), me_md5 = map of_char, me_register_text = (\<lambda>_. ''''), me_auth_text = (\<lambda>_. '''')\<rparr>"

lemma demo_sv3_idle: "ct_running (sv_ctls demo_sv3 0) = None" "ct_lastPing (sv_ctls demo_sv3 0) = 0"
proof -
  have "ct_lastPing (sv_ctls demo_sv1 0) = 0" by (simp add: demo_sv1_live(3) demo_started_def demo_control_def)
  then show "ct_running (sv_ctls demo_sv3 0) = None" "ct_lastPing (sv_ctls demo_sv3 0) = 0"
    using RegisterProxy_add_lastPing [of 0 0 "''''" demo_sv2]
      RegisterProxy_run_lastPing [of "\<lambda>_ _. None" demo_api "demo_env True" 0 demo_msg demo_sv1]
    by (simp_all add: demo_sv3_def demo_sv2_def)
qed

theorem silent_client_dropped_witness:
  "\<not> fst (manager_loop demo_me 0 [RecvCloseProxy 0 ''web'', Heartbeat 90000000001] demo_sv3)"
proof -
  have d: "heartbeat_on demo_server" "ct_lastPing (sv_ctls demo_sv3 0) + sc_HeartbeatTimeout demo_server * 1000000000 < 90000000001"
    "\<forall>ev \<in> set [RecvCloseProxy 0 ''web'']. \<not> is_ping ev"
    by (simp_all add: demo_sv3_idle heartbeat_on_def demo_server_def is_ping_def)
  show ?thesis
    using silent_client_dropped [OF demo_sv3_reachable demo_sv3_eq(3) demo_sv3_idle(1) d, of demo_me "[]" 0]
    by (simp del: manager_loop.simps add: case_prod_beta Let_def)
qed

end
