(* ===== verification/Frp_Link.thy ===== *)
theory Frp_Link
  imports Frp_ClientRun Frp_Manager
begin

text \<open>
  A client and its control on the server together. The requests of the client's manager of
  proxies reach the server in the order in which they were sent (\<open>writer\<close> of
  \<open>client/control.go\<close>, \<open>reader\<close> of \<open>server/control.go\<close>), the answers reach the client in the
  order of the control's channel (\<open>writer\<close> of \<open>server/control.go\<close>, \<open>reader\<close> of
  \<open>client/control.go\<close>); both are taken up at any later time. In between the client reloads,
  checks the health of its services and repeats requests, and the server serves others.
\<close>

section \<open>The joint state\<close>

text \<open>
  \<open>lk_taken\<close> counts the requests that the server has handled, \<open>lk_got\<close> the answers that the
  client has handled.
\<close>

record link =
  lk_pm :: proxy_manager
  lk_taken :: nat
  lk_got :: nat
  lk_sv :: server

text \<open>
  What the server's loop receives for a request. A plugin of the server may refuse a proxy but not
  change it.
\<close>

fun request_event :: "client_msg \<Rightarrow> manager_event \<Rightarrow> bool" where
  "request_event (SendNewProxy m) (RecvNewProxy plugin ae en m') \<longleftrightarrow> m' = m \<and> (\<forall>m''. plugin m = Inr m'' \<longrightarrow> m'' = m)"
| "request_event (SendCloseProxy n) (RecvCloseProxy now n') \<longleftrightarrow> n' = n"
| "request_event _ _ \<longleftrightarrow> False"

fun take_answer :: "string option \<Rightarrow> ctl_msg \<Rightarrow> proxy_manager \<Rightarrow> proxy_manager" where
  "take_answer run_err (NewProxyResp name addr err) pm = snd (StartProxy run_err name addr err pm)"
| "take_answer run_err _ pm = pm"

text \<open>
  What else happens on the server: other clients, the dashboard, pings and work connections. None
  of it adds a proxy to this control.
\<close>

definition others_step :: "nat \<Rightarrow> server \<Rightarrow> server \<Rightarrow> bool" where
  "others_step cid sv sv' \<longleftrightarrow> server_step sv sv' \<and> sv_cfg sv' = sv_cfg sv \<and>
     ct_running (sv_ctls sv' cid) = ct_running (sv_ctls sv cid) \<and>
     ct_proxies (sv_ctls sv' cid) \<subseteq>\<^sub>m ct_proxies (sv_ctls sv cid)"

inductive link_reachable :: "manager_env \<Rightarrow> nat \<Rightarrow> link \<Rightarrow> bool" for me cid where
  start: "live sv cid \<Longrightarrow> ct_running (sv_ctls sv cid) = None \<Longrightarrow> ct_proxies (sv_ctls sv cid) = Map.empty \<Longrightarrow>
    link_reachable me cid \<lparr>lk_pm = NewProxyManager, lk_taken = 0, lk_got = 0, lk_sv = sv\<rparr>"
| client: "link_reachable me cid lk \<Longrightarrow> own_step (lk_pm lk) pm' \<Longrightarrow> link_reachable me cid (lk\<lparr>lk_pm := pm'\<rparr>)"
| request: "link_reachable me cid lk \<Longrightarrow> lk_taken lk < length (pm_sent (lk_pm lk)) \<Longrightarrow>
    request_event (pm_sent (lk_pm lk) ! lk_taken lk) ev \<Longrightarrow> manager_step me cid ev (lk_sv lk) = (go, sv') \<Longrightarrow>
    link_reachable me cid (lk\<lparr>lk_taken := Suc (lk_taken lk), lk_sv := sv'\<rparr>)"
| answer: "link_reachable me cid lk \<Longrightarrow> lk_got lk < length (ct_sendCh (sv_ctls (lk_sv lk) cid)) \<Longrightarrow>
    link_reachable me cid
      (lk\<lparr>lk_pm := take_answer run_err (ct_sendCh (sv_ctls (lk_sv lk) cid) ! lk_got lk) (lk_pm lk),
          lk_got := Suc (lk_got lk)\<rparr>)"
| others: "link_reachable me cid lk \<Longrightarrow> others_step cid (lk_sv lk) sv' \<Longrightarrow> link_reachable me cid (lk\<lparr>lk_sv := sv'\<rparr>)"

section \<open>What the server holds\<close>

text \<open>A proxy that runs has the real port in its configuration.\<close>

fun without_port :: "proxy_conf \<Rightarrow> proxy_conf" where
  "without_port (TCPProxyConf b port) = TCPProxyConf b 0"
| "without_port (UDPProxyConf b port) = UDPProxyConf b 0"
| "without_port c = c"

definition serves :: "parse_float \<Rightarrow> server_conf \<Rightarrow> proxy_obj \<Rightarrow> new_proxy_msg \<Rightarrow> bool" where
  "serves pf sc px m \<longleftrightarrow> (\<exists>c. NewProxyConfFromMsg pf sc m = Inr c \<and> without_port (px_cfg px) = without_port c)"

lemma proxy_Run_conf:
  "proxy_Run sc en re px = (Inr (addr, px'), re') \<Longrightarrow> without_port (px_cfg px') = without_port (px_cfg px)"
  by (cases "px_cfg px")
    (auto simp: proxy_Run_def TCPProxy_Run_def UDPProxy_Run_def HTTPProxy_Run_def HTTPSProxy_Run_def TCPMuxProxy_Run_def
      STCPProxy_Run_def XTCPProxy_Run_def Let_def split: if_splits prod.splits sum.splits option.splits bool.splits)

lemma RegisterProxy_Inl_proxies:
  assumes "RegisterProxy pf ae en cid m sv = (Inl e, sv')" and "ct_running (sv_ctls sv cid) = None"
  shows "sv_ctls sv' = sv_ctls sv \<and> sv_cfg sv' = sv_cfg sv"
  using RegisterProxy_run_Inl [OF RegisterProxy_Inl [OF assms]] by auto

text \<open>The effect of a request on the proxies of the control.\<close>

lemma manager_NewProxy_effect:
  assumes "ct_running (sv_ctls sv cid) = None" and "\<forall>m''. plugin m = Inr m'' \<longrightarrow> m'' = m"
    and "sv' = manager_NewProxy pf et plugin ae en cid m sv"
  shows "sv_cfg sv' = sv_cfg sv \<and> ct_running (sv_ctls sv' cid) = None \<and>
    (ct_proxies (sv_ctls sv' cid) = ct_proxies (sv_ctls sv cid) \<or>
     (\<exists>px. ct_proxies (sv_ctls sv' cid) = (ct_proxies (sv_ctls sv cid))(np_ProxyName m \<mapsto> px) \<and> serves pf (sv_cfg sv) px m))"
proof (cases "plugin m")
  case (Inl e)
  then show ?thesis using assms(1,3) by (simp add: manager_NewProxy_def Let_def)
next
  case (Inr m'')
  then have m: "plugin m = Inr m" using assms(2) by simp
  obtain r sv1 where reg: "RegisterProxy pf ae en cid m sv = (r, sv1)" by force
  show ?thesis
  proof (cases r)
    case (Inl e)
    then show ?thesis
      using RegisterProxy_Inl_proxies [of pf ae en cid m sv e sv1] reg m assms(1,3)
      by (simp add: manager_NewProxy_def Let_def)
  next
    case (Inr addr)
    from reg Inr have "RegisterProxy pf ae en cid m sv = (Inr addr, sv1)" by simp
    from RegisterProxy_Inr [OF this assms(1)] obtain cfg px rc where
      p: "NewProxyConfFromMsg pf (sv_cfg sv) m = Inr cfg"
      "proxy_Run (sv_cfg sv) en (sv_rc sv) (NewProxy (lm_User (ct_loginMsg (sv_ctls sv cid))) cfg) = (Inr (addr, px), rc)"
      and s1: "sv1 = upd_ctl cid (\<lambda>c. add_ports (sv_cfg sv) (px_usedPortsNum px) c\<lparr>ct_proxies := (ct_proxies c)(np_ProxyName m \<mapsto> px)\<rparr>)
      (sv\<lparr>sv_rc := rc, sv_pxys := (sv_pxys sv)(np_ProxyName m \<mapsto> px)\<rparr>)" .
    have "without_port (px_cfg px) = without_port cfg"
      using proxy_Run_conf [OF p(2)] by (simp add: NewProxy_def)
    then have "serves pf (sv_cfg sv) px m" using p(1) by (auto simp: serves_def)
    then show ?thesis
      using reg Inr m assms(1,3) by (auto simp: manager_NewProxy_def Let_def s1)
  qed
qed

lemma CloseProxy_effect:
  "sv_cfg (CloseProxy now cid name sv) = sv_cfg sv \<and>
   ct_running (sv_ctls (CloseProxy now cid name sv) cid) = ct_running (sv_ctls sv cid) \<and>
   ct_proxies (sv_ctls (CloseProxy now cid name sv) cid) = (ct_proxies (sv_ctls sv cid))(name := None)"
  by (cases "ct_proxies (sv_ctls sv cid) name") (auto simp: CloseProxy_def close_proxy_def Let_def)


section \<open>The stream of requests\<close>

text \<open>Requests are never taken back.\<close>

lemma HandleEvent_sent: "prefix (pm_sent pm) (pm_sent (HandleEvent ms pm))"
  by (simp add: HandleEvent_def)

lemma stop_proxy_sent: "stop_proxy n pm = Some pm' \<Longrightarrow> prefix (pm_sent pm) (pm_sent pm')"
  by (auto simp: stop_proxy_def HandleEvent_def split: option.splits)

lemma reload_del_sent: "reload_del cfgs names pm = Some pm' \<Longrightarrow> prefix (pm_sent pm) (pm_sent pm')"
proof (induction names arbitrary: pm)
  case (Cons n names)
  then show ?case by (auto split: option.splits if_splits dest!: stop_proxy_sent intro: prefix_order.trans)
qed simp

lemma stop_all_sent: "stop_all names pm = Some pm' \<Longrightarrow> prefix (pm_sent pm) (pm_sent pm')"
proof (induction names arbitrary: pm)
  case (Cons n names)
  then show ?case by (auto split: option.splits dest!: stop_proxy_sent intro: prefix_order.trans)
qed simp

lemma own_step_sent: "own_step pm pm' \<Longrightarrow> prefix (pm_sent pm) (pm_sent pm')"
proof (induction rule: own_step.induct)
  case (check pm n w now w' ms)
  then show ?case by (simp add: HandleEvent_def put_wrapper_def)
next
  case (health pm n w cb)
  then show ?case by (simp add: put_wrapper_def)
next
  case (reload cfgs old pm new pm')
  then show ?case by (auto simp: Reload_def reload_add_spec dest: reload_del_sent)
next
  case (close order pm pm')
  then show ?case by (auto simp: pm_Close_def dest: stop_all_sent)
qed

lemma StartProxy_sent: "prefix (pm_sent pm) (pm_sent (snd (StartProxy run_err n addr err pm)))"
  by (auto simp: StartProxy_def HandleEvent_def split: option.splits prod.splits)

lemma steady_take: "steady n ms \<Longrightarrow> steady n (take k ms)"
  unfolding steady_def
  by (subst (asm) append_take_drop_id [of k ms, symmetric]) (simp add: successively_append_iff del: append_take_drop_id)

section \<open>The interfaces of client and server\<close>

text \<open>
  The client towards the server: a stream of requests that only grows, and asks for a proxy only
  with the configuration it was asked with since it was last closed.
\<close>

locale request_stream =
  fixes inv :: "'c \<Rightarrow> bool" and sent :: "'c \<Rightarrow> client_msg list" and step :: "'c \<Rightarrow> 'c \<Rightarrow> bool"
  assumes step_inv: "inv c \<Longrightarrow> step c c' \<Longrightarrow> inv c'"
    and step_sent: "inv c \<Longrightarrow> step c c' \<Longrightarrow> prefix (sent c) (sent c')"
    and inv_steady: "inv c \<Longrightarrow> steady n (sent c)"
begin

lemma taken_stable:
  assumes "inv c" and "step c c'" and "k \<le> length (sent c)"
  shows "take k (sent c') = take k (sent c) \<and> k \<le> length (sent c')"
  using step_sent [OF assms(1,2)] assms(3) by (auto simp: prefix_def)

lemma next_request:
  assumes "inv c" and "k < length (sent c)"
  shows "take (Suc k) (sent c) = take k (sent c) @ [sent c ! k] \<and> steady n (take k (sent c) @ [sent c ! k])"
  using steady_take [OF inv_steady [OF assms(1)], of n "Suc k"] assms(2) by (simp add: take_Suc_conv_app_nth)

end

text \<open>
  The server towards the client: handling a request to start adds at most the proxy asked for, one
  that fits the request, and handling a request to close takes exactly that proxy away.
\<close>

locale proxy_host =
  fixes ok :: "'s \<Rightarrow> bool" and held :: "'s \<Rightarrow> string \<rightharpoonup> 'p" and fits :: "'p \<Rightarrow> new_proxy_msg \<Rightarrow> bool"
    and handle :: "client_msg \<Rightarrow> 's \<Rightarrow> 's \<Rightarrow> bool"
  assumes handle_ok: "ok s \<Longrightarrow> handle x s s' \<Longrightarrow> ok s'"
    and handle_start: "ok s \<Longrightarrow> handle (SendNewProxy m) s s' \<Longrightarrow>
      held s' = held s \<or> (\<exists>p. held s' = (held s)(np_ProxyName m \<mapsto> p) \<and> fits p m)"
    and handle_close: "ok s \<Longrightarrow> handle (SendCloseProxy n) s s' \<Longrightarrow> held s' = (held s)(n := None)"

text \<open>Each proxy that is held was asked for last, and fits the request.\<close>

definition held_as_asked :: "('p \<Rightarrow> new_proxy_msg \<Rightarrow> bool) \<Rightarrow> (string \<rightharpoonup> 'p) \<Rightarrow> client_msg list \<Rightarrow> bool" where
  "held_as_asked fits h ms \<longleftrightarrow> (\<forall>n p. h n = Some p \<longrightarrow> (\<exists>m. asked n ms = Some (SendNewProxy m) \<and> fits p m))"

lemma held_as_asked_sub: "held_as_asked fits h ms \<Longrightarrow> h' \<subseteq>\<^sub>m h \<Longrightarrow> held_as_asked fits h' ms"
proof -
  assume "held_as_asked fits h ms" "h' \<subseteq>\<^sub>m h"
  moreover have "h n = Some p" if "h' n = Some p" for n p using calculation(2) that by (auto simp: map_le_def dom_def)
  ultimately show ?thesis by (simp add: held_as_asked_def)
qed

context proxy_host
begin

lemma handle_asked:
  assumes "ok s" and "\<And>n. steady n (ms @ [x])" and "held_as_asked fits (held s) ms" and "handle x s s'"
  shows "held_as_asked fits (held s') (ms @ [x])"
proof (cases x)
  case (SendNewProxy m)
  have same: "m0 = m" if "asked (np_ProxyName m) ms = Some (SendNewProxy m0)" for m0
    using assms(2) [of "np_ProxyName m"] that SendNewProxy by simp
  show ?thesis
    using handle_start [of s m s'] assms(1,3,4) same
    by (fastforce simp: held_as_asked_def SendNewProxy split: if_splits)
next
  case (SendCloseProxy n)
  then show ?thesis
    using handle_close [of s n s'] assms(1,3,4) by (auto simp: held_as_asked_def split: if_splits)
qed

end

text \<open>The two together, with the number of the requests handled so far.\<close>

locale hosted_client = request_stream inv sent step + proxy_host ok held fits handle
  for inv :: "'c \<Rightarrow> bool" and sent :: "'c \<Rightarrow> client_msg list" and step :: "'c \<Rightarrow> 'c \<Rightarrow> bool"
    and ok :: "'s \<Rightarrow> bool" and held :: "'s \<Rightarrow> string \<rightharpoonup> 'p" and fits :: "'p \<Rightarrow> new_proxy_msg \<Rightarrow> bool"
    and handle :: "client_msg \<Rightarrow> 's \<Rightarrow> 's \<Rightarrow> bool"
begin

lemma client_moves:
  assumes "inv c" and "k \<le> length (sent c)" and "held_as_asked fits h (take k (sent c))" and "step c c'"
  shows "inv c' \<and> k \<le> length (sent c') \<and> held_as_asked fits h (take k (sent c'))"
  using assms taken_stable [OF assms(1,4,2)] step_inv by simp

lemma server_moves:
  assumes "inv c" and "k < length (sent c)" and "ok s" and "held_as_asked fits (held s) (take k (sent c))"
    and "handle (sent c ! k) s s'"
  shows "ok s' \<and> held_as_asked fits (held s') (take (Suc k) (sent c))"
  using handle_asked [OF assms(3) _ assms(4,5)] handle_ok [OF assms(3,5)] next_request [OF assms(1,2)] by simp

end

section \<open>The models as implementations\<close>

definition client_step :: "proxy_manager \<Rightarrow> proxy_manager \<Rightarrow> bool" where
  "client_step pm pm' \<longleftrightarrow> own_step pm pm' \<or> (\<exists>run_err msg. pm' = take_answer run_err msg pm)"

definition server_handles :: "manager_env \<Rightarrow> nat \<Rightarrow> client_msg \<Rightarrow> server \<Rightarrow> server \<Rightarrow> bool" where
  "server_handles me cid msg sv sv' \<longleftrightarrow> (\<exists>ev go. request_event msg ev \<and> manager_step me cid ev sv = (go, sv'))"

lemma take_answer_keeps: "pm_inv pm \<Longrightarrow> pm_inv (take_answer run_err msg pm) \<and> prefix (pm_sent pm) (pm_sent (take_answer run_err msg pm))"
proof (cases msg)
  case (NewProxyResp name addr err)
  obtain res pm' where "StartProxy run_err name addr err pm = (res, pm')" by force
  then show "pm_inv pm \<Longrightarrow> ?thesis"
    using StartProxy_inv [of pm run_err name addr err res pm'] StartProxy_sent [of pm run_err name addr err] NewProxyResp by simp
qed simp_all

lemma server_handles_start:
  assumes "ct_running (sv_ctls sv cid) = None" and "server_handles me cid (SendNewProxy m) sv sv'"
  shows "sv_cfg sv' = sv_cfg sv \<and> ct_running (sv_ctls sv' cid) = None \<and>
    (ct_proxies (sv_ctls sv' cid) = ct_proxies (sv_ctls sv cid) \<or>
     (\<exists>px. ct_proxies (sv_ctls sv' cid) = (ct_proxies (sv_ctls sv cid))(np_ProxyName m \<mapsto> px) \<and> serves (me_pf me) (sv_cfg sv) px m))"
proof -
  obtain ev go where "request_event (SendNewProxy m) ev" and st: "manager_step me cid ev sv = (go, sv')"
    using assms(2) by (auto simp: server_handles_def)
  then obtain plugin ae en where ev: "ev = RecvNewProxy plugin ae en m" and p: "\<forall>m''. plugin m = Inr m'' \<longrightarrow> m'' = m"
    by (cases ev) auto
  have "sv' = manager_NewProxy (me_pf me) (me_register_text me) plugin ae en cid m sv" using st ev by simp
  from manager_NewProxy_effect [of sv cid plugin m sv' "me_pf me" "me_register_text me" ae en, OF assms(1) p this]
  show ?thesis .
qed

lemma server_handles_close:
  assumes "server_handles me cid (SendCloseProxy n) sv sv'"
  shows "sv_cfg sv' = sv_cfg sv \<and> ct_running (sv_ctls sv' cid) = ct_running (sv_ctls sv cid) \<and>
    ct_proxies (sv_ctls sv' cid) = (ct_proxies (sv_ctls sv cid))(n := None)"
proof -
  obtain ev go where "request_event (SendCloseProxy n) ev" and st: "manager_step me cid ev sv = (go, sv')"
    using assms by (auto simp: server_handles_def)
  then obtain now where "ev = RecvCloseProxy now n" by (cases ev) auto
  then show ?thesis using CloseProxy_effect [of now cid n sv] st by simp
qed

interpretation frp: hosted_client pm_inv pm_sent client_step
  "\<lambda>sv. ct_running (sv_ctls sv cid) = None \<and> sv_cfg sv = sc" "\<lambda>sv. ct_proxies (sv_ctls sv cid)" "serves (me_pf me) sc"
  "server_handles me cid" for me cid sc
proof unfold_locales
  show "pm_inv pm'" if "pm_inv pm" "client_step pm pm'" for pm pm'
    using that own_step_inv take_answer_keeps by (auto simp: client_step_def)
  show "prefix (pm_sent pm) (pm_sent pm')" if "pm_inv pm" "client_step pm pm'" for pm pm'
    using that own_step_sent take_answer_keeps by (auto simp: client_step_def)
  show "steady n (pm_sent pm)" if "pm_inv pm" for pm n using that by (simp add: pm_inv_def)
  show "ct_running (sv_ctls sv' cid) = None \<and> sv_cfg sv' = sc"
    if "ct_running (sv_ctls sv cid) = None \<and> sv_cfg sv = sc" "server_handles me cid x sv sv'" for sv x sv'
    using that server_handles_start [of sv cid me _ sv'] server_handles_close [of me cid _ sv sv'] by (cases x) auto
  show "ct_proxies (sv_ctls sv' cid) = ct_proxies (sv_ctls sv cid) \<or>
      (\<exists>p. ct_proxies (sv_ctls sv' cid) = (ct_proxies (sv_ctls sv cid))(np_ProxyName m \<mapsto> p) \<and> serves (me_pf me) sc p m)"
    if "ct_running (sv_ctls sv cid) = None \<and> sv_cfg sv = sc" "server_handles me cid (SendNewProxy m) sv sv'" for sv m sv'
    using that server_handles_start [of sv cid me m sv'] by simp
  show "ct_proxies (sv_ctls sv' cid) = (ct_proxies (sv_ctls sv cid))(n := None)"
    if "server_handles me cid (SendCloseProxy n) sv sv'" for sv n sv'
    using server_handles_close [OF that] by simp
qed

section \<open>The invariant\<close>

definition link_inv :: "manager_env \<Rightarrow> nat \<Rightarrow> server_conf \<Rightarrow> link \<Rightarrow> bool" where
  "link_inv me cid sc lk \<longleftrightarrow>
     pm_inv (lk_pm lk) \<and> lk_taken lk \<le> length (pm_sent (lk_pm lk)) \<and>
     (ct_running (sv_ctls (lk_sv lk) cid) = None \<and> sv_cfg (lk_sv lk) = sc) \<and>
     held_as_asked (serves (me_pf me) sc) (ct_proxies (sv_ctls (lk_sv lk) cid)) (take (lk_taken lk) (pm_sent (lk_pm lk)))"

lemma link_inv_client:
  "link_inv me cid sc lk \<Longrightarrow> client_step (lk_pm lk) pm' \<Longrightarrow> link_inv me cid sc (lk\<lparr>lk_pm := pm', lk_got := k\<rparr>)"
  using frp.client_moves [where c = "lk_pm lk" and c' = pm' and k = "lk_taken lk" and h = "ct_proxies (sv_ctls (lk_sv lk) cid)"
      and me = me and sc = sc]
  by (simp add: link_inv_def)

lemma link_reachable_inv: "link_reachable me cid lk \<Longrightarrow> link_inv me cid (sv_cfg (lk_sv lk)) lk"
proof (induction rule: link_reachable.induct)
  case (start sv)
  then show ?case
    using pm_reachable_inv [OF pm_reachable.start] by (simp add: link_inv_def held_as_asked_def NewProxyManager_def)
next
  case (client lk pm')
  then show ?case using link_inv_client [of me cid _ lk pm' "lk_got lk"] by (simp add: client_step_def)
next
  case (request lk ev go sv')
  then have h: "server_handles me cid (pm_sent (lk_pm lk) ! lk_taken lk) (lk_sv lk) sv'" by (auto simp: server_handles_def)
  with request show ?case
    using frp.server_moves [of "lk_pm lk" "lk_taken lk" "lk_sv lk" cid "sv_cfg (lk_sv lk)" me sv'] by (auto simp: link_inv_def)
next
  case (answer lk run_err)
  let ?pm' = "take_answer run_err (ct_sendCh (sv_ctls (lk_sv lk) cid) ! lk_got lk) (lk_pm lk)"
  have "client_step (lk_pm lk) ?pm'" by (auto simp: client_step_def)
  with answer link_inv_client [of me cid _ lk ?pm' "Suc (lk_got lk)"] show ?case by simp
next
  case (others lk sv')
  then show ?case
    using held_as_asked_sub [of _ "ct_proxies (sv_ctls (lk_sv lk) cid)" _ "ct_proxies (sv_ctls sv' cid)"]
    by (simp add: link_inv_def others_step_def)
qed



definition demo_ssh0 :: proxy_manager where
  "demo_ssh0 = \<lparr>pm_proxies = [''ssh'' \<mapsto> NewWrapper demo_tcp_conf], pm_sent = []\<rparr>"

definition demo_ssh :: wrapper where
  "demo_ssh = (NewWrapper demo_tcp_conf)\<lparr>w_Phase := PhaseWaitStart, w_lastSendStartMsg := 1\<rparr>"

definition demo_ssh1 :: proxy_manager where
  "demo_ssh1 = HandleEvent [SendNewProxy demo_msg] (put_wrapper ''ssh'' demo_ssh demo_ssh0)"

lemma demo_ssh_msg: "MarshalToMsg demo_tcp_conf zero_msg = demo_msg"
  by (simp add: demo_tcp_conf_def demo_msg_def base_marshalToMsg_def zero_base_def zero_quantity_def zero_msg_def Let_def)

lemma demo_ssh_steps: "own_step NewProxyManager demo_ssh0" "own_step demo_ssh0 demo_ssh1"
proof -
  show "own_step NewProxyManager demo_ssh0"
    by (rule own_step.reload [of "[''ssh'' \<mapsto> demo_tcp_conf]" "[]" _ "[''ssh'']"])
      (simp_all add: keyed_def demo_tcp_conf_def NewProxyManager_def Reload_def demo_ssh0_def)
  have "check_round 1 (NewWrapper demo_tcp_conf) = (demo_ssh, [SendNewProxy demo_msg])"
    by (simp add: check_round_def start_due_def demo_ssh_def NewWrapper_def Let_def demo_ssh_msg [symmetric])
      (simp add: demo_tcp_conf_def zero_base_def)
  then show "own_step demo_ssh0 demo_ssh1"
    unfolding demo_ssh1_def by (intro own_step.check) (simp add: demo_ssh0_def)
qed

definition demo_up :: server where
  "demo_up = manager_NewProxy (\<lambda>_ _. None) (\<lambda>_. ''refused'') Inr demo_api (demo_env True) 0 demo_msg demo_sv1"

lemma demo_up_eq:
  "ct_proxies (sv_ctls demo_up 0) = [''ssh'' \<mapsto> demo_px]"
  "ct_sendCh (sv_ctls demo_up 0) = [ReqWorkConn, NewProxyResp ''ssh'' (port_addr 7000) '''']"
proof -
  have n: "px_name demo_px = ''ssh''" "np_ProxyName demo_msg = ''ssh''"
    by (simp_all add: demo_px_def NewProxy_def server_view_def demo_tcp_conf_def zero_base_def forget_local_def demo_msg_def)
  have run: "RegisterProxy_run (\<lambda>_ _. None) demo_api (demo_env True) 0 demo_msg demo_sv1 = (Inr (port_addr 7000), demo_sv2)"
    using demo_sv2_run_eq by (simp add: demo_sv2_def)
  have ch: "ct_sendCh (sv_ctls demo_sv2 0) = [ReqWorkConn]" "\<not> ct_sendCh_closed (sv_ctls demo_sv2 0)"
    unfolding demo_sv2_def demo_sv2_run_eq by (simp_all add: demo_sv1_live add_ports_def demo_started_def demo_control_def)
  show "ct_proxies (sv_ctls demo_up 0) = [''ssh'' \<mapsto> demo_px]"
    "ct_sendCh (sv_ctls demo_up 0) = [ReqWorkConn, NewProxyResp ''ssh'' (port_addr 7000) '''']"
    using demo_sv2_run ch
    by (simp_all add: demo_up_def manager_NewProxy_def RegisterProxy_def run RegisterProxy_add_def pxys_Add_def n Let_def send_def)
qed

definition demo_lk :: link where
  "demo_lk = \<lparr>lk_pm = demo_ssh1, lk_taken = 1, lk_got = 0, lk_sv = demo_up\<rparr>"

definition demo_me2 :: manager_env where
  "demo_me2 = demo_me\<lparr>me_register_text := (\<lambda>_. ''refused'')\<rparr>"

lemma demo_lk_reachable: "link_reachable demo_me2 0 demo_lk"
proof -
  have "ct_proxies (sv_ctls demo_sv1 0) = Map.empty" by (simp add: demo_sv1_live demo_started_def demo_control_def)
  from link_reachable.start [OF demo_sv1_live(1,2) this]
  have "link_reachable demo_me2 0 \<lparr>lk_pm = NewProxyManager, lk_taken = 0, lk_got = 0, lk_sv = demo_sv1\<rparr>" .
  from link_reachable.client [OF this, simplified, OF demo_ssh_steps(1)]
  have "link_reachable demo_me2 0 \<lparr>lk_pm = demo_ssh0, lk_taken = 0, lk_got = 0, lk_sv = demo_sv1\<rparr>" .
  from link_reachable.client [OF this, simplified, OF demo_ssh_steps(2)]
  have r: "link_reachable demo_me2 0 \<lparr>lk_pm = demo_ssh1, lk_taken = 0, lk_got = 0, lk_sv = demo_sv1\<rparr>" .
  have "pm_sent demo_ssh1 = [SendNewProxy demo_msg]" by (simp add: demo_ssh1_def HandleEvent_def put_wrapper_def demo_ssh0_def)
  moreover have "manager_step demo_me2 0 (RecvNewProxy Inr demo_api (demo_env True) demo_msg) demo_sv1 = (True, demo_up)"
    by (simp add: demo_up_def demo_me2_def demo_me_def)
  ultimately show ?thesis
    using link_reachable.request [OF r, of "RecvNewProxy Inr demo_api (demo_env True) demo_msg" True demo_up]
    by (simp add: demo_lk_def)
qed





text \<open>
  A proxy closed from the dashboard is gone on the server, but nothing is sent to its client, which
  goes on showing it as running.
\<close>

theorem dashboard_close_untold:
  "ct_sendCh (sv_ctls (snd (ForceCloseProxy now cid name sv)) i) = ct_sendCh (sv_ctls sv i) \<and>
   ct_proxies (sv_ctls (snd (ForceCloseProxy now cid name sv)) cid) name = None"
  by (auto simp: ForceCloseProxy_def close_proxy_def add_ports_def Let_def split: option.splits)

end
