(* ===== verification/Frp_DashApi.thy ===== *)
theory Frp_DashApi
  imports Frp_Sessions Frp_Dashboard
begin

text \<open>
  The lists of proxies that the server gives to the dashboard (\<open>/api/proxy/:type\<close> and
  \<open>/api/proxy/:type/:name\<close> of \<open>server/dashboard_api.go\<close>): the statistics of the collector joined
  with the table of running proxies. Answers are JSON values, as the scripts of the dashboard
  read them. A slice or map that is empty is nil on the server and encoded as null. The
  bandwidth limit of a running proxy was parsed before, so decoding it gives it back.
\<close>

section \<open>The encoding of configurations\<close>

type_synonym json_obj = "(string \<times> js_val) list"

definition json_strings :: "string list \<Rightarrow> js_val" where
  "json_strings xs = (if xs = [] then JNull else JArr (map JStr xs))"

definition json_map :: "str_map \<Rightarrow> js_val" where
  "json_map m = (if m = [] then JNull else JObj (map (\<lambda>(k, v). (k, JStr v)) m))"

definition omit_empty :: "string \<Rightarrow> string \<Rightarrow> json_obj" where
  "omit_empty k s = (if s = '''' then [] else [(k, JStr s)])"

definition base_json :: "base_proxy_conf \<Rightarrow> json_obj" where
  "base_json b =
     (let l = bc_LocalSvrConf b; h = bc_HealthCheckConf b in
      [(''name'', JStr (bc_ProxyName b)), (''type'', JStr (bc_ProxyType b)),
       (''use_encryption'', JBool (bc_UseEncryption b)), (''use_compression'', JBool (bc_UseCompression b)),
       (''group'', JStr (bc_Group b)), (''group_key'', JStr (bc_GroupKey b)),
       (''proxy_protocol_version'', JStr (bc_ProxyProtocolVersion b)),
       (''bandwidth_limit'', JStr (bq_s (bc_BandwidthLimit b))), (''bandwidth_limit_mode'', JStr (bc_BandwidthLimitMode b)),
       (''metas'', json_map (bc_Metas b)),
       (''local_ip'', JStr (ls_LocalIP l)), (''local_port'', JNum (ls_LocalPort l)), (''plugin'', JStr (ls_Plugin l)),
       (''PluginParams'', json_map (ls_PluginParams l)),
       (''health_check_type'', JStr (hk_Type h)), (''health_check_timeout_s'', JNum (hk_TimeoutS h)),
       (''health_check_max_failed'', JNum (hk_MaxFailed h)), (''health_check_interval_s'', JNum (hk_IntervalS h)),
       (''health_check_url'', JStr (hk_URL h)), (''HealthCheckAddr'', JStr (hk_Addr h))])"

definition domain_json :: "domain_conf \<Rightarrow> json_obj" where
  "domain_json d = [(''custom_domains'', json_strings (dm_CustomDomains d)), (''subdomain'', JStr (dm_SubDomain d))]"

definition role_json :: "role_server_conf \<Rightarrow> json_obj" where
  "role_json r = [(''role'', JStr (rs_Role r)), (''sk'', JStr (rs_Sk r)), (''allow_users'', json_strings (rs_AllowUsers r))]"

fun conf_json :: "proxy_conf \<Rightarrow> json_obj" where
  "conf_json (TCPProxyConf b port) = base_json b @ [(''remote_port'', JNum port)]"
| "conf_json (UDPProxyConf b port) = base_json b @ [(''remote_port'', JNum port)]"
| "conf_json (TCPMuxProxyConf b d f) =
     base_json b @ domain_json d @ omit_empty ''http_user'' (mf_HTTPUser f) @ omit_empty ''http_pwd'' (mf_HTTPPwd f) @
     [(''route_by_http_user'', JStr (mf_RouteByHTTPUser f)), (''Multiplexer'', JStr (mf_Multiplexer f))]"
| "conf_json (HTTPProxyConf b d f) =
     base_json b @ domain_json d @
     [(''locations'', json_strings (hf_Locations f)), (''http_user'', JStr (hf_HTTPUser f)), (''http_pwd'', JStr (hf_HTTPPwd f)),
      (''host_header_rewrite'', JStr (hf_HostHeaderRewrite f)), (''headers'', json_map (hf_Headers f)),
      (''route_by_http_user'', JStr (hf_RouteByHTTPUser f))]"
| "conf_json (HTTPSProxyConf b d) = base_json b @ domain_json d"
| "conf_json (STCPProxyConf b r) = base_json b @ role_json r"
| "conf_json (XTCPProxyConf b r) = base_json b @ role_json r"
| "conf_json (SUDPProxyConf b r) = base_json b @ role_json r"

section \<open>What the dashboard gets of them\<close>

text \<open>The fields of the empty value for each type; \<open>None\<close> is the nil of the default case.\<close>

definition getConfByType :: "string \<Rightarrow> json_obj option" where
  "getConfByType ty =
     (let base = base_json zero_base; doms = domain_json zero_domain; port = [(''remote_port'', JNum 0)]
      in if ty = ''tcp'' then Some (base @ port)
         else if ty = ''tcpmux'' then Some (base @ doms @ [(''multiplexer'', JStr '''')])
         else if ty = ''udp'' then Some (base @ port)
         else if ty = ''http'' then Some (base @ doms @ [(''locations'', JNull), (''host_header_rewrite'', JStr '''')])
         else if ty = ''https'' then Some (base @ doms)
         else if ty = ''stcp'' then Some base
         else if ty = ''xtcp'' then Some base
         else None)"

text \<open>
  Decoding an encoded configuration into such a value, and encoding it again: only its own
  fields are filled, whatever the case of their names; into nil everything is decoded.
\<close>

definition json_field :: "json_obj \<Rightarrow> string \<Rightarrow> js_val option" where
  "json_field j k = map_option snd (find (\<lambda>(k', _). to_lower k' = to_lower k) j)"

definition decode_conf :: "json_obj option \<Rightarrow> json_obj \<Rightarrow> js_val" where
  "decode_conf into j =
     (case into of
        None \<Rightarrow> JObj j
      | Some fs \<Rightarrow> JObj (map (\<lambda>(k, z). (k, case json_field j k of None \<Rightarrow> z | Some v \<Rightarrow> v)) fs))"

section \<open>The lists\<close>

text \<open>
  The login message of a proxy is that of its control; the control is looked for among the live
  ones.
\<close>

definition GetLoginMsg :: "server \<Rightarrow> string \<Rightarrow> login_msg option" where
  "GetLoginMsg sv name =
     map_option (\<lambda>cid. ct_loginMsg (sv_ctls sv cid))
       (find (\<lambda>cid. \<not> ct_stopped (sv_ctls sv cid) \<and> ct_proxies (sv_ctls sv cid) name \<noteq> None) [0..<sv_ctl_next sv])"

definition stats_json :: "proxy_stats \<Rightarrow> string \<Rightarrow> json_obj" where
  "stats_json ps status =
     [(''today_traffic_in'', JNum (sint (ps_TodayTrafficIn ps))), (''today_traffic_out'', JNum (sint (ps_TodayTrafficOut ps))),
      (''cur_conns'', JNum (sint (ps_CurConns ps))), (''last_start_time'', JStr (ps_LastStartTime ps)),
      (''last_close_time'', JStr (ps_LastCloseTime ps)), (''status'', JStr status)]"

definition proxy_stats_info :: "server \<Rightarrow> proxy_stats \<Rightarrow> js_val" where
  "proxy_stats_info sv ps =
     (case sv_pxys sv (ps_Name ps) of
        Some px \<Rightarrow>
          JObj ([(''name'', JStr (ps_Name ps)), (''conf'', decode_conf (getConfByType (ps_Type ps)) (conf_json (px_cfg px)))] @
            (case GetLoginMsg sv (ps_Name ps) of None \<Rightarrow> [] | Some l \<Rightarrow> omit_empty ''client_version'' (lm_Version l)) @
            stats_json ps ''online'')
      | None \<Rightarrow> JObj ([(''name'', JStr (ps_Name ps)), (''conf'', JNull)] @ stats_json ps ''offline''))"

definition getProxyStatsByType ::
    "location \<Rightarrow> instant \<Rightarrow> string \<Rightarrow> server \<Rightarrow> server_statistics \<Rightarrow> js_val list \<times> server_statistics" where
  "getProxyStatsByType loc now proxyType sv m =
     (let (proxyStats, m) = GetProxiesByType loc now proxyType m in (map (proxy_stats_info sv) proxyStats, m))"

definition APIProxyByType ::
    "location \<Rightarrow> instant \<Rightarrow> string \<Rightarrow> server \<Rightarrow> server_statistics \<Rightarrow> js_val \<times> server_statistics" where
  "APIProxyByType loc now proxyType sv m =
     (let (infos, m) = getProxyStatsByType loc now proxyType sv m in (JObj [(''proxies'', JArr infos)], m))"

text \<open>The answer for one proxy: the code, with the text of the error or the value.\<close>

definition getProxyStatsByTypeAndName ::
    "location \<Rightarrow> instant \<Rightarrow> string \<Rightarrow> string \<Rightarrow> server \<Rightarrow> server_statistics \<Rightarrow> int \<times> (string + js_val) \<times> server_statistics" where
  "getProxyStatsByTypeAndName loc now proxyType proxyName sv m =
     (case GetProxiesByTypeAndName loc now proxyType proxyName m of
        (None, m) \<Rightarrow> (404, Inl ''no proxy info found'', m)
      | (Some ps, m) \<Rightarrow>
          let (conf, status) = (case sv_pxys sv proxyName of
                Some px \<Rightarrow> (decode_conf (getConfByType (ps_Type ps)) (conf_json (px_cfg px)), ''online'')
              | None \<Rightarrow> (JNull, ''offline''))
          in (200, Inr (JObj ([(''name'', JStr proxyName), (''conf'', conf)] @ stats_json ps status)), m))"


section \<open>Lemmas\<close>

lemma push_proxies_map: "(\<forall>st \<in> set sts. non_null st) \<Longrightarrow> push_proxies mk sts acc = (None, acc @ map mk sts)"
  by (induction sts arbitrary: acc) auto

lemma proxy_stats_info_non_null: "non_null (proxy_stats_info sv ps)"
  by (simp add: proxy_stats_info_def non_null_def split: option.splits)

lemma fld_obj: "fld (JObj ps) k = (case map_of ps k of None \<Rightarrow> JUndef | Some v \<Rightarrow> v)"
  unfolding fld_def js_get.simps sum.case by (rule refl)

lemma omit_empty_other: "k \<noteq> k' \<Longrightarrow> map_of (omit_empty k s) k' = None"
  by (simp add: omit_empty_def)

lemma proxy_stats_info_fields:
  "fld (proxy_stats_info sv ps) ''name'' = JStr (ps_Name ps)"
  "fld (proxy_stats_info sv ps) ''status'' = JStr (if sv_pxys sv (ps_Name ps) = None then ''offline'' else ''online'')"
  "fld (proxy_stats_info sv ps) ''cur_conns'' = JNum (sint (ps_CurConns ps))"
  "fld (proxy_stats_info sv ps) ''conf'' =
     (case sv_pxys sv (ps_Name ps) of None \<Rightarrow> JNull | Some px \<Rightarrow> decode_conf (getConfByType (ps_Type ps)) (conf_json (px_cfg px)))"
  by (auto simp: proxy_stats_info_def fld_obj stats_json_def omit_empty_other map_add_def split: option.splits)

text \<open>A field that the type has is the one of the running configuration; one it has not is undefined.\<close>

lemma decode_conf_fld:
  "fld (decode_conf (Some fs) j) k =
     (case map_of fs k of None \<Rightarrow> JUndef | Some z \<Rightarrow> (case json_field j k of None \<Rightarrow> z | Some v \<Rightarrow> v))"
proof -
  have "map_of (map (\<lambda>(k, z). (k, case json_field j k of None \<Rightarrow> z | Some v \<Rightarrow> v)) fs) k =
      map_option (\<lambda>z. case json_field j k of None \<Rightarrow> z | Some v \<Rightarrow> v) (map_of fs k)"
    by (induction fs) (auto split: option.splits)
  then show ?thesis by (simp add: decode_conf_def fld_obj split: option.splits)
qed

lemma json_field_append: "json_field (j @ j') k = (case json_field j k of None \<Rightarrow> json_field j' k | Some v \<Rightarrow> Some v)"
  unfolding json_field_def by (induction j) auto

lemma base_json_fields:
  "json_field (base_json b) ''remote_port'' = None" "json_field (base_json b) ''group_key'' = Some (JStr (bc_GroupKey b))"
  "map_of (base_json b) ''remote_port'' = None" "map_of (base_json b) ''sk'' = None" "map_of (base_json b) ''http_pwd'' = None"
  "map_of (base_json b) ''http_user'' = None"
  "map_of (base_json b) ''group_key'' = Some (JStr (bc_GroupKey b))"
  by (simp_all add: json_field_def base_json_def to_lower_def Let_def)


text \<open>The fields of the types of the dashboard, by name.\<close>

lemma getConfByType_keys:
  assumes "getConfByType ty = Some fs"
  shows "map_of fs ''sk'' = None" "map_of fs ''http_pwd'' = None" "map_of fs ''http_user'' = None"
    "map_of fs ''group_key'' = Some (JStr (bc_GroupKey zero_base))"
  using assms
  by (auto simp: getConfByType_def Let_def base_json_fields domain_json_def map_add_def split: if_splits option.splits)

lemma conf_json_base: "\<exists>j. conf_json cfg = base_json (GetBaseConfig cfg) @ j"
  by (cases cfg) simp_all



definition demo_stats :: server_statistics where
  "demo_stats = (newServerMetrics (\<lambda>_. 0) 0)\<lparr>si_ProxyStatistics :=
    [(''ssh'', new_statistics (\<lambda>_. 0) 0 ''ssh'' ''tcp''), (''dns'', new_statistics (\<lambda>_. 0) 0 ''dns'' ''udp''),
     (''old'', new_statistics (\<lambda>_. 0) 0 ''old'' ''tcp'')]\<rparr>"


lemma sudp_conf: "getConfByType ''sudp'' = None" by (simp add: getConfByType_def Let_def)

text \<open>
  (C37) What the lists disclose: for the seven types that have an output type, no secret key, no HTTP
  user and no HTTP password is in the answer, whatever the configuration; for \<open>sudp\<close>, which has
  none, the whole configuration is, with the secret key. The key of a load balancing group is
  shown for every type.
\<close>

theorem secrets_in_lists:
  "(ty \<in> {''tcp'', ''tcpmux'', ''udp'', ''http'', ''https'', ''stcp'', ''xtcp''} \<longrightarrow>
      (\<forall>k \<in> {''sk'', ''http_user'', ''http_pwd''}. fld (decode_conf (getConfByType ty) (conf_json cfg)) k = JUndef)) \<and>
   fld (decode_conf (getConfByType ''sudp'') (conf_json (SUDPProxyConf b r))) ''sk'' = JStr (rs_Sk r) \<and>
   fld (decode_conf (getConfByType ty) (conf_json cfg)) ''group_key'' = JStr (bc_GroupKey (GetBaseConfig cfg))"
proof -
  have hidden: "fld (decode_conf (getConfByType ty) (conf_json cfg)) k = JUndef"
    if "getConfByType ty = Some fs" "k \<in> {''sk'', ''http_user'', ''http_pwd''}" for fs k
    using getConfByType_keys [OF that(1)] that(2) by (auto simp: that(1) decode_conf_fld)
  have types: "\<exists>fs. getConfByType ty = Some fs" if "ty \<in> {''tcp'', ''tcpmux'', ''udp'', ''http'', ''https'', ''stcp'', ''xtcp''}"
    using that by (auto simp: getConfByType_def Let_def)
  have 1: "ty \<in> {''tcp'', ''tcpmux'', ''udp'', ''http'', ''https'', ''stcp'', ''xtcp''} \<longrightarrow>
      (\<forall>k \<in> {''sk'', ''http_user'', ''http_pwd''}. fld (decode_conf (getConfByType ty) (conf_json cfg)) k = JUndef)"
  proof (rule impI)
    assume "ty \<in> {''tcp'', ''tcpmux'', ''udp'', ''http'', ''https'', ''stcp'', ''xtcp''}"
    from types [OF this] obtain fs where "getConfByType ty = Some fs" ..
    from hidden [OF this] show "\<forall>k \<in> {''sk'', ''http_user'', ''http_pwd''}. fld (decode_conf (getConfByType ty) (conf_json cfg)) k = JUndef" ..
  qed
  have "map_of (role_json r) ''sk'' = Some (JStr (rs_Sk r))" by (simp add: role_json_def)
  then have "map_of (conf_json (SUDPProxyConf b r)) ''sk'' = Some (JStr (rs_Sk r))"
    by (simp only: conf_json.simps map_of_append map_add_def base_json_fields(4) option.case)
  then have 2: "fld (decode_conf (getConfByType ''sudp'') (conf_json (SUDPProxyConf b r))) ''sk'' = JStr (rs_Sk r)"
    by (simp only: sudp_conf decode_conf_def option.case fld_obj)
  obtain j where j: "conf_json cfg = base_json (GetBaseConfig cfg) @ j" using conf_json_base by blast
  have 3: "fld (decode_conf (getConfByType ty) (conf_json cfg)) ''group_key'' = JStr (bc_GroupKey (GetBaseConfig cfg))"
  proof (cases "getConfByType ty")
    case None
    have "map_of (base_json (GetBaseConfig cfg) @ j) ''group_key'' = Some (JStr (bc_GroupKey (GetBaseConfig cfg)))"
      by (simp add: map_add_def base_json_fields)
    then show ?thesis by (simp add: None decode_conf_def fld_obj j)
  next
    case (Some fs)
    then show ?thesis
      using getConfByType_keys(4) [OF Some] by (simp add: decode_conf_fld j json_field_append base_json_fields)
  qed
  from 1 2 3 show ?thesis by (intro conjI)
qed

theorem secrets_in_lists_witness:
  "fld (decode_conf (getConfByType ''stcp'') (conf_json (STCPProxyConf zero_base (zero_role\<lparr>rs_Sk := ''s3cret''\<rparr>)))) ''sk'' = JUndef \<and>
   fld (decode_conf (getConfByType ''sudp'') (conf_json (SUDPProxyConf zero_base (zero_role\<lparr>rs_Sk := ''s3cret''\<rparr>)))) ''sk'' = JStr ''s3cret''"
proof -
  let ?r = "zero_role\<lparr>rs_Sk := ''s3cret''\<rparr>"
  note s = secrets_in_lists [of "''stcp''" "STCPProxyConf zero_base ?r" zero_base ?r]
  have "''stcp'' \<in> {''tcp'', ''tcpmux'', ''udp'', ''http'', ''https'', ''stcp'', ''xtcp''}" by simp
  from mp [OF conjunct1 [OF s] this]
  have a: "fld (decode_conf (getConfByType ''stcp'') (conf_json (STCPProxyConf zero_base ?r))) ''sk'' = JUndef"
    by (rule bspec) simp
  have b: "rs_Sk ?r = ''s3cret''" by simp
  show ?thesis by (rule conjI [OF a]) (rule trans [OF conjunct1 [OF conjunct2 [OF s]] arg_cong [OF b, of JStr]])
qed

end
