(* ===== verification/Frp_Plugins.thy ===== *)
theory Frp_Plugins
  imports Frp_Manager
begin

text \<open>
  The plugins of the server (\<open>pkg/plugin/server\<close>): HTTP services that are asked about logins,
  proxies, pings and connections, and may refuse or change what they are asked about. The
  transport (net/http and encoding/json) is an argument: it gives for a URL, an operation and
  a content the status of the answer and the decoded answer, or an error.
\<close>

section \<open>Data\<close>

record user_info =
  ui_User :: string
  ui_Metas :: "(string \<times> string) list"
  ui_RunID :: string

record 'c response =
  rs_Reject :: bool
  rs_RejectReason :: string
  rs_Unchange :: bool
  rs_Content :: 'c

type_synonym new_proxy_content = "user_info \<times> new_proxy_msg"
type_synonym ping_content = "user_info \<times> auth_msg"
type_synonym login_content = "login_msg \<times> string"
type_synonym new_work_conn_content = "user_info \<times> string \<times> auth_msg"
type_synonym close_proxy_content = "user_info \<times> string"

record new_user_conn_content =
  uc_User :: user_info
  uc_ProxyName :: string
  uc_ProxyType :: string
  uc_RemoteAddr :: string

text \<open>A handler gives an error, or the answer of the plugin.\<close>

type_synonym 'c handler = "'c \<Rightarrow> string + 'c response"

record plugin =
  pl_Name :: string
  pl_Ops :: "string list"
  pl_Login :: "login_content handler"
  pl_NewProxy :: "new_proxy_content handler"
  pl_CloseProxy :: "close_proxy_content handler"
  pl_Ping :: "ping_content handler"
  pl_NewWorkConn :: "new_work_conn_content handler"
  pl_NewUserConn :: "new_user_conn_content handler"

definition IsSupport :: "plugin \<Rightarrow> string \<Rightarrow> bool" where
  "IsSupport p op \<longleftrightarrow> list_ex (\<lambda>v. v = op) (pl_Ops p)"

section \<open>HTTP plugins\<close>

definition plugin_url :: "string \<Rightarrow> string \<Rightarrow> string" where
  "plugin_url addr path =
     (let url = addr @ path
      in if \<not> has_prefix url ''https://'' \<and> \<not> has_prefix url ''http://'' then ''http://'' @ url else url)"

text \<open>\<open>Handle\<close> with \<open>do\<close>: a status other than 200 and an answer that cannot be decoded are errors.\<close>

definition Handle :: "(string \<Rightarrow> string \<Rightarrow> 'c \<Rightarrow> string + int \<times> (string + 'c response)) \<Rightarrow> string \<Rightarrow> string \<Rightarrow> 'c handler" where
  "Handle http url op content =
     (case http url op content of
        Inl e \<Rightarrow> Inl e
      | Inr (status, body) \<Rightarrow>
          if status \<noteq> 200 then Inl (''do http request error code: '' @ show_int status)
          else body)"

section \<open>The manager\<close>

record plugin_manager =
  pg_login :: "plugin list"
  pg_newProxy :: "plugin list"
  pg_closeProxy :: "plugin list"
  pg_ping :: "plugin list"
  pg_newWorkConn :: "plugin list"
  pg_newUserConn :: "plugin list"

definition NewPluginManager :: plugin_manager where
  "NewPluginManager = \<lparr>pg_login = [], pg_newProxy = [], pg_closeProxy = [], pg_ping = [], pg_newWorkConn = [], pg_newUserConn = []\<rparr>"

definition plugin_Register :: "plugin \<Rightarrow> plugin_manager \<Rightarrow> plugin_manager" where
  "plugin_Register p m =
     (let add = (\<lambda>op ps. if IsSupport p op then ps @ [p] else ps)
      in \<lparr>pg_login = add ''Login'' (pg_login m), pg_newProxy = add ''NewProxy'' (pg_newProxy m),
          pg_closeProxy = add ''CloseProxy'' (pg_closeProxy m), pg_ping = add ''Ping'' (pg_ping m),
          pg_newWorkConn = add ''NewWorkConn'' (pg_newWorkConn m), pg_newUserConn = add ''NewUserConn'' (pg_newUserConn m)\<rparr>)"

text \<open>The loop that the operations share: each plugin is asked about what the former ones left.\<close>

fun plugin_loop :: "string \<Rightarrow> 'c handler list \<Rightarrow> 'c \<Rightarrow> string + 'c" where
  "plugin_loop op [] content = Inr content"
| "plugin_loop op (h # hs) content =
     (case h content of
        Inl e \<Rightarrow> Inl (''send '' @ op @ '' request to plugin error'')
      | Inr res \<Rightarrow>
          if rs_Reject res then Inl (rs_RejectReason res)
          else plugin_loop op hs (if \<not> rs_Unchange res then rs_Content res else content))"

definition plugin_Login :: "plugin_manager \<Rightarrow> login_content \<Rightarrow> string + login_content" where
  "plugin_Login m = plugin_loop ''Login'' (map pl_Login (pg_login m))"

definition plugin_NewProxy :: "plugin_manager \<Rightarrow> new_proxy_content \<Rightarrow> string + new_proxy_content" where
  "plugin_NewProxy m = plugin_loop ''NewProxy'' (map pl_NewProxy (pg_newProxy m))"

definition plugin_Ping :: "plugin_manager \<Rightarrow> ping_content \<Rightarrow> string + ping_content" where
  "plugin_Ping m = plugin_loop ''Ping'' (map pl_Ping (pg_ping m))"

definition plugin_NewWorkConn :: "plugin_manager \<Rightarrow> new_work_conn_content \<Rightarrow> string + new_work_conn_content" where
  "plugin_NewWorkConn m = plugin_loop ''NewWorkConn'' (map pl_NewWorkConn (pg_newWorkConn m))"

definition plugin_NewUserConn :: "plugin_manager \<Rightarrow> new_user_conn_content \<Rightarrow> string + new_user_conn_content" where
  "plugin_NewUserConn m = plugin_loop ''NewUserConn'' (map pl_NewUserConn (pg_newUserConn m))"

text \<open>About closed proxies all plugins are told; the result is the error, if there is one.\<close>

definition plugin_CloseProxy :: "plugin_manager \<Rightarrow> close_proxy_content \<Rightarrow> string option" where
  "plugin_CloseProxy m content =
     (let errs = concat (map (\<lambda>p. case pl_CloseProxy p content of
                                   Inl e \<Rightarrow> [''['' @ pl_Name p @ '']: '' @ e] | Inr _ \<Rightarrow> []) (pg_closeProxy m))
      in if length errs > 0 then Some (''send CloseProxy request to plugin errors: '' @ go_join ''; '' errs) else None)"

section \<open>The hooks of the server\<close>

text \<open>What the handlers of messages pass to the plugins, and what they take from the answer.\<close>

definition user_of :: "(string \<times> string) list \<Rightarrow> login_msg \<Rightarrow> user_info" where
  "user_of metas lm = \<lparr>ui_User = lm_User lm, ui_Metas = metas, ui_RunID = lm_RunID lm\<rparr>"

definition new_proxy_hook :: "plugin_manager \<Rightarrow> user_info \<Rightarrow> new_proxy_msg \<Rightarrow> string + new_proxy_msg" where
  "new_proxy_hook pg user m = map_sum id snd (plugin_NewProxy pg (user, m))"

definition ping_hook :: "plugin_manager \<Rightarrow> user_info \<Rightarrow> auth_msg \<Rightarrow> string + auth_msg" where
  "ping_hook pg user m = map_sum id snd (plugin_Ping pg (user, m))"

definition login_hook :: "plugin_manager \<Rightarrow> string \<Rightarrow> login_msg \<Rightarrow> string + login_msg" where
  "login_hook pg addr m = map_sum id fst (plugin_Login pg (m, addr))"

section \<open>Lemmas\<close>

lemma plugin_loop_append:
  "plugin_loop op (hs @ hs') c = (case plugin_loop op hs c of Inl e \<Rightarrow> Inl e | Inr c' \<Rightarrow> plugin_loop op hs' c')"
  by (induction op hs c rule: plugin_loop.induct) (auto split: sum.splits)

lemma fold_Register:
  "fold plugin_Register ps m =
     \<lparr>pg_login = pg_login m @ filter (\<lambda>p. IsSupport p ''Login'') ps,
      pg_newProxy = pg_newProxy m @ filter (\<lambda>p. IsSupport p ''NewProxy'') ps,
      pg_closeProxy = pg_closeProxy m @ filter (\<lambda>p. IsSupport p ''CloseProxy'') ps,
      pg_ping = pg_ping m @ filter (\<lambda>p. IsSupport p ''Ping'') ps,
      pg_newWorkConn = pg_newWorkConn m @ filter (\<lambda>p. IsSupport p ''NewWorkConn'') ps,
      pg_newUserConn = pg_newUserConn m @ filter (\<lambda>p. IsSupport p ''NewUserConn'') ps\<rparr>"
  by (induction ps arbitrary: m) (auto simp: plugin_Register_def Let_def)

text \<open>A plugin that lets the content pass as it is.\<close>

definition passes :: "'c handler \<Rightarrow> 'c \<Rightarrow> bool" where
  "passes h c \<longleftrightarrow> (case h c of Inl _ \<Rightarrow> False | Inr res \<Rightarrow> \<not> rs_Reject res \<and> rs_Unchange res)"

lemma plugin_loop_pass: "(\<forall>h \<in> set hs. passes h c) \<Longrightarrow> plugin_loop op hs c = Inr c"
  by (induction op hs c rule: plugin_loop.induct) (auto simp: passes_def split: sum.splits)

text \<open>
  (C35) The plugins are a conjunction of gates in the order of their registration: if one that supports
  new proxies refuses a proxy, or cannot be asked, after those before it let it pass, then the
  server does nothing but answer, with the reason of that plugin, whatever the plugins after it
  would say; and plugins for other operations are not asked.
\<close>

theorem plugin_refusal_blocks_proxy:
  assumes "pg = fold plugin_Register (ps @ p # qs) NewPluginManager" and "IsSupport p ''NewProxy''"
    and "\<forall>q \<in> set ps. IsSupport q ''NewProxy'' \<longrightarrow> passes (pl_NewProxy q) (user, m)"
    and "case pl_NewProxy p (user, m) of Inl _ \<Rightarrow> True | Inr res \<Rightarrow> rs_Reject res"
  shows "manager_NewProxy pf et (new_proxy_hook pg user) ae en cid m sv =
    upd_ctl cid (send (NewProxyResp (np_ProxyName m) '''' (GenerateResponseErrorString
      (''new proxy ['' @ np_ProxyName m @ ''] error'')
      (case pl_NewProxy p (user, m) of Inl _ \<Rightarrow> ''send NewProxy request to plugin error'' | Inr res \<Rightarrow> rs_RejectReason res)
      (sc_DetailedErrorsToClient (sv_cfg sv))))) sv"
proof -
  let ?hs = "map pl_NewProxy (filter (\<lambda>p. IsSupport p ''NewProxy'') ps)"
  have pg: "pg_newProxy pg = filter (\<lambda>p. IsSupport p ''NewProxy'') (ps @ p # qs)"
    unfolding assms(1) fold_Register by (simp add: NewPluginManager_def)
  have "plugin_loop ''NewProxy'' ?hs (user, m) = Inr (user, m)"
    using assms(3) by (intro plugin_loop_pass) auto
  then have "new_proxy_hook pg user m =
      Inl (case pl_NewProxy p (user, m) of Inl _ \<Rightarrow> ''send NewProxy request to plugin error'' | Inr res \<Rightarrow> rs_RejectReason res)"
    using assms(2,4)
    by (auto simp: new_proxy_hook_def plugin_NewProxy_def pg plugin_loop_append
        split: sum.splits)
  then show ?thesis by (simp add: manager_NewProxy_def Let_def)
qed


definition demo_plugin :: plugin where
  "demo_plugin = \<lparr>pl_Name = ''gate'', pl_Ops = [''Login'', ''NewProxy''],
     pl_Login = (\<lambda>c. Inl ''down''),
     pl_NewProxy = (\<lambda>c. Inr \<lparr>rs_Reject = np_RemotePort (snd c) = 7000, rs_RejectReason = ''not 7000'', rs_Unchange = True, rs_Content = c\<rparr>),
     pl_CloseProxy = (\<lambda>c. Inl ''down''), pl_Ping = (\<lambda>c. Inl ''down''), pl_NewWorkConn = (\<lambda>c. Inl ''down''),
     pl_NewUserConn = (\<lambda>c. Inl ''down'')\<rparr>"

theorem plugin_refusal_blocks_proxy_witness:
  "manager_NewProxy (\<lambda>_ _. None) (\<lambda>_. '''') (new_proxy_hook (fold plugin_Register [demo_plugin, demo_plugin] NewPluginManager)
      (user_of [] (demo_login 1))) demo_api (demo_env True) 0 demo_msg demo_sv1 =
    upd_ctl 0 (send (NewProxyResp ''ssh'' '''' ''not 7000'')) demo_sv1"
proof -
  have s: "IsSupport demo_plugin ''NewProxy''" by (simp add: IsSupport_def demo_plugin_def)
  have "np_RemotePort demo_msg = 7000" "np_ProxyName demo_msg = ''ssh''" by (simp_all add: demo_msg_def)
  moreover have "sv_cfg demo_sv1 = demo_server" by (simp add: demo_sv1_eq demo_sv0_def NewServer_def)
  ultimately show ?thesis
    using plugin_refusal_blocks_proxy [of _ "[]" demo_plugin "[demo_plugin]", OF _ s, of _ "user_of [] (demo_login 1)" demo_msg]
    by (simp add: demo_plugin_def GenerateResponseErrorString_def demo_server_def)
qed

end
