(* ===== verification/Frp_VisitorConf.thy ===== *)
theory Frp_VisitorConf
  imports Frp_Config
begin

text \<open>
  The configuration of visitors (\<open>pkg/config/visitor.go\<close>): the three types, their decoding from
  an ini section with its defaults, and their validation.
\<close>

section \<open>Configuration\<close>

record base_visitor_conf =
  bv_ProxyName :: string
  bv_ProxyType :: string
  bv_UseEncryption :: bool
  bv_UseCompression :: bool
  bv_Role :: string
  bv_Sk :: string
  bv_ServerUser :: string
  bv_ServerName :: string
  bv_BindAddr :: string
  bv_BindPort :: int

record xtcp_visitor_fields =
  xv_Protocol :: string
  xv_KeepTunnelOpen :: bool
  xv_MaxRetriesAnHour :: int
  xv_MinRetryInterval :: int
  xv_FallbackTo :: string
  xv_FallbackTimeoutMs :: int

datatype visitor_conf =
    SUDPVisitorConf base_visitor_conf
  | STCPVisitorConf base_visitor_conf
  | XTCPVisitorConf base_visitor_conf xtcp_visitor_fields

definition zero_visitor :: base_visitor_conf where
  "zero_visitor = \<lparr>bv_ProxyName = '''', bv_ProxyType = '''', bv_UseEncryption = False, bv_UseCompression = False,
     bv_Role = '''', bv_Sk = '''', bv_ServerUser = '''', bv_ServerName = '''', bv_BindAddr = '''', bv_BindPort = 0\<rparr>"

definition zero_xtcp :: xtcp_visitor_fields where
  "zero_xtcp = \<lparr>xv_Protocol = '''', xv_KeepTunnelOpen = False, xv_MaxRetriesAnHour = 0, xv_MinRetryInterval = 0,
     xv_FallbackTo = '''', xv_FallbackTimeoutMs = 0\<rparr>"

definition DefaultVisitorConf :: "string \<Rightarrow> visitor_conf option" where
  "DefaultVisitorConf ty = map_of
     [(''stcp'', STCPVisitorConf zero_visitor), (''xtcp'', XTCPVisitorConf zero_visitor zero_xtcp),
      (''sudp'', SUDPVisitorConf zero_visitor)] ty"

fun visitor_GetBaseConfig :: "visitor_conf \<Rightarrow> base_visitor_conf" where
  "visitor_GetBaseConfig (SUDPVisitorConf b) = b"
| "visitor_GetBaseConfig (STCPVisitorConf b) = b"
| "visitor_GetBaseConfig (XTCPVisitorConf b _) = b"

datatype visitor_conf_error =
    InvalidVisitorRole | BindAddrEmpty | BindPortRequired | BadTunnelProtocol | VisitorTypeEmpty | VisitorTypeError string

definition base_visitor_validate :: "base_visitor_conf \<Rightarrow> visitor_conf_error option" where
  "base_visitor_validate b =
     (if bv_Role b \<noteq> ''visitor'' then Some InvalidVisitorRole
      else if bv_BindAddr b = '''' then Some BindAddrEmpty
      else if bv_BindPort b = 0 then Some BindPortRequired
      else None)"

definition base_visitor_unmarshalFromIni :: "string \<Rightarrow> string \<Rightarrow> base_visitor_conf \<Rightarrow> base_visitor_conf" where
  "base_visitor_unmarshalFromIni pre name b =
     (let b = b\<lparr>bv_ProxyName := pre @ name\<rparr>;
          b = (if bv_ServerUser b = '''' then b\<lparr>bv_ServerName := pre @ bv_ServerName b\<rparr>
               else b\<lparr>bv_ServerName := bv_ServerUser b @ ''.'' @ bv_ServerName b\<rparr>)
      in if bv_BindAddr b = '''' then b\<lparr>bv_BindAddr := ''127.0.0.1''\<rparr> else b)"

text \<open>\<open>mapTo\<close> is the ini library's decoding of the section into the given value, with its error.\<close>

definition visitor_UnmarshalFromIni ::
    "(visitor_conf \<Rightarrow> visitor_conf option) \<Rightarrow> string \<Rightarrow> string \<Rightarrow> visitor_conf \<Rightarrow> visitor_conf option" where
  "visitor_UnmarshalFromIni mapTo pre name cfg =
     (case mapTo cfg of
        None \<Rightarrow> None
      | Some (SUDPVisitorConf b) \<Rightarrow> Some (SUDPVisitorConf (base_visitor_unmarshalFromIni pre name b))
      | Some (STCPVisitorConf b) \<Rightarrow> Some (STCPVisitorConf (base_visitor_unmarshalFromIni pre name b))
      | Some (XTCPVisitorConf b x) \<Rightarrow>
          Some (XTCPVisitorConf (base_visitor_unmarshalFromIni pre name b)
            (x\<lparr>xv_Protocol := (if xv_Protocol x = '''' then ''quic'' else xv_Protocol x),
               xv_MaxRetriesAnHour := (if xv_MaxRetriesAnHour x \<le> 0 then 8 else xv_MaxRetriesAnHour x),
               xv_MinRetryInterval := (if xv_MinRetryInterval x \<le> 0 then 90 else xv_MinRetryInterval x),
               xv_FallbackTimeoutMs := (if xv_FallbackTimeoutMs x \<le> 0 then 1000 else xv_FallbackTimeoutMs x)\<rparr>)))"

text \<open>\<open>contains\<close> is the function of that name of the package lo.\<close>

fun visitor_Validate :: "(string list \<Rightarrow> string \<Rightarrow> bool) \<Rightarrow> visitor_conf \<Rightarrow> visitor_conf_error option" where
  "visitor_Validate contains (SUDPVisitorConf b) = base_visitor_validate b"
| "visitor_Validate contains (STCPVisitorConf b) = base_visitor_validate b"
| "visitor_Validate contains (XTCPVisitorConf b x) =
     (case base_visitor_validate b of
        Some e \<Rightarrow> Some e
      | None \<Rightarrow> if \<not> contains ['''', ''kcp'', ''quic''] (xv_Protocol x) then Some BadTunnelProtocol else None)"

definition NewVisitorConfFromIni ::
    "(string list \<Rightarrow> string \<Rightarrow> bool) \<Rightarrow> (visitor_conf \<Rightarrow> visitor_conf option) \<Rightarrow> string \<Rightarrow> string \<Rightarrow> str_map \<Rightarrow>
     visitor_conf_error + visitor_conf" where
  "NewVisitorConfFromIni contains mapTo pre name keys =
     (let visitorType = (case map_of keys ''type'' of None \<Rightarrow> '''' | Some t \<Rightarrow> t)
      in if visitorType = '''' then Inl VisitorTypeEmpty
         else case DefaultVisitorConf visitorType of
                None \<Rightarrow> Inl (VisitorTypeError visitorType)
              | Some conf \<Rightarrow>
                  (case visitor_UnmarshalFromIni mapTo pre name conf of
                     None \<Rightarrow> Inl (VisitorTypeError visitorType)
                   | Some conf \<Rightarrow> (case visitor_Validate contains conf of Some e \<Rightarrow> Inl e | None \<Rightarrow> Inr conf)))"

text \<open>The names of the map are those of the configurations, as the loader makes them.\<close>

definition vkeyed :: "(string \<rightharpoonup> visitor_conf) \<Rightarrow> bool" where
  "vkeyed cfgs \<longleftrightarrow> (\<forall>n c. cfgs n = Some c \<longrightarrow> bv_ProxyName (visitor_GetBaseConfig c) = n)"

section \<open>Properties\<close>

lemma base_visitor_name [simp]: "bv_ProxyName (base_visitor_unmarshalFromIni pre name b) = pre @ name"
  by (simp add: base_visitor_unmarshalFromIni_def Let_def)

text \<open>What an accepted section yields: the names, the address and usable limits.\<close>

theorem visitor_section_sound:
  assumes "NewVisitorConfFromIni contains mapTo pre name keys = Inr c"
  shows "bv_ProxyName (visitor_GetBaseConfig c) = pre @ name \<and> bv_Role (visitor_GetBaseConfig c) = ''visitor'' \<and>
    bv_BindAddr (visitor_GetBaseConfig c) \<noteq> '''' \<and> bv_BindPort (visitor_GetBaseConfig c) \<noteq> 0 \<and>
    (case c of XTCPVisitorConf b x \<Rightarrow> xv_Protocol x \<noteq> '''' \<and> xv_MaxRetriesAnHour x > 0 \<and> xv_MinRetryInterval x > 0 \<and> xv_FallbackTimeoutMs x > 0
     | _ \<Rightarrow> True)"
proof -
  have valid: "visitor_Validate contains c = None" and "\<exists>c0. visitor_UnmarshalFromIni mapTo pre name c0 = Some c"
    using assms by (auto simp: NewVisitorConfFromIni_def Let_def split: if_splits option.splits)
  then obtain c0 where u: "visitor_UnmarshalFromIni mapTo pre name c0 = Some c" by blast
  have base: "base_visitor_validate (visitor_GetBaseConfig c) = None"
    using valid by (cases c) (auto split: option.splits)
  have "bv_ProxyName (visitor_GetBaseConfig c) = pre @ name" and
    "(case c of XTCPVisitorConf b x \<Rightarrow> xv_Protocol x \<noteq> '''' \<and> xv_MaxRetriesAnHour x > 0 \<and> xv_MinRetryInterval x > 0 \<and> xv_FallbackTimeoutMs x > 0
      | _ \<Rightarrow> True)"
    using u by (simp_all add: visitor_UnmarshalFromIni_def split: option.splits visitor_conf.splits)
      (erule subst [where t = c], simp)+
  then show ?thesis using base by (auto simp: base_visitor_validate_def split: if_splits)
qed

end
