(* ===== verification/Frp_Visitors.thy ===== *)
theory Frp_Visitors
  imports Frp_VisitorConf Frp_Client Frp_Manager
begin

text \<open>
  The visitors of a client, the other end of secret proxies: their manager
  (\<open>client/visitor/visitor_manager.go\<close>), what the three types do at their start, for a connection of a user and at their end
  (\<open>client/visitor/stcp.go\<close>, \<open>xtcp.go\<close>, \<open>sudp.go\<close>), and the queue through which one visitor hands a
  connection to another (\<open>pkg/util/net/listener.go\<close>). The operating system, the tunnel
  sessions (QUIC and KCP) and the steps of hole punching are arguments; the copying of bytes
  and of UDP packets is not modelled.
\<close>

section \<open>The queue between visitors\<close>

record internal_listener =
  il_acceptCh :: "nat list"
  il_closed :: bool

definition NewInternalListener :: internal_listener where
  "NewInternalListener = \<lparr>il_acceptCh = [], il_closed = False\<rparr>"

text \<open>What becomes of the connection; sending on the closed channel panics, which is the error.\<close>

datatype put_outcome = Queued | ConnDropped | PutPanicked

definition PutConn :: "nat \<Rightarrow> internal_listener \<Rightarrow> put_outcome \<times> internal_listener" where
  "PutConn conn l =
     (if il_closed l then (PutPanicked, l)
      else if length (il_acceptCh l) < 128 then (Queued, l\<lparr>il_acceptCh := il_acceptCh l @ [conn]\<rparr>)
      else (ConnDropped, l))"

text \<open>\<open>None\<close>: the call blocks. A closed channel gives what it still holds.\<close>

definition il_Accept :: "internal_listener \<Rightarrow> ((string + nat) \<times> internal_listener) option" where
  "il_Accept l =
     (case il_acceptCh l of
        c # cs \<Rightarrow> Some (Inr c, l\<lparr>il_acceptCh := cs\<rparr>)
      | [] \<Rightarrow> if il_closed l then Some (Inl ''listener closed'', l) else None)"

definition il_Close :: "internal_listener \<Rightarrow> internal_listener" where
  "il_Close l = (if \<not> il_closed l then l\<lparr>il_closed := True\<rparr> else l)"

section \<open>A visitor\<close>

text \<open>
  \<open>vo_bound\<close>: the local listener is open. \<open>vo_cancelled\<close>, \<open>vo_session\<close>: the context and the
  tunnel session of an XTCP visitor; \<open>vo_checkClosed\<close>: the closed channel of a SUDP visitor.
\<close>

record visitor_obj =
  vo_cfg :: visitor_conf
  vo_bound :: bool
  vo_ln :: internal_listener
  vo_cancelled :: bool
  vo_session :: bool
  vo_checkClosed :: bool

definition NewVisitor :: "visitor_conf \<Rightarrow> visitor_obj" where
  "NewVisitor cfg = \<lparr>vo_cfg = cfg, vo_bound = False, vo_ln = NewInternalListener, vo_cancelled = False,
     vo_session = False, vo_checkClosed = False\<rparr>"

text \<open>\<open>listen_err\<close>: the error of listening on the local port, if it fails.\<close>

definition visitor_Run :: "string option \<Rightarrow> visitor_obj \<Rightarrow> string option \<times> visitor_obj" where
  "visitor_Run listen_err v =
     (case vo_cfg v of
        SUDPVisitorConf b \<Rightarrow>
          (case listen_err of Some e \<Rightarrow> (Some e, v) | None \<Rightarrow> (None, v\<lparr>vo_bound := True\<rparr>))
      | STCPVisitorConf b \<Rightarrow>
          if bv_BindPort b > 0
          then (case listen_err of Some e \<Rightarrow> (Some e, v) | None \<Rightarrow> (None, v\<lparr>vo_bound := True\<rparr>))
          else (None, v)
      | XTCPVisitorConf b x \<Rightarrow>
          if bv_BindPort b > 0
          then (case listen_err of Some e \<Rightarrow> (Some e, v) | None \<Rightarrow> (None, v\<lparr>vo_bound := True\<rparr>))
          else (None, v))"

definition BaseVisitor_Close :: "visitor_obj \<Rightarrow> visitor_obj" where
  "BaseVisitor_Close v = v\<lparr>vo_bound := False, vo_ln := il_Close (vo_ln v)\<rparr>"

definition visitor_Close :: "visitor_obj \<Rightarrow> visitor_obj" where
  "visitor_Close v =
     (case vo_cfg v of
        STCPVisitorConf b \<Rightarrow> BaseVisitor_Close v
      | XTCPVisitorConf b x \<Rightarrow> (BaseVisitor_Close v)\<lparr>vo_cancelled := True, vo_session := False\<rparr>
      | SUDPVisitorConf b \<Rightarrow> if vo_checkClosed v then v else BaseVisitor_Close (v\<lparr>vo_checkClosed := True\<rparr>))"

definition AcceptConn :: "nat \<Rightarrow> visitor_obj \<Rightarrow> put_outcome \<times> visitor_obj" where
  "AcceptConn conn v = (let (r, l) = PutConn conn (vo_ln v) in (r, v\<lparr>vo_ln := l\<rparr>))"

section \<open>The manager of the visitors\<close>

text \<open>\<open>vs_dropped\<close> collects the visitors that were closed and taken out, the latest first.\<close>

record visitors_mgr =
  vs_cfgs :: "string \<rightharpoonup> visitor_conf"
  vs_visitors :: "string \<rightharpoonup> visitor_obj"
  vs_dropped :: "visitor_obj list"
  vs_stopped :: bool

definition NewVisitorsMgr :: visitors_mgr where
  "NewVisitorsMgr = \<lparr>vs_cfgs = Map.empty, vs_visitors = Map.empty, vs_dropped = [], vs_stopped = False\<rparr>"

text \<open>
  \<open>errs\<close> gives for the name of each visitor the error of listening in this call, if there is
  one; within a call each visitor is started at most once.
\<close>

definition startVisitor :: "(string \<Rightarrow> string option) \<Rightarrow> visitor_conf \<Rightarrow> visitors_mgr \<Rightarrow> visitors_mgr" where
  "startVisitor errs cfg vs =
     (let name = bv_ProxyName (visitor_GetBaseConfig cfg)
      in case visitor_Run (errs name) (NewVisitor cfg) of
           (Some e, v) \<Rightarrow> vs
         | (None, v) \<Rightarrow> vs\<lparr>vs_visitors := (vs_visitors vs)(name \<mapsto> v)\<rparr>)"

text \<open>One tick of \<open>Run\<close>, over the names of the configurations in the order of the iteration.\<close>

fun retry_loop :: "(string \<Rightarrow> string option) \<Rightarrow> string list \<Rightarrow> visitors_mgr \<Rightarrow> visitors_mgr" where
  "retry_loop errs [] vs = vs"
| "retry_loop errs (n # ns) vs =
     (case vs_cfgs vs n of
        None \<Rightarrow> retry_loop errs ns vs
      | Some cfg \<Rightarrow>
          retry_loop errs ns
            (if vs_visitors vs (bv_ProxyName (visitor_GetBaseConfig cfg)) = None then startVisitor errs cfg vs else vs))"

definition vm_tick :: "(string \<Rightarrow> string option) \<Rightarrow> string list \<Rightarrow> visitors_mgr \<Rightarrow> visitors_mgr" where
  "vm_tick errs order vs = (if vs_stopped vs then vs else retry_loop errs order vs)"

definition vm_Close :: "visitors_mgr \<Rightarrow> visitors_mgr" where
  "vm_Close vs = vs\<lparr>vs_visitors := (\<lambda>n. map_option visitor_Close (vs_visitors vs n)), vs_stopped := True\<rparr>"

fun vm_reload_del :: "(string \<rightharpoonup> visitor_conf) \<Rightarrow> string list \<Rightarrow> visitors_mgr \<Rightarrow> visitors_mgr" where
  "vm_reload_del cfgs [] vs = vs"
| "vm_reload_del cfgs (n # ns) vs =
     vm_reload_del cfgs ns
       (if vs_cfgs vs n \<noteq> None \<and> cfgs n \<noteq> vs_cfgs vs n
        then vs\<lparr>vs_cfgs := (vs_cfgs vs)(n := None), vs_visitors := (vs_visitors vs)(n := None),
                vs_dropped := (case vs_visitors vs n of None \<Rightarrow> [] | Some v \<Rightarrow> [visitor_Close v]) @ vs_dropped vs\<rparr> else vs)"

fun vm_reload_add :: "(string \<Rightarrow> string option) \<Rightarrow> (string \<rightharpoonup> visitor_conf) \<Rightarrow> string list \<Rightarrow> visitors_mgr \<Rightarrow> visitors_mgr" where
  "vm_reload_add errs cfgs [] vs = vs"
| "vm_reload_add errs cfgs (n # ns) vs =
     (case cfgs n of
        None \<Rightarrow> vm_reload_add errs cfgs ns vs
      | Some cfg \<Rightarrow>
          vm_reload_add errs cfgs ns
            (if vs_cfgs vs n = None
             then startVisitor errs cfg (vs\<lparr>vs_cfgs := (vs_cfgs vs)(n \<mapsto> cfg)\<rparr>) else vs))"

definition vm_Reload ::
    "(string \<Rightarrow> string option) \<Rightarrow> (string \<rightharpoonup> visitor_conf) \<Rightarrow> string list \<Rightarrow> string list \<Rightarrow> visitors_mgr \<Rightarrow> visitors_mgr" where
  "vm_Reload errs cfgs old_names new_names vs = vm_reload_add errs cfgs new_names (vm_reload_del cfgs old_names vs)"

definition TransferConn :: "string \<Rightarrow> nat \<Rightarrow> visitors_mgr \<Rightarrow> (string + put_outcome) \<times> visitors_mgr" where
  "TransferConn name conn vs =
     (case vs_visitors vs name of
        None \<Rightarrow> (Inl (''visitor ['' @ name @ ''] not found''), vs)
      | Some v \<Rightarrow> (let (r, v') = AcceptConn conn v in (Inr r, vs\<lparr>vs_visitors := (vs_visitors vs)(name \<mapsto> v')\<rparr>)))"

section \<open>The connection of a user\<close>

text \<open>What a visitor sends to the server for a connection of a user.\<close>

definition visitor_hello :: "digest \<Rightarrow> int \<Rightarrow> string \<Rightarrow> base_visitor_conf \<Rightarrow> first_msg" where
  "visitor_hello md5 now runID b =
     NewVisitorConnMsg runID (bv_ServerName b) now (GetAuthKey md5 (bv_Sk b) now) (bv_UseEncryption b)"

datatype visit_outcome = UserClosed | Joined | Transferred

text \<open>
  \<open>handleConn\<close> of a STCP visitor: \<open>reply\<close> is the error of the server's answer, if it comes in
  time; \<open>enc_ok\<close> says whether the encrypted stream can be set up.
\<close>

definition stcp_handleConn ::
    "digest \<Rightarrow> int \<Rightarrow> string \<Rightarrow> bool \<Rightarrow> bool \<Rightarrow> string option \<Rightarrow> bool \<Rightarrow> base_visitor_conf \<Rightarrow> first_msg option \<times> visit_outcome" where
  "stcp_handleConn md5 now runID connect_ok write_ok reply enc_ok b =
     (if \<not> connect_ok then (None, UserClosed)
      else if \<not> write_ok then (None, UserClosed)
      else (Some (visitor_hello md5 now runID b),
            case reply of
              None \<Rightarrow> UserClosed
            | Some err \<Rightarrow>
                if err \<noteq> '''' then UserClosed
                else if bv_UseEncryption b \<and> \<not> enc_ok then UserClosed
                else Joined))"

text \<open>
  \<open>getNewVisitorConn\<close> of a SUDP visitor: the message sent, the error if there is one, and
  whether the connection to the server is open afterwards.
\<close>

definition getNewVisitorConn ::
    "digest \<Rightarrow> int \<Rightarrow> string \<Rightarrow> bool \<Rightarrow> bool \<Rightarrow> string option \<Rightarrow> bool \<Rightarrow> base_visitor_conf \<Rightarrow>
     first_msg option \<times> string option \<times> bool" where
  "getNewVisitorConn md5 now runID connect_ok write_ok reply enc_ok b =
     (if \<not> connect_ok then (None, Some ''frpc connect frps error'', False)
      else if \<not> write_ok then (None, Some ''frpc send newVisitorConnMsg to frps error'', True)
      else (Some (visitor_hello md5 now runID b),
            (case reply of
               None \<Rightarrow> Some ''frpc read newVisitorConnRespMsg error''
             | Some err \<Rightarrow>
                 if err \<noteq> '''' then Some (''start new visitor connection error: '' @ err)
                 else if bv_UseEncryption b \<and> \<not> enc_ok then Some ''create encryption stream error''
                 else None),
            True))"

section \<open>Tunnels\<close>

text \<open>
  \<open>getTunnelConn\<close>: \<open>opened\<close> is what the session gives, if there is one. The flag tells that a
  new tunnel is asked for, which is heard if the worker of the tunnels is waiting.
\<close>

definition getTunnelConn :: "string + nat \<Rightarrow> visitor_obj \<Rightarrow> (string + nat) \<times> visitor_obj \<times> bool" where
  "getTunnelConn opened v =
     (case (if vo_session v then opened else Inl ''no tunnel session'') of
        Inr c \<Rightarrow> (Inr c, v, False)
      | Inl e \<Rightarrow> (Inl e, v\<lparr>vo_session := False\<rparr>, True))"

text \<open>
  What the \<open>select\<close> of \<open>openTunnel\<close> receives, with the holes that are made meanwhile. The
  context of the call ends only if there is a fallback, after its timeout.
\<close>

datatype tunnel_event = VisitorDone | CtxDone | TryOpen "string + nat" | TunnelTimeout | HoleMade

fun openTunnel :: "bool \<Rightarrow> tunnel_event list \<Rightarrow> visitor_obj \<Rightarrow> (string + nat) option \<times> visitor_obj" where
  "openTunnel timed [] v = (None, v)"
| "openTunnel timed (VisitorDone # evs) v = (Some (Inl ''context canceled''), v)"
| "openTunnel timed (CtxDone # evs) v =
     (if timed then (Some (Inl ''context deadline exceeded''), v) else openTunnel timed evs v)"
| "openTunnel timed (TryOpen opened # evs) v =
     (case getTunnelConn opened v of
        (Inr c, v, _) \<Rightarrow> (Some (Inr c), v)
      | (Inl e, v, _) \<Rightarrow> openTunnel timed evs v)"
| "openTunnel timed (TunnelTimeout # evs) v = (Some (Inl ''open tunnel timeout''), v)"
| "openTunnel timed (HoleMade # evs) v = openTunnel timed evs (v\<lparr>vo_session := True\<rparr>)"

text \<open>
  \<open>handleConn\<close> of the XTCP visitor \<open>name\<close> for the user's connection \<open>conn\<close>; \<open>None\<close>: it still
  waits.
\<close>

definition xtcp_handleConn ::
    "tunnel_event list \<Rightarrow> bool \<Rightarrow> nat \<Rightarrow> string \<Rightarrow> base_visitor_conf \<Rightarrow> xtcp_visitor_fields \<Rightarrow> visitor_obj \<Rightarrow> visitors_mgr \<Rightarrow>
     visit_outcome option \<times> visitors_mgr" where
  "xtcp_handleConn evs enc_ok conn name b x v vs =
     (case openTunnel (xv_FallbackTo x \<noteq> '''') evs v of
        (None, v) \<Rightarrow> (None, vs\<lparr>vs_visitors := (vs_visitors vs)(name \<mapsto> v)\<rparr>)
      | (Some res, v) \<Rightarrow>
          (let vs = vs\<lparr>vs_visitors := (vs_visitors vs)(name \<mapsto> v)\<rparr>
           in case res of
                Inr c \<Rightarrow> (Some (if bv_UseEncryption b \<and> \<not> enc_ok then UserClosed else Joined), vs)
              | Inl e \<Rightarrow>
                  if xv_FallbackTo x = '''' then (Some UserClosed, vs)
                  else (case TransferConn (xv_FallbackTo x) conn vs of
                          (Inl _, vs) \<Rightarrow> (Some UserClosed, vs)
                        | (Inr PutPanicked, vs) \<Rightarrow> (Some UserClosed, vs)
                        | (Inr _, vs) \<Rightarrow> (Some Transferred, vs))))"

text \<open>
  \<open>makeNatHole\<close>: the steps that may fail, with the addresses found by the second one; the
  message to the server, and the visitor with its session if all succeed.
\<close>

definition makeNatHole ::
    "digest \<Rightarrow> int \<Rightarrow> string \<Rightarrow> bool \<Rightarrow> (string list \<times> string list) option \<Rightarrow> bool \<Rightarrow> bool \<Rightarrow> bool \<Rightarrow>
     base_visitor_conf \<Rightarrow> xtcp_visitor_fields \<Rightarrow> visitor_obj \<Rightarrow> nh_visitor option \<times> visitor_obj" where
  "makeNatHole md5 now tid precheck_ok prepared exchange_ok hole_ok init_ok b x v =
     (if \<not> precheck_ok then (None, v)
      else case prepared of
             None \<Rightarrow> (None, v)
           | Some (addrs, assisted) \<Rightarrow>
               (Some \<lparr>nv_TransactionID = tid, nv_ProxyName = bv_ServerName b, nv_PreCheck = False,
                      nv_Protocol = xv_Protocol x, nv_SignKey = GetAuthKey md5 (bv_Sk b) now, nv_Timestamp = now,
                      nv_MappedAddrs = addrs, nv_AssistedAddrs = assisted\<rparr>,
                if exchange_ok \<and> hole_ok \<and> init_ok then v\<lparr>vo_session := True\<rparr> else v))"

section \<open>Lemmas on the manager\<close>

fun wants_port :: "visitor_conf \<Rightarrow> bool" where
  "wants_port (SUDPVisitorConf b) \<longleftrightarrow> True"
| "wants_port (STCPVisitorConf b) \<longleftrightarrow> bv_BindPort b > 0"
| "wants_port (XTCPVisitorConf b x) \<longleftrightarrow> bv_BindPort b > 0"

text \<open>The visitor that a start leaves in the map.\<close>

definition started :: "(string \<Rightarrow> string option) \<Rightarrow> visitor_conf \<Rightarrow> visitor_obj option" where
  "started errs c =
     (if wants_port c \<and> errs (bv_ProxyName (visitor_GetBaseConfig c)) \<noteq> None then None
      else Some ((NewVisitor c)\<lparr>vo_bound := wants_port c\<rparr>))"

lemma startVisitor_eq:
  "startVisitor errs c vs =
     (case started errs c of None \<Rightarrow> vs
      | Some v \<Rightarrow> vs\<lparr>vs_visitors := (vs_visitors vs)(bv_ProxyName (visitor_GetBaseConfig c) \<mapsto> v)\<rparr>)"
  by (cases c) (auto simp: startVisitor_def started_def visitor_Run_def NewVisitor_def Let_def split: option.splits)

lemma started_cfg: "started errs c = Some v \<Longrightarrow>
    vo_cfg v = c \<and> vo_ln v = NewInternalListener \<and> vo_bound v = wants_port c \<and> \<not> vo_checkClosed v"
  by (auto simp: started_def NewVisitor_def split: if_splits)

lemma retry_loop_spec:
  assumes "vkeyed (vs_cfgs vs)"
  shows "retry_loop errs ns vs = vs\<lparr>vs_visitors := (\<lambda>n.
    if n \<in> set ns \<and> vs_visitors vs n = None then Option.bind (vs_cfgs vs n) (started errs) else vs_visitors vs n)\<rparr>"
  using assms
proof (induction ns arbitrary: vs)
  case (Cons m ns)
  show ?case
  proof (cases "vs_cfgs vs m")
    case None
    then show ?thesis using Cons by (auto simp: fun_eq_iff intro!: visitors_mgr.equality)
  next
    case (Some c)
    then have m: "bv_ProxyName (visitor_GetBaseConfig c) = m" using Cons.prems by (auto simp: vkeyed_def)
    define vs1 where "vs1 = (if vs_visitors vs m = None then startVisitor errs c vs else vs)"
    have vs1: "vs1 = vs\<lparr>vs_visitors := (vs_visitors vs)(m := (if vs_visitors vs m = None then started errs c else vs_visitors vs m))\<rparr>"
      by (cases "started errs c") (auto simp: vs1_def startVisitor_eq m fun_upd_idem_iff intro!: visitors_mgr.equality)
    have "retry_loop errs (m # ns) vs = retry_loop errs ns vs1" by (simp add: Some m vs1_def)
    also have "\<dots> = vs1\<lparr>vs_visitors := (\<lambda>n.
        if n \<in> set ns \<and> vs_visitors vs1 n = None then Option.bind (vs_cfgs vs1 n) (started errs) else vs_visitors vs1 n)\<rparr>"
      by (rule Cons.IH) (simp add: Cons.prems vs1)
    also have "\<dots> = vs\<lparr>vs_visitors := (\<lambda>n.
        if n \<in> set (m # ns) \<and> vs_visitors vs n = None then Option.bind (vs_cfgs vs n) (started errs) else vs_visitors vs n)\<rparr>"
      by (rule visitors_mgr.equality) (auto simp: vs1 fun_eq_iff Some)
    finally show ?thesis .
  qed
qed simp

lemma vm_reload_del_spec:
  "distinct ns \<Longrightarrow>
   vs_cfgs (vm_reload_del cfgs ns vs) = (\<lambda>n. if n \<in> set ns \<and> cfgs n \<noteq> vs_cfgs vs n then None else vs_cfgs vs n) \<and>
   vs_visitors (vm_reload_del cfgs ns vs) =
     (\<lambda>n. if n \<in> set ns \<and> vs_cfgs vs n \<noteq> None \<and> cfgs n \<noteq> vs_cfgs vs n then None else vs_visitors vs n) \<and>
   vs_stopped (vm_reload_del cfgs ns vs) = vs_stopped vs"
  by (induction ns arbitrary: vs) (auto simp: fun_eq_iff)

lemma vm_reload_del_dropped:
  "v \<in> set (vs_dropped (vm_reload_del cfgs ns vs)) \<Longrightarrow>
   v \<in> set (vs_dropped vs) \<or> (\<exists>n w. vs_visitors vs n = Some w \<and> v = visitor_Close w)"
proof (induction ns arbitrary: vs)
  case (Cons n ns)
  then show ?case by (force split: if_splits option.splits)
qed simp

lemma vm_reload_add_spec:
  assumes "vkeyed cfgs"
  shows "vm_reload_add errs cfgs ns vs = vs\<lparr>
     vs_cfgs := (\<lambda>n. if n \<in> set ns \<and> vs_cfgs vs n = None then cfgs n else vs_cfgs vs n),
     vs_visitors := (\<lambda>n. if n \<in> set ns \<and> vs_cfgs vs n = None \<and> cfgs n \<noteq> None \<and> started errs (the (cfgs n)) \<noteq> None
        then started errs (the (cfgs n)) else vs_visitors vs n)\<rparr>"
proof (induction ns arbitrary: vs)
  case (Cons m ns)
  show ?case
  proof (cases "cfgs m")
    case None
    then show ?thesis using Cons by (auto simp: fun_eq_iff intro!: visitors_mgr.equality)
  next
    case (Some c)
    then have m: "bv_ProxyName (visitor_GetBaseConfig c) = m" using assms by (auto simp: vkeyed_def)
    show ?thesis
    proof (cases "vs_cfgs vs m")
      case None
      have "vm_reload_add errs cfgs (m # ns) vs = vm_reload_add errs cfgs ns (startVisitor errs c (vs\<lparr>vs_cfgs := (vs_cfgs vs)(m \<mapsto> c)\<rparr>))"
        by (simp add: Some None)
      then show ?thesis
        unfolding Cons.IH startVisitor_eq m
        by (cases "started errs c") (auto simp: fun_eq_iff Some None intro!: visitors_mgr.equality)
    next
      case c': (Some c')
      have "vm_reload_add errs cfgs (m # ns) vs = vm_reload_add errs cfgs ns vs" by (simp add: Some c')
      then show ?thesis
        unfolding Cons.IH by (intro visitors_mgr.equality) (auto simp: fun_eq_iff Some c')
    qed
  qed
qed simp

section \<open>Properties of the manager\<close>

text \<open>
  A reload of the visitors is exact: whatever the order of the iterations, the new
  configurations are in force, a visitor whose configuration is unchanged is kept as it is,
  running or not, every other configured one is started afresh, if its port can be bound, and
  the visitors of removed and changed configurations are gone. One that could not be started is
  tried again with every tick, independently of the others, until it runs.
\<close>

theorem visitors_reload_exact:
  assumes "vkeyed cfgs" and "distinct old_names" and "set old_names = dom (vs_cfgs vs)" and "set new_names = dom cfgs"
    and "dom (vs_visitors vs) \<subseteq> dom (vs_cfgs vs)" and "vs' = vm_Reload errs cfgs old_names new_names vs"
  shows "vs_cfgs vs' = cfgs \<and>
    (\<forall>n. vs_visitors vs' n =
      (if cfgs n = vs_cfgs vs n then vs_visitors vs n else Option.bind (cfgs n) (started errs))) \<and>
    (\<forall>n. vs_visitors (vm_tick errs' new_names vs') n =
      (if vs_visitors vs' n = None \<and> \<not> vs_stopped vs then Option.bind (cfgs n) (started errs') else vs_visitors vs' n))"
proof -
  let ?vs1 = "vm_reload_del cfgs old_names vs"
  have c1: "vs_cfgs ?vs1 = (\<lambda>n. if cfgs n \<noteq> vs_cfgs vs n then None else vs_cfgs vs n)"
    using vm_reload_del_spec [OF assms(2), of cfgs vs] assms(3) by (auto simp: fun_eq_iff domIff)
  have v1: "vs_visitors ?vs1 = (\<lambda>n. if cfgs n \<noteq> vs_cfgs vs n then None else vs_visitors vs n)"
    using vm_reload_del_spec [OF assms(2), of cfgs vs] assms(3,5) by (auto simp: fun_eq_iff)
  have s1: "vs_stopped vs' = vs_stopped vs"
    using vm_reload_del_spec [OF assms(2), of cfgs vs] by (simp add: assms(6) vm_Reload_def vm_reload_add_spec [OF assms(1)])
  have c: "vs_cfgs vs' = cfgs"
    by (auto simp: assms(4,6) vm_Reload_def vm_reload_add_spec [OF assms(1)] c1 fun_eq_iff domIff)
  have "vs_visitors vs' n = (if cfgs n = vs_cfgs vs n then vs_visitors vs n else Option.bind (cfgs n) (started errs))" for n
    using assms(5) by (cases "cfgs n") (auto simp: assms(4,6) vm_Reload_def vm_reload_add_spec [OF assms(1)] c1 v1 domIff)
  moreover have "vs_visitors (vm_tick errs' new_names vs') n =
      (if vs_visitors vs' n = None \<and> \<not> vs_stopped vs then Option.bind (cfgs n) (started errs') else vs_visitors vs' n)" for n
    using retry_loop_spec [of vs' errs' new_names] assms(1) by (cases "cfgs n") (auto simp: vm_tick_def c s1 assms(4) domIff)
  ultimately show ?thesis using c by blast
qed

definition demo_visitor :: base_visitor_conf where
  "demo_visitor = zero_visitor\<lparr>bv_ProxyName := ''ssh_v'', bv_Role := ''visitor'', bv_Sk := ''k'',
     bv_ServerName := ''bob.ssh'', bv_BindAddr := ''127.0.0.1'', bv_BindPort := 9000\<rparr>"

theorem visitors_reload_exact_witness:
  "vs_visitors (vm_tick (\<lambda>_. None) [''ssh_v''] (vm_Reload (\<lambda>_. Some ''in use'') [''ssh_v'' \<mapsto> STCPVisitorConf demo_visitor] [] [''ssh_v''] NewVisitorsMgr)) ''ssh_v'' =
     Some ((NewVisitor (STCPVisitorConf demo_visitor))\<lparr>vo_bound := True\<rparr>)"
proof -
  have "vkeyed [''ssh_v'' \<mapsto> STCPVisitorConf demo_visitor]" by (auto simp: vkeyed_def demo_visitor_def)
  from visitors_reload_exact [OF this, of "[]" NewVisitorsMgr "[''ssh_v'']" _ "\<lambda>_. Some ''in use''", OF _ _ _ _ refl, of "\<lambda>_. None"]
  show ?thesis by (simp add: NewVisitorsMgr_def started_def demo_visitor_def)
qed

section \<open>Every run of the manager\<close>

text \<open>
  The steps: reloads, ticks, shutdown, connections handed over, and connections of users with
  all that happens to the tunnel meanwhile.
\<close>

inductive vm_step :: "visitors_mgr \<Rightarrow> visitors_mgr \<Rightarrow> bool" where
  reload: "vkeyed cfgs \<Longrightarrow> distinct old \<Longrightarrow> set old = dom (vs_cfgs vs) \<Longrightarrow> set new = dom cfgs \<Longrightarrow>
    vm_step vs (vm_Reload errs cfgs old new vs)"
| tick: "vm_step vs (vm_tick errs order vs)"
| close: "vm_step vs (vm_Close vs)"
| transfer: "TransferConn name conn vs = (res, vs') \<Longrightarrow> vm_step vs vs'"
| user: "vs_visitors vs n = Some v \<Longrightarrow> vo_cfg v = XTCPVisitorConf b x \<Longrightarrow>
    xtcp_handleConn evs enc_ok conn n b x v vs = (res, vs') \<Longrightarrow> vm_step vs vs'"

inductive vm_reachable :: "visitors_mgr \<Rightarrow> bool" where
  start: "vm_reachable NewVisitorsMgr"
| step: "vm_reachable vs \<Longrightarrow> vm_step vs vs' \<Longrightarrow> vm_reachable vs'"

definition closed_visitor :: "visitor_obj \<Rightarrow> bool" where
  "closed_visitor v \<longleftrightarrow> \<not> vo_bound v \<and> il_closed (vo_ln v)"

definition open_visitor :: "visitor_obj \<Rightarrow> bool" where
  "open_visitor v \<longleftrightarrow> vo_bound v = wants_port (vo_cfg v) \<and> \<not> il_closed (vo_ln v) \<and> \<not> vo_checkClosed v"

definition slot_ok :: "bool \<Rightarrow> visitor_conf option \<Rightarrow> visitor_obj option \<Rightarrow> bool" where
  "slot_ok stopped c v \<longleftrightarrow>
     (\<forall>w. v = Some w \<longrightarrow> c = Some (vo_cfg w) \<and> (open_visitor w \<or> stopped \<and> closed_visitor w))"

definition vm_inv :: "visitors_mgr \<Rightarrow> bool" where
  "vm_inv vs \<longleftrightarrow> vkeyed (vs_cfgs vs) \<and> (\<forall>v \<in> set (vs_dropped vs). closed_visitor v) \<and>
     (\<forall>n. slot_ok (vs_stopped vs) (vs_cfgs vs n) (vs_visitors vs n))"

lemma visitor_Close_closed:
  "open_visitor v \<or> closed_visitor v \<Longrightarrow> closed_visitor (visitor_Close v) \<and> vo_cfg (visitor_Close v) = vo_cfg v"
  by (cases "vo_cfg v") (auto simp: visitor_Close_def BaseVisitor_Close_def closed_visitor_def open_visitor_def il_Close_def)

lemma started_open: "started errs c = Some v \<Longrightarrow> slot_ok s (Some c) (Some v)"
  by (auto simp: started_def slot_ok_def open_visitor_def NewVisitor_def NewInternalListener_def split: if_splits)

lemma started_slot: "slot_ok s c (Option.bind c (started errs))"
  by (cases c; cases "Option.bind c (started errs)") (auto simp: started_open, auto simp: slot_ok_def)

lemma vm_Reload_dropped:
  assumes "v \<in> set (vs_dropped (vm_Reload errs cfgs old new vs))" and "vkeyed cfgs"
  shows "v \<in> set (vs_dropped vs) \<or> (\<exists>n w. vs_visitors vs n = Some w \<and> v = visitor_Close w)"
  using vm_reload_del_dropped [of v cfgs old vs] assms by (simp add: vm_Reload_def vm_reload_add_spec)

lemma vm_inv_put:
  assumes "vm_inv vs" and "vs_visitors vs n = Some v" and "vo_cfg v' = vo_cfg v"
    and "open_visitor v \<Longrightarrow> open_visitor v'" and "closed_visitor v \<Longrightarrow> closed_visitor v'"
  shows "vm_inv (vs\<lparr>vs_visitors := (vs_visitors vs)(n \<mapsto> v')\<rparr>)"
  using assms by (auto simp: vm_inv_def slot_ok_def)

lemma TransferConn_inv:
  assumes "vm_inv vs" and "TransferConn name conn vs = (res, vs')"
  shows "vm_inv vs'"
proof (cases "vs_visitors vs name")
  case None
  then show ?thesis using assms by (simp add: TransferConn_def)
next
  case (Some v)
  obtain r v' where a: "AcceptConn conn v = (r, v')" by force
  then have "vs' = vs\<lparr>vs_visitors := (vs_visitors vs)(name \<mapsto> v')\<rparr>" using assms(2) Some by (simp add: TransferConn_def)
  moreover have "vo_cfg v' = vo_cfg v" "open_visitor v \<Longrightarrow> open_visitor v'" "closed_visitor v \<Longrightarrow> closed_visitor v'"
    using a by (auto simp: AcceptConn_def PutConn_def open_visitor_def closed_visitor_def split: if_splits)
  ultimately show ?thesis using vm_inv_put [OF assms(1) Some] by simp
qed

lemma openTunnel_session: "\<exists>s. snd (openTunnel timed evs v) = v\<lparr>vo_session := s\<rparr>"
proof (induction timed evs v rule: openTunnel.induct)
  case (1 timed v)
  show ?case by (intro exI [of _ "vo_session v"]) simp
next
  case (2 timed evs v)
  show ?case by (intro exI [of _ "vo_session v"]) simp
next
  case (3 timed evs v)
  show ?case
  proof (cases timed)
    case True
    then show ?thesis by (intro exI [of _ "vo_session v"]) simp
  next
    case False
    then show ?thesis using "3.IH" by simp
  qed
next
  case (4 timed opened evs v)
  obtain r v' flag where g: "getTunnelConn opened v = (r, v', flag)" by (cases "getTunnelConn opened v") auto
  then obtain s where v': "v' = v\<lparr>vo_session := s\<rparr>"
    by (auto simp: getTunnelConn_def split: sum.splits if_splits intro: that [of "vo_session v"] that [of False])
  show ?case
  proof (cases r)
    case (Inl e)
    then have "\<exists>s. snd (openTunnel timed evs v') = v'\<lparr>vo_session := s\<rparr>" using "4.IH" [OF g [symmetric] Inl refl] by simp
    then show ?thesis using g Inl v' by auto
  next
    case (Inr c)
    then show ?thesis using g v' by auto
  qed
next
  case (5 timed evs v)
  show ?case by (intro exI [of _ "vo_session v"]) simp
next
  case (6 timed evs v)
  then show ?case by auto
qed

lemma xtcp_handleConn_inv:
  assumes "vm_inv vs" and "vs_visitors vs n = Some v" and "xtcp_handleConn evs enc_ok conn n b x v vs = (res, vs')"
  shows "vm_inv vs'"
proof -
  obtain r v' where o: "openTunnel (xv_FallbackTo x \<noteq> '''') evs v = (r, v')" by force
  then obtain s where v': "v' = v\<lparr>vo_session := s\<rparr>" using openTunnel_session [of "xv_FallbackTo x \<noteq> ''''" evs v] by auto
  let ?vs1 = "vs\<lparr>vs_visitors := (vs_visitors vs)(n \<mapsto> v')\<rparr>"
  have inv: "vm_inv ?vs1"
    by (rule vm_inv_put [OF assms(1,2)]) (auto simp: v' open_visitor_def closed_visitor_def)
  obtain tr vs2 where t: "TransferConn (xv_FallbackTo x) conn ?vs1 = (tr, vs2)" by force
  have "vs' = ?vs1 \<or> vs' = vs2"
    using assms(3) o t
    by (auto simp: xtcp_handleConn_def Let_def split: option.splits sum.splits if_splits put_outcome.splits prod.splits)
  then show ?thesis using inv TransferConn_inv [OF inv t] by auto
qed

lemma vm_tick_inv:
  assumes "vm_inv vs"
  shows "vm_inv (vm_tick errs order vs)"
proof -
  have v: "vkeyed (vs_cfgs vs)" and s: "slot_ok (vs_stopped vs) (vs_cfgs vs n) (vs_visitors vs n)" for n
    using assms by (simp_all add: vm_inv_def)
  show ?thesis
  proof (cases "vs_stopped vs")
    case True
    then show ?thesis using assms by (simp add: vm_tick_def)
  next
    case False
    then have "slot_ok False (vs_cfgs vs n) (vs_visitors vs n)" for n using s by metis
    then show ?thesis using assms False started_slot by (simp add: vm_tick_def vm_inv_def retry_loop_spec [OF v])
  qed
qed

lemma vm_Reload_inv:
  assumes "vm_inv vs" and "vkeyed cfgs" and "distinct old" and "set old = dom (vs_cfgs vs)" and "set new = dom cfgs"
  shows "vm_inv (vm_Reload errs cfgs old new vs)"
proof -
  let ?vs1 = "vm_reload_del cfgs old vs"
  have slot: "slot_ok (vs_stopped vs) (vs_cfgs vs n) (vs_visitors vs n)" for n using assms(1) by (simp add: vm_inv_def)
  then have none: "vs_cfgs vs n = None \<Longrightarrow> vs_visitors vs n = None" for n
    by (cases "vs_visitors vs n") (auto simp: slot_ok_def)
  have c1: "vs_cfgs ?vs1 = (\<lambda>n. if cfgs n \<noteq> vs_cfgs vs n then None else vs_cfgs vs n)"
    using vm_reload_del_spec [OF assms(3), of cfgs vs] assms(4) by (auto simp: fun_eq_iff domIff)
  have v1: "vs_visitors ?vs1 = (\<lambda>n. if cfgs n \<noteq> vs_cfgs vs n then None else vs_visitors vs n)"
    using vm_reload_del_spec [OF assms(3), of cfgs vs] assms(4) none by (auto simp: fun_eq_iff)
  have s1: "vs_stopped ?vs1 = vs_stopped vs" using vm_reload_del_spec [OF assms(3), of cfgs vs] by simp
  have c: "vs_cfgs (vm_Reload errs cfgs old new vs) = cfgs"
    by (auto simp: assms(5) vm_Reload_def vm_reload_add_spec [OF assms(2)] c1 fun_eq_iff domIff)
  have v: "vs_visitors (vm_Reload errs cfgs old new vs) n =
      (if cfgs n = vs_cfgs vs n then vs_visitors vs n else Option.bind (cfgs n) (started errs))" for n
    using none by (cases "cfgs n") (auto simp: assms(5) vm_Reload_def vm_reload_add_spec [OF assms(2)] c1 v1 domIff)
  have s: "vs_stopped (vm_Reload errs cfgs old new vs) = vs_stopped vs"
    by (simp add: vm_Reload_def vm_reload_add_spec [OF assms(2)] s1)
  have "slot_ok (vs_stopped vs) (cfgs n) (vs_visitors (vm_Reload errs cfgs old new vs) n)" for n
    using slot [of n] started_slot by (auto simp: v)
  moreover have "closed_visitor w" if w: "w \<in> set (vs_dropped (vm_Reload errs cfgs old new vs))" for w
    using vm_Reload_dropped [OF w assms(2)]
  proof (elim disjE exE conjE)
    assume "w \<in> set (vs_dropped vs)" then show ?thesis using assms(1) by (simp add: vm_inv_def)
  next
    fix n u assume u: "vs_visitors vs n = Some u" "w = visitor_Close u"
    then have "open_visitor u \<or> closed_visitor u" using slot [of n] by (auto simp: slot_ok_def)
    then show ?thesis using visitor_Close_closed u(2) by simp
  qed
  ultimately show ?thesis using assms(2) by (simp add: vm_inv_def c s)
qed

lemma vm_Close_inv: "vm_inv vs \<Longrightarrow> vm_inv (vm_Close vs)"
  using visitor_Close_closed by (fastforce simp: vm_inv_def vm_Close_def slot_ok_def)

lemma vm_reachable_inv: "vm_reachable vs \<Longrightarrow> vm_inv vs"
proof (induction rule: vm_reachable.induct)
  case start
  show ?case by (simp add: vm_inv_def NewVisitorsMgr_def vkeyed_def slot_ok_def)
next
  case (step vs vs')
  from step.hyps(2) step.IH show ?case
    by (cases rule: vm_step.cases) (auto intro: vm_Reload_inv vm_tick_inv vm_Close_inv TransferConn_inv xtcp_handleConn_inv)
qed

text \<open>
  (C10) The visitors follow their configuration in every run, over reloads, retries, handed-over
  connections and tunnels that come and go: each visitor in the manager belongs to exactly the
  configuration in force under its name; until the shutdown it is open and holds its local
  port exactly if its configuration calls for one; every visitor that was taken out is closed and
  has given its port back; and right after a shutdown all are closed.
\<close>

theorem visitors_follow_conf:
  assumes "vm_reachable vs" and "vs_visitors vs n = Some v"
  shows "vs_cfgs vs n = Some (vo_cfg v) \<and> bv_ProxyName (visitor_GetBaseConfig (vo_cfg v)) = n \<and>
    (\<not> vs_stopped vs \<longrightarrow> vo_bound v = wants_port (vo_cfg v) \<and> \<not> il_closed (vo_ln v)) \<and>
    (w \<in> set (vs_dropped vs) \<longrightarrow> \<not> vo_bound w \<and> il_closed (vo_ln w)) \<and>
    (vs_visitors (vm_Close vs) n = Some u \<longrightarrow> \<not> vo_bound u \<and> il_closed (vo_ln u))"
proof -
  have inv: "vm_inv vs" using vm_reachable_inv [OF assms(1)] .
  then have s: "slot_ok (vs_stopped vs) (vs_cfgs vs n) (Some v)" using assms(2) unfolding vm_inv_def by metis
  then have "open_visitor v \<or> closed_visitor v" by (auto simp: slot_ok_def)
  from visitor_Close_closed [OF this] show ?thesis
    using inv s assms(2) by (auto simp: vm_inv_def slot_ok_def open_visitor_def closed_visitor_def vkeyed_def vm_Close_def)
qed

definition demo_visitors :: visitors_mgr where
  "demo_visitors = vm_Reload (\<lambda>_. None) [''ssh_v'' \<mapsto> STCPVisitorConf demo_visitor] [] [''ssh_v''] NewVisitorsMgr"

lemma demo_visitors_eq:
  "demo_visitors = \<lparr>vs_cfgs = [''ssh_v'' \<mapsto> STCPVisitorConf demo_visitor],
     vs_visitors = [''ssh_v'' \<mapsto> (NewVisitor (STCPVisitorConf demo_visitor))\<lparr>vo_bound := True\<rparr>], vs_dropped = [], vs_stopped = False\<rparr>"
  by (simp add: demo_visitors_def vm_Reload_def NewVisitorsMgr_def startVisitor_def visitor_Run_def demo_visitor_def Let_def
      NewVisitor_def)

lemma demo_visitors_reachable: "vm_reachable demo_visitors"
  unfolding demo_visitors_def
  by (rule vm_reachable.step [OF vm_reachable.start vm_step.reload]) (auto simp: vkeyed_def demo_visitor_def NewVisitorsMgr_def)

theorem visitors_follow_conf_witness:
  "vo_bound ((NewVisitor (STCPVisitorConf demo_visitor))\<lparr>vo_bound := True\<rparr>) = wants_port (STCPVisitorConf demo_visitor)"
proof -
  let ?v = "(NewVisitor (STCPVisitorConf demo_visitor))\<lparr>vo_bound := True\<rparr>"
  have "vs_visitors demo_visitors ''ssh_v'' = Some ?v" by (simp add: demo_visitors_eq)
  note f = visitors_follow_conf [OF demo_visitors_reachable this, where u = ?v and w = ?v]
  have "\<not> vs_stopped demo_visitors" by (simp add: demo_visitors_eq)
  with f have "vo_bound ?v = wants_port (vo_cfg ?v)" by blast
  moreover have "vo_cfg ?v = STCPVisitorConf demo_visitor" by (simp add: NewVisitor_def)
  ultimately show ?thesis by (simp only:)
qed

section \<open>A secret visit\<close>

lemma GetAuthKey_inj:
  "inj md5 \<Longrightarrow> (\<And>s. \<forall>b \<in> set (md5 s). b < 256) \<Longrightarrow> GetAuthKey md5 a t = GetAuthKey md5 b t \<longleftrightarrow> a = b"
  using hex_encode_inj [of "md5 (a @ show_int t)" "md5 (b @ show_int t)"] by (auto simp: GetAuthKey_def dest: injD)

definition admits :: "role_server_conf \<Rightarrow> string \<Rightarrow> string \<Rightarrow> bool" where
  "admits r owner user \<longleftrightarrow>
     (if rs_AllowUsers r = [] then user = owner \<or> owner = ''*'' else user \<in> set (rs_AllowUsers r) \<or> ''*'' \<in> set (rs_AllowUsers r))"

lemma STCPProxy_Run_listens:
  assumes "STCPProxy_Run re px r = (Inr res, re')"
  shows "re_visitors re' (px_name px) =
    Some \<lparr>lb_listener = re_next re, lb_sk = rs_Sk r, lb_allowUsers = allow_users_of (rs_AllowUsers r) (px_user px)\<rparr>"
  using assms by (auto simp: STCPProxy_Run_def visitor_Listen_def split: option.splits)

lemma visit_answer:
  assumes "re_visitors (sv_rc sv) (bv_ServerName b) = Some l" and "runID \<noteq> ''''" and "ctls_GetByID runID sv = Some cid"
    and "inj (ce_md5 ce)" and "\<And>s. \<forall>b \<in> set (ce_md5 ce s). b < 256" and "ce_enc_ok ce" and "ce_put_ok ce" and "\<And>e. ce_visitor_text ce e \<noteq> ''''"
  shows "\<exists>err. handleConnection ce conn (visitor_hello (ce_md5 ce) now runID b) sv = (Some (NewVisitorConnResp (bv_ServerName b) err), err \<noteq> '''', sv) \<and>
    (err = '''' \<longleftrightarrow> bv_Sk b = lb_sk l \<and>
       (lm_User (ct_loginMsg (sv_ctls sv cid)) \<in> set (lb_allowUsers l) \<or> ''*'' \<in> set (lb_allowUsers l)))"
  using assms(1-3,6-) GetAuthKey_inj [OF assms(4,5), of "lb_sk l" now "bv_Sk b"]
  by (auto simp: handleConnection_def visitor_hello_def RegisterVisitorConn_def visitor_NewConn_def Let_def
      GenerateResponseErrorString_def split: sum.splits)


definition demo_secret :: role_server_conf where
  "demo_secret = zero_role\<lparr>rs_Role := ''server'', rs_Sk := ''k''\<rparr>"

definition demo_stcp :: base_proxy_conf where
  "demo_stcp = zero_base\<lparr>bc_ProxyName := ''bob.ssh'', bc_ProxyType := ''stcp''\<rparr>"

definition demo_sv_secret :: server where
  "demo_sv_secret = demo_sv1\<lparr>sv_rc := snd (STCPProxy_Run (sv_rc demo_sv1) (NewProxy ''bob'' (STCPProxyConf demo_stcp demo_secret)) demo_secret)\<rparr>"

definition demo_ce :: conn_env where
  "demo_ce = \<lparr>ce_md5 = map of_char, ce_rand = (\<lambda>_. None), ce_login_plugin = Inr, ce_work_plugin = Some, ce_api = demo_api,
     ce_now = 0, ce_order = [], ce_enc_ok = True, ce_put_ok = True, ce_login_text = (\<lambda>_. ''refused''), ce_visitor_text = (\<lambda>_. ''refused'')\<rparr>"

definition demo_section :: base_visitor_conf where
  "demo_section = zero_visitor\<lparr>bv_Role := ''visitor'', bv_Sk := ''k'', bv_ServerUser := ''bob'', bv_ServerName := ''ssh'', bv_BindPort := 9000\<rparr>"


section \<open>Fallback and failed visits\<close>

text \<open>
  The name of the fallback is not prefixed with the user of the client, as all other names are:
  with a user, a fallback written as the section's name is never found, and the user's connection
  is closed.
\<close>

theorem fallback_misses_prefix:
  assumes "vm_reachable vs" and "\<And>m. vs_cfgs vs m \<noteq> None \<Longrightarrow> has_prefix m (user @ ''.'')"
    and "vs_visitors vs n = Some v" and "vo_cfg v = XTCPVisitorConf b x"
    and "xv_FallbackTo x \<noteq> ''''" and "\<not> has_prefix (xv_FallbackTo x) (user @ ''.'')"
    and "openTunnel True evs v = (Some (Inl e), v')"
  shows "xtcp_handleConn evs enc_ok conn n b x v vs = (Some UserClosed, vs\<lparr>vs_visitors := (vs_visitors vs)(n \<mapsto> v')\<rparr>)"
proof -
  have "vm_inv vs" by (rule vm_reachable_inv [OF assms(1)])
  then have slot: "slot_ok (vs_stopped vs) (vs_cfgs vs m) (vs_visitors vs m)" for m by (simp add: vm_inv_def)
  have sub: "vs_visitors vs m = None" if "vs_cfgs vs m = None" for m
    using slot [of m] that by (cases "vs_visitors vs m") (auto simp: slot_ok_def)
  have "vs_cfgs vs (xv_FallbackTo x) = None" using assms(2,6) by blast
  moreover have "xv_FallbackTo x \<noteq> n" using sub calculation assms(3) by auto
  ultimately show ?thesis
    using sub assms(5,7) by (simp add: xtcp_handleConn_def TransferConn_def Let_def)
qed

text \<open>
  A visitor that is its own fallback gets each connection that it could not serve back into
  its own queue, without end.
\<close>

theorem fallback_to_itself:
  assumes "vs_visitors vs n = Some v" and "xv_FallbackTo x = n" and "n \<noteq> ''''"
    and "openTunnel True evs v = (Some (Inl e), v')" and "il_acceptCh (vo_ln v) = []" and "\<not> il_closed (vo_ln v)"
  shows "\<exists>vs' w. xtcp_handleConn evs enc_ok conn n b x v vs = (Some Transferred, vs') \<and> vs_visitors vs' n = Some w \<and>
    il_Accept (vo_ln w) = Some (Inr conn, vo_ln v)"
proof -
  obtain s where "v' = v\<lparr>vo_session := s\<rparr>" using openTunnel_session [of True evs v] assms(4) by auto
  then show ?thesis
    using assms by (simp add: xtcp_handleConn_def TransferConn_def AcceptConn_def PutConn_def il_Accept_def Let_def)
qed

text \<open>After a refusal by the server, a SUDP visitor leaves its connection to the server open.\<close>

theorem refused_visit_left_open:
  "err \<noteq> '''' \<Longrightarrow> getNewVisitorConn md5 now runID True True (Some err) enc_ok b =
     (Some (visitor_hello md5 now runID b), Some (''start new visitor connection error: '' @ err), True)"
  by (simp add: getNewVisitorConn_def)

end
