(* ===== verification/Frp_Settings.thy ===== *)
theory Frp_Settings
  imports Frp_VisitorConf Frp_Auth
begin

text \<open>
  The settings of server and client and the loading of configuration files
  (\<open>pkg/config/server.go\<close>, \<open>client.go\<close>, \<open>parse.go\<close>, with the defaults of \<open>pkg/auth\<close>). The ini
  library, the validator of structs, the package lo, the file system and the rendering of
  templates are arguments: a file is what the library has read of it, the list of its sections
  in order, each with its name and the hash of its keys; a missing key reads as the empty string.
\<close>

section \<open>Authentication\<close>

record base_auth =
  ba_AuthenticationMethod :: string
  ba_AuthenticateHeartBeats :: bool
  ba_AuthenticateNewWorkConns :: bool

definition getDefaultBaseConf :: base_auth where
  "getDefaultBaseConf = \<lparr>ba_AuthenticationMethod = ''token'', ba_AuthenticateHeartBeats = False, ba_AuthenticateNewWorkConns = False\<rparr>"

record oidc_client =
  oc_ClientID :: string
  oc_ClientSecret :: string
  oc_Audience :: string
  oc_Scope :: string
  oc_TokenEndpointURL :: string
  oc_AdditionalEndpointParams :: str_map

record oidc_server =
  os_Issuer :: string
  os_Audience :: string
  os_SkipExpiryCheck :: bool
  os_SkipIssuerCheck :: bool

definition getDefaultOidcClientConf :: oidc_client where
  "getDefaultOidcClientConf = \<lparr>oc_ClientID = '''', oc_ClientSecret = '''', oc_Audience = '''', oc_Scope = '''',
     oc_TokenEndpointURL = '''', oc_AdditionalEndpointParams = []\<rparr>"

definition getDefaultOidcServerConf :: oidc_server where
  "getDefaultOidcServerConf = \<lparr>os_Issuer = '''', os_Audience = '''', os_SkipExpiryCheck = False, os_SkipIssuerCheck = False\<rparr>"

record client_auth =
  ca_Base :: base_auth
  ca_Oidc :: oidc_client
  ca_Token :: string

record server_auth =
  sa_Base :: base_auth
  sa_Oidc :: oidc_server
  sa_Token :: string

definition default_client_auth :: client_auth where
  "default_client_auth = \<lparr>ca_Base = getDefaultBaseConf, ca_Oidc = getDefaultOidcClientConf, ca_Token = ''''\<rparr>"

definition default_server_auth :: server_auth where
  "default_server_auth = \<lparr>sa_Base = getDefaultBaseConf, sa_Oidc = getDefaultOidcServerConf, sa_Token = ''''\<rparr>"

text \<open>
  The choice of the method. \<open>OidcAuth\<close> stands for the third-party verifier; an unknown method
  panics on the client and leaves no verifier on the server.
\<close>

datatype auth_choice = TokenAuth auth_cfg | OidcAuth

definition NewTokenAuth :: "base_auth \<Rightarrow> string \<Rightarrow> auth_cfg" where
  "NewTokenAuth b token = \<lparr>ac_token = token, ac_AuthenticateHeartBeats = ba_AuthenticateHeartBeats b,
     ac_AuthenticateNewWorkConns = ba_AuthenticateNewWorkConns b\<rparr>"

definition NewAuthSetter :: "client_auth \<Rightarrow> auth_choice option" where
  "NewAuthSetter a =
     (if ba_AuthenticationMethod (ca_Base a) = ''token'' then Some (TokenAuth (NewTokenAuth (ca_Base a) (ca_Token a)))
      else if ba_AuthenticationMethod (ca_Base a) = ''oidc'' then Some OidcAuth
      else None)"

definition NewAuthVerifier :: "server_auth \<Rightarrow> auth_choice option" where
  "NewAuthVerifier a =
     (if ba_AuthenticationMethod (sa_Base a) = ''token'' then Some (TokenAuth (NewTokenAuth (sa_Base a) (sa_Token a)))
      else if ba_AuthenticationMethod (sa_Base a) = ''oidc'' then Some OidcAuth
      else None)"

section \<open>The settings\<close>

record http_plugin_options =
  po_Name :: string
  po_Addr :: string
  po_Path :: string
  po_Ops :: "string list"
  po_TLSVerify :: bool

definition zero_plugin_options :: http_plugin_options where
  "zero_plugin_options = \<lparr>po_Name = '''', po_Addr = '''', po_Path = '''', po_Ops = [], po_TLSVerify = False\<rparr>"

record server_settings =
  ss_Auth :: server_auth
  ss_BindAddr :: string
  ss_BindPort :: int
  ss_BindUDPPort :: int
  ss_KCPBindPort :: int
  ss_QUICBindPort :: int
  ss_QUICKeepalivePeriod :: int
  ss_QUICMaxIdleTimeout :: int
  ss_QUICMaxIncomingStreams :: int
  ss_ProxyBindAddr :: string
  ss_VhostHTTPPort :: int
  ss_VhostHTTPSPort :: int
  ss_TCPMuxHTTPConnectPort :: int
  ss_TCPMuxPassthrough :: bool
  ss_VhostHTTPTimeout :: int
  ss_DashboardAddr :: string
  ss_DashboardPort :: int
  ss_DashboardTLSCertFile :: string
  ss_DashboardTLSKeyFile :: string
  ss_DashboardTLSMode :: bool
  ss_DashboardUser :: string
  ss_DashboardPwd :: string
  ss_EnablePrometheus :: bool
  ss_AssetsDir :: string
  ss_LogFile :: string
  ss_LogWay :: string
  ss_LogLevel :: string
  ss_LogMaxDays :: int
  ss_DisableLogColor :: bool
  ss_DetailedErrorsToClient :: bool
  ss_SubDomainHost :: string
  ss_TCPMux :: bool
  ss_TCPMuxKeepaliveInterval :: int
  ss_TCPKeepAlive :: int
  ss_Custom404Page :: string
  ss_AllowPorts :: "int set"
  ss_AllowPortsStr :: string
  ss_MaxPoolCount :: int
  ss_MaxPortsPerClient :: int
  ss_TLSOnly :: bool
  ss_TLSCertFile :: string
  ss_TLSKeyFile :: string
  ss_TLSTrustedCaFile :: string
  ss_HeartbeatTimeout :: int
  ss_UserConnTimeout :: int
  ss_HTTPPlugins :: "(string \<times> http_plugin_options) list"
  ss_UDPPacketSize :: int
  ss_PprofEnable :: bool
  ss_NatHoleAnalysisDataReserveHours :: int
  ss_EnableApi :: bool
  ss_ApiBaseUrl :: string
  ss_ApiToken :: string

definition GetDefaultServerConf :: server_settings where
  "GetDefaultServerConf = \<lparr>ss_Auth = default_server_auth,
     ss_BindAddr = ''0.0.0.0'', ss_BindPort = 7000, ss_BindUDPPort = 0, ss_KCPBindPort = 0, ss_QUICBindPort = 0,
      ss_QUICKeepalivePeriod = 10, ss_QUICMaxIdleTimeout = 30, ss_QUICMaxIncomingStreams = 100000,
      ss_ProxyBindAddr = '''', ss_VhostHTTPPort = 0, ss_VhostHTTPSPort = 0, ss_TCPMuxHTTPConnectPort = 0,
      ss_TCPMuxPassthrough = False, ss_VhostHTTPTimeout = 60, ss_DashboardAddr = ''0.0.0.0'', ss_DashboardPort = 0,
      ss_DashboardTLSCertFile = '''', ss_DashboardTLSKeyFile = '''', ss_DashboardTLSMode = False,
      ss_DashboardUser = '''', ss_DashboardPwd = '''', ss_EnablePrometheus = False, ss_AssetsDir = '''',
      ss_LogFile = ''console'', ss_LogWay = ''console'', ss_LogLevel = ''info'', ss_LogMaxDays = 3,
      ss_DisableLogColor = False, ss_DetailedErrorsToClient = True, ss_SubDomainHost = '''', ss_TCPMux = True,
      ss_TCPMuxKeepaliveInterval = 60, ss_TCPKeepAlive = 7200, ss_Custom404Page = '''', ss_AllowPorts = {},
      ss_AllowPortsStr = '''', ss_MaxPoolCount = 5, ss_MaxPortsPerClient = 0, ss_TLSOnly = False, ss_TLSCertFile = '''',
      ss_TLSKeyFile = '''', ss_TLSTrustedCaFile = '''', ss_HeartbeatTimeout = 90, ss_UserConnTimeout = 10,
      ss_HTTPPlugins = [], ss_UDPPacketSize = 1500, ss_PprofEnable = False, ss_NatHoleAnalysisDataReserveHours = 7 * 24,
      ss_EnableApi = False, ss_ApiBaseUrl = '''', ss_ApiToken = ''''\<rparr>"

record client_settings =
  cs_Auth :: client_auth
  cs_ServerAddr :: string
  cs_ServerPort :: int
  cs_NatHoleSTUNServer :: string
  cs_DialServerTimeout :: int
  cs_DialServerKeepAlive :: int
  cs_ConnectServerLocalIP :: string
  cs_HTTPProxy :: string
  cs_LogFile :: string
  cs_LogWay :: string
  cs_LogLevel :: string
  cs_LogMaxDays :: int
  cs_DisableLogColor :: bool
  cs_AdminAddr :: string
  cs_AdminPort :: int
  cs_AdminUser :: string
  cs_AdminPwd :: string
  cs_AssetsDir :: string
  cs_PoolCount :: int
  cs_TCPMux :: bool
  cs_TCPMuxKeepaliveInterval :: int
  cs_User :: string
  cs_DNSServer :: string
  cs_LoginFailExit :: bool
  cs_Start :: "string list"
  cs_Protocol :: string
  cs_QUICKeepalivePeriod :: int
  cs_QUICMaxIdleTimeout :: int
  cs_QUICMaxIncomingStreams :: int
  cs_TLSEnable :: bool
  cs_TLSCertFile :: string
  cs_TLSKeyFile :: string
  cs_TLSTrustedCaFile :: string
  cs_TLSServerName :: string
  cs_DisableCustomTLSFirstByte :: bool
  cs_HeartbeatInterval :: int
  cs_HeartbeatTimeout :: int
  cs_Metas :: str_map
  cs_UDPPacketSize :: int
  cs_IncludeConfigFiles :: "string list"
  cs_PprofEnable :: bool

text \<open>The argument is the value of the environment variable \<open>http_proxy\<close>.\<close>

definition GetDefaultClientConf :: "string \<Rightarrow> client_settings" where
  "GetDefaultClientConf http_proxy = \<lparr>cs_Auth = default_client_auth,
     cs_ServerAddr = ''0.0.0.0'', cs_ServerPort = 7000, cs_NatHoleSTUNServer = ''stun.easyvoip.com:3478'',
      cs_DialServerTimeout = 10, cs_DialServerKeepAlive = 7200, cs_ConnectServerLocalIP = '''', cs_HTTPProxy = http_proxy,
      cs_LogFile = ''console'', cs_LogWay = ''console'', cs_LogLevel = ''info'', cs_LogMaxDays = 3,
      cs_DisableLogColor = False, cs_AdminAddr = ''127.0.0.1'', cs_AdminPort = 0, cs_AdminUser = '''',
      cs_AdminPwd = '''', cs_AssetsDir = '''', cs_PoolCount = 1, cs_TCPMux = True, cs_TCPMuxKeepaliveInterval = 60,
      cs_User = '''', cs_DNSServer = '''', cs_LoginFailExit = True, cs_Start = [], cs_Protocol = ''tcp'',
      cs_QUICKeepalivePeriod = 10, cs_QUICMaxIdleTimeout = 30, cs_QUICMaxIncomingStreams = 100000, cs_TLSEnable = True,
      cs_TLSCertFile = '''', cs_TLSKeyFile = '''', cs_TLSTrustedCaFile = '''', cs_TLSServerName = '''',
      cs_DisableCustomTLSFirstByte = True, cs_HeartbeatInterval = 30, cs_HeartbeatTimeout = 90, cs_Metas = [],
      cs_UDPPacketSize = 1500, cs_IncludeConfigFiles = [], cs_PprofEnable = False\<rparr>"

section \<open>The libraries\<close>

type_synonym ini_file = "(string \<times> str_map) list"

text \<open>
  \<open>ni_NewSection\<close> and \<open>ni_NewKey\<close> change the file (section, key, value); the three \<open>MapTo\<close>
  decode the keys of a section into a value; \<open>ni_validate\<close> is the validator of structs.
\<close>

record ini_lib =
  ni_LoadSources :: "string \<Rightarrow> ini_file option"
  ni_DefaultSection :: string
  ni_NewSection :: "string \<Rightarrow> ini_file \<Rightarrow> ini_file option"
  ni_NewKey :: "string \<Rightarrow> string \<Rightarrow> string \<Rightarrow> ini_file \<Rightarrow> ini_file option"
  ni_MapToProxy :: "str_map \<Rightarrow> proxy_conf \<Rightarrow> proxy_conf option"
  ni_MapToVisitor :: "str_map \<Rightarrow> visitor_conf \<Rightarrow> visitor_conf option"
  ni_MapToServer :: "str_map \<Rightarrow> server_settings \<Rightarrow> server_settings option"
  ni_MapToClient :: "str_map \<Rightarrow> client_settings \<Rightarrow> client_settings option"
  ni_MapToPlugin :: "str_map \<Rightarrow> http_plugin_options \<Rightarrow> http_plugin_options option"
  ni_contains :: "string list \<Rightarrow> string \<Rightarrow> bool"
  ni_validate :: "server_settings \<Rightarrow> string option"
  ni_parse_float :: parse_float

definition section_key :: "str_map \<Rightarrow> string \<Rightarrow> string" where
  "section_key keys k = (case map_of keys k of None \<Rightarrow> '''' | Some v \<Rightarrow> v)"

datatype settings_error =
    SourceUnreadable
  | NoCommonSection
  | MapToError
  | BadAllowPorts range_error
  | BadPlugin
  | PortsEmpty
  | BadPorts range_error
  | PortNumbersDiffer
  | PortsNecessary
  | IniChangeFailed
  | RangeFailed string settings_error
  | ProxyFailed string conf_error
  | VisitorFailed string visitor_conf_error
  | BadSectionRole string
  | DashboardCertMissing
  | ValidatorError string
  | HeartbeatTooShort
  | InvalidProtocol
  | IncludeMissing string
  | ParseConfig settings_error
  | IncludeContents string

section \<open>The settings of the server\<close>

definition loadHTTPPluginOpt :: "ini_lib \<Rightarrow> string \<times> str_map \<Rightarrow> http_plugin_options option" where
  "loadHTTPPluginOpt lib sec =
     (let name = trim_space (drop (length ''plugin.'') (fst sec))
      in map_option (\<lambda>opt. opt\<lparr>po_Name := name\<rparr>) (ni_MapToPlugin lib (snd sec) zero_plugin_options))"

fun load_plugins :: "ini_lib \<Rightarrow> ini_file \<Rightarrow> (string \<times> http_plugin_options) list \<Rightarrow> (string \<times> http_plugin_options) list option" where
  "load_plugins lib [] opts = Some opts"
| "load_plugins lib (sec # secs) opts =
     (if \<not> has_prefix (fst sec) ''plugin.'' then load_plugins lib secs opts
      else case loadHTTPPluginOpt lib sec of
             None \<Rightarrow> None
           | Some opt \<Rightarrow> load_plugins lib secs (filter (\<lambda>(n, _). n \<noteq> po_Name opt) opts @ [(po_Name opt, opt)]))"

text \<open>\<open>None\<close>: the parser of the allowed ports does not return.\<close>

definition UnmarshalServerConfFromIni :: "ini_lib \<Rightarrow> string \<Rightarrow> (settings_error + server_settings) option" where
  "UnmarshalServerConfFromIni lib source =
     (case ni_LoadSources lib source of
        None \<Rightarrow> Some (Inl SourceUnreadable)
      | Some f \<Rightarrow>
          (case map_of f ''common'' of
             None \<Rightarrow> Some (Inl NoCommonSection)
           | Some keys \<Rightarrow>
               (case ni_MapToServer lib keys GetDefaultServerConf of
                  None \<Rightarrow> Some (Inl MapToError)
                | Some common \<Rightarrow>
                    let allowPortStr = section_key keys ''allow_ports'';
                        finish = (\<lambda>common.
                          let common = common\<lparr>ss_EnableApi := (section_key keys ''api_enable'' \<noteq> ''false''),
                                ss_ApiBaseUrl := section_key keys ''api_baseurl'', ss_ApiToken := section_key keys ''api_token''\<rparr>
                          in case load_plugins lib f [] of
                               None \<Rightarrow> Inl BadPlugin
                             | Some opts \<Rightarrow> Inr (common\<lparr>ss_HTTPPlugins := opts\<rparr>))
                    in if allowPortStr \<noteq> '''' then
                         (case ParseRangeNumbers allowPortStr of
                            None \<Rightarrow> None
                          | Some (_, Some e) \<Rightarrow> Some (Inl (BadAllowPorts e))
                          | Some (ports, None) \<Rightarrow>
                              Some (finish (common\<lparr>ss_AllowPorts := ss_AllowPorts common \<union> set ports, ss_AllowPortsStr := allowPortStr\<rparr>)))
                       else Some (finish common))))"

definition server_Complete :: "server_settings \<Rightarrow> server_settings" where
  "server_Complete s =
     (let s = s\<lparr>ss_LogWay := (if ss_LogFile s = ''console'' then ''console'' else ''file'')\<rparr>;
          s = (if ss_ProxyBindAddr s = '''' then s\<lparr>ss_ProxyBindAddr := ss_BindAddr s\<rparr> else s)
      in if ss_TLSTrustedCaFile s \<noteq> '''' then s\<lparr>ss_TLSOnly := True\<rparr> else s)"

text \<open>Warnings are only printed.\<close>

definition server_Validate :: "ini_lib \<Rightarrow> server_settings \<Rightarrow> settings_error option" where
  "server_Validate lib s =
     (if ss_DashboardTLSMode s \<and> (ss_DashboardTLSCertFile s = '''' \<or> ss_DashboardTLSKeyFile s = '''')
      then Some DashboardCertMissing
      else map_option ValidatorError (ni_validate lib s))"

text \<open>What the rest of the model uses of the settings.\<close>

definition server_conf_of :: "server_settings \<Rightarrow> server_conf" where
  "server_conf_of s = \<lparr>sc_ProxyBindAddr = ss_ProxyBindAddr s, sc_VhostHTTPPort = ss_VhostHTTPPort s,
     sc_VhostHTTPSPort = ss_VhostHTTPSPort s, sc_TCPMuxHTTPConnectPort = ss_TCPMuxHTTPConnectPort s,
     sc_SubDomainHost = ss_SubDomainHost s, sc_MaxPortsPerClient = ss_MaxPortsPerClient s, sc_MaxPoolCount = ss_MaxPoolCount s,
     sc_TCPMux = ss_TCPMux s, sc_HeartbeatTimeout = ss_HeartbeatTimeout s, sc_EnableApi = ss_EnableApi s,
     sc_DetailedErrorsToClient = ss_DetailedErrorsToClient s\<rparr>"

section \<open>The settings of the client\<close>

definition client_Complete :: "client_settings \<Rightarrow> client_settings" where
  "client_Complete c = c\<lparr>cs_LogWay := (if cs_LogFile c = ''console'' then ''console'' else ''file'')\<rparr>"

text \<open>\<open>dir_exists\<close>: the directory of an included file can be found.\<close>

definition client_Validate :: "ini_lib \<Rightarrow> (string \<Rightarrow> bool) \<Rightarrow> client_settings \<Rightarrow> settings_error option" where
  "client_Validate lib dir_exists c =
     (if cs_HeartbeatTimeout c > 0 \<and> cs_HeartbeatInterval c > 0 \<and> cs_HeartbeatTimeout c < cs_HeartbeatInterval c
      then Some HeartbeatTooShort
      else if \<not> ni_contains lib [''tcp'', ''kcp'', ''quic'', ''websocket'', ''wss''] (cs_Protocol c) then Some InvalidProtocol
      else map_option IncludeMissing (find (\<lambda>f. \<not> dir_exists f) (cs_IncludeConfigFiles c)))"

definition UnmarshalClientConfFromIni :: "ini_lib \<Rightarrow> string \<Rightarrow> string \<Rightarrow> settings_error + client_settings" where
  "UnmarshalClientConfFromIni lib http_proxy source =
     (case ni_LoadSources lib source of
        None \<Rightarrow> Inl SourceUnreadable
      | Some f \<Rightarrow>
          (case map_of f ''common'' of
             None \<Rightarrow> Inl NoCommonSection
           | Some keys \<Rightarrow>
               (case ni_MapToClient lib keys (GetDefaultClientConf http_proxy) of
                  None \<Rightarrow> Inl MapToError
                | Some c \<Rightarrow>
                    Inr (c\<lparr>cs_Metas := GetMapWithoutPrefix keys ''meta_'',
                      cs_Auth := (cs_Auth c)\<lparr>ca_Oidc := (ca_Oidc (cs_Auth c))\<lparr>
                        oc_AdditionalEndpointParams := GetMapWithoutPrefix keys ''oidc_additional_''\<rparr>\<rparr>\<rparr>))))"

section \<open>Ranges\<close>

fun copySection :: "ini_lib \<Rightarrow> str_map \<Rightarrow> string \<Rightarrow> ini_file \<Rightarrow> ini_file" where
  "copySection lib [] target f = f"
| "copySection lib ((k, v) # keys) target f =
     copySection lib keys target (case ni_NewKey lib target k v f of None \<Rightarrow> f | Some f' \<Rightarrow> f')"

text \<open>The loop over the ports, from the template \<open>i\<close> on.\<close>

fun range_templates :: "ini_lib \<Rightarrow> string \<Rightarrow> str_map \<Rightarrow> nat \<Rightarrow> (int \<times> int) list \<Rightarrow> ini_file \<Rightarrow> settings_error + ini_file" where
  "range_templates lib pre keys i [] f = Inr f"
| "range_templates lib pre keys i ((lport, rport) # ports) f =
     (let tmpname = pre @ ''_'' @ show_nat i
      in case ni_NewSection lib tmpname f of
           None \<Rightarrow> Inl IniChangeFailed
         | Some f \<Rightarrow>
             (case ni_NewKey lib tmpname ''local_port'' (show_int lport) (copySection lib keys tmpname f) of
                None \<Rightarrow> Inl IniChangeFailed
              | Some f \<Rightarrow>
                  (case ni_NewKey lib tmpname ''remote_port'' (show_int rport) f of
                     None \<Rightarrow> Inl IniChangeFailed
                   | Some f \<Rightarrow> range_templates lib pre keys (Suc i) ports f)))"

definition renderRangeProxyTemplates :: "ini_lib \<Rightarrow> ini_file \<Rightarrow> string \<times> str_map \<Rightarrow> (settings_error + ini_file) option" where
  "renderRangeProxyTemplates lib f sec =
     (let localPortStr = section_key (snd sec) ''local_port''; remotePortStr = section_key (snd sec) ''remote_port''
      in if localPortStr = '''' \<or> remotePortStr = '''' then Some (Inl PortsEmpty)
         else case ParseRangeNumbers localPortStr of
                None \<Rightarrow> None
              | Some (_, Some e) \<Rightarrow> Some (Inl (BadPorts e))
              | Some (localPorts, None) \<Rightarrow>
                  (case ParseRangeNumbers remotePortStr of
                     None \<Rightarrow> None
                   | Some (_, Some e) \<Rightarrow> Some (Inl (BadPorts e))
                   | Some (remotePorts, None) \<Rightarrow>
                       if length localPorts \<noteq> length remotePorts then Some (Inl PortNumbersDiffer)
                       else if length localPorts = 0 then Some (Inl PortsNecessary)
                       else Some (range_templates lib (trim_space (drop (length ''range:'') (fst sec))) (snd sec) 0
                                    (zip localPorts remotePorts) f)))"

text \<open>The sections were collected before as references, so that each is read as it is when its turn comes.\<close>

fun render_ranges :: "ini_lib \<Rightarrow> string list \<Rightarrow> ini_file \<Rightarrow> (settings_error + ini_file) option" where
  "render_ranges lib [] f = Some (Inr f)"
| "render_ranges lib (name # names) f =
     (case renderRangeProxyTemplates lib f (name, case map_of f name of None \<Rightarrow> [] | Some keys \<Rightarrow> keys) of
        None \<Rightarrow> None
      | Some (Inl e) \<Rightarrow> Some (Inl (RangeFailed name e))
      | Some (Inr f) \<Rightarrow> render_ranges lib names f)"

section \<open>All proxies and visitors of a file\<close>

text \<open>Which sections are skipped.\<close>

definition section_skipped :: "ini_lib \<Rightarrow> string list \<Rightarrow> string \<Rightarrow> bool" where
  "section_skipped lib start name \<longleftrightarrow>
     name = ni_DefaultSection lib \<or> name = ''common'' \<or> has_prefix name ''range:'' \<or> (start \<noteq> [] \<and> name \<notin> set start)"

fun load_sections ::
    "ini_lib \<Rightarrow> string \<Rightarrow> string list \<Rightarrow> ini_file \<Rightarrow> (string \<rightharpoonup> proxy_conf) \<Rightarrow> (string \<rightharpoonup> visitor_conf) \<Rightarrow>
     settings_error + (string \<rightharpoonup> proxy_conf) \<times> (string \<rightharpoonup> visitor_conf)" where
  "load_sections lib pre start [] ps vs = Inr (ps, vs)"
| "load_sections lib pre start ((name, keys) # secs) ps vs =
     (if section_skipped lib start name then load_sections lib pre start secs ps vs
      else let role = section_key keys ''role''; role = (if role = '''' then ''server'' else role)
           in if role = ''server'' then
                (case NewProxyConfFromIni (ni_parse_float lib) (ni_MapToProxy lib keys) pre name keys of
                   Inl e \<Rightarrow> Inl (ProxyFailed name e)
                 | Inr c \<Rightarrow> load_sections lib pre start secs (ps(pre @ name \<mapsto> c)) vs)
              else if role = ''visitor'' then
                (case NewVisitorConfFromIni (ni_contains lib) (ni_MapToVisitor lib keys) pre name keys of
                   Inl e \<Rightarrow> Inl (VisitorFailed name e)
                 | Inr c \<Rightarrow> load_sections lib pre start secs ps (vs(pre @ name \<mapsto> c)))
              else Inl (BadSectionRole name))"

definition LoadAllProxyConfsFromIni ::
    "ini_lib \<Rightarrow> string \<Rightarrow> string \<Rightarrow> string list \<Rightarrow>
     (settings_error + (string \<rightharpoonup> proxy_conf) \<times> (string \<rightharpoonup> visitor_conf)) option" where
  "LoadAllProxyConfsFromIni lib pre source start =
     (case ni_LoadSources lib source of
        None \<Rightarrow> Some (Inl SourceUnreadable)
      | Some f \<Rightarrow>
          (let pre = (if pre \<noteq> '''' then pre @ ''.'' else pre)
           in case render_ranges lib (filter (\<lambda>name. has_prefix name ''range:'') (map fst f)) f of
                None \<Rightarrow> None
              | Some (Inl e) \<Rightarrow> Some (Inl e)
              | Some (Inr f) \<Rightarrow> Some (load_sections lib pre start f Map.empty Map.empty)))"

text \<open>
  \<open>content\<close> is the rendered file, \<open>includes\<close> reads the files that are included, with an error
  if it cannot.
\<close>

definition ParseClientConfig ::
    "ini_lib \<Rightarrow> string \<Rightarrow> (string \<Rightarrow> bool) \<Rightarrow> (string list \<Rightarrow> string + string) \<Rightarrow> string option \<Rightarrow>
     (settings_error + client_settings \<times> (string \<rightharpoonup> proxy_conf) \<times> (string \<rightharpoonup> visitor_conf)) option" where
  "ParseClientConfig lib http_proxy dir_exists includes content =
     (case content of
        None \<Rightarrow> Some (Inl SourceUnreadable)
      | Some content \<Rightarrow>
          (case UnmarshalClientConfFromIni lib http_proxy content of
             Inl e \<Rightarrow> Some (Inl e)
           | Inr cfg \<Rightarrow>
               let cfg = client_Complete cfg
               in case client_Validate lib dir_exists cfg of
                    Some e \<Rightarrow> Some (Inl (ParseConfig e))
                  | None \<Rightarrow>
                      (case includes (cs_IncludeConfigFiles cfg) of
                         Inl e \<Rightarrow> Some (Inl (IncludeContents e))
                       | Inr buf \<Rightarrow>
                           map_option (map_sum id (\<lambda>(ps, vs). (cfg, ps, vs)))
                             (LoadAllProxyConfsFromIni lib (cs_User cfg) (content @ [CHR 0x0A] @ buf) (cs_Start cfg)))))"

section \<open>Lemmas\<close>

text \<open>
  What the code relies on of the ini library: a new section is added at the end, unless there is
  one of that name, and a new key is set in its section.
\<close>

definition set_key :: "string \<Rightarrow> string \<Rightarrow> string \<Rightarrow> ini_file \<Rightarrow> ini_file" where
  "set_key n k v = map (\<lambda>(m, keys). (m, if m = n then map_put k v keys else keys))"

definition ini_ok :: "ini_lib \<Rightarrow> bool" where
  "ini_ok lib \<longleftrightarrow>
     (\<forall>n f. n \<noteq> '''' \<longrightarrow> ni_NewSection lib n f = Some (if n \<in> fst ` set f then f else f @ [(n, [])])) \<and>
     (\<forall>n k v f. n \<in> fst ` set f \<and> k \<noteq> '''' \<longrightarrow> ni_NewKey lib n k v f = Some (set_key n k v f))"

lemma ini_okD:
  "ini_ok lib \<Longrightarrow> n \<noteq> '''' \<Longrightarrow> ni_NewSection lib n f = Some (if n \<in> fst ` set f then f else f @ [(n, [])])"
  "ini_ok lib \<Longrightarrow> n \<in> fst ` set f \<Longrightarrow> k \<noteq> '''' \<Longrightarrow> ni_NewKey lib n k v f = Some (set_key n k v f)"
  by (auto simp: ini_ok_def)

lemma set_key_names [simp]: "map fst (set_key n k v f) = map fst f" "fst ` set (set_key n k v f) = fst ` set f"
  by (induction f) (auto simp: set_key_def)

lemma set_key_last: "n \<notin> fst ` set f \<Longrightarrow> set_key n k v (f @ [(n, keys)]) = f @ [(n, map_put k v keys)]"
  by (induction f) (auto simp: set_key_def)

lemma map_of_map_put: "map_of (map_put k v m) k' = (if k' = k then Some v else map_of m k')"
  by (induction k v m rule: map_put.induct) auto

lemma section_key_put: "section_key (map_put k v m) k' = (if k' = k then v else section_key m k')"
  by (simp add: section_key_def map_of_map_put)

definition put_all :: "str_map \<Rightarrow> str_map \<Rightarrow> str_map" where
  "put_all keys m = fold (\<lambda>(k, v). map_put k v) keys m"

lemma section_key_put_all:
  "distinct (map fst keys) \<Longrightarrow> section_key (put_all keys m) k = (if k \<in> fst ` set keys then section_key keys k else section_key m k)"
proof (induction keys arbitrary: m)
  case (Cons p keys)
  obtain k0 v0 where p: "p = (k0, v0)" by (cases p)
  have "section_key (put_all (p # keys) m) k = section_key (put_all keys (map_put k0 v0 m)) k" by (simp add: put_all_def p)
  also have "\<dots> = (if k \<in> fst ` set keys then section_key keys k else if k = k0 then v0 else section_key m k)"
    using Cons.IH [of "map_put k0 v0 m"] Cons.prems by (simp add: section_key_put)
  also have "\<dots> = (if k \<in> fst ` set (p # keys) then section_key (p # keys) k else section_key m k)"
    using Cons.prems by (auto simp: p section_key_def)
  finally show ?case .
qed (simp add: put_all_def)

lemma copySection_last:
  "ini_ok lib \<Longrightarrow> n \<notin> fst ` set f \<Longrightarrow> '''' \<notin> fst ` set keys \<Longrightarrow>
   copySection lib keys n (f @ [(n, m)]) = f @ [(n, put_all keys m)]"
proof (induction keys arbitrary: m)
  case (Cons p keys)
  obtain k v where p: "p = (k, v)" by (cases p)
  have "k \<noteq> ''''" using Cons.prems(3) by (auto simp: p)
  then have "ni_NewKey lib n k v (f @ [(n, m)]) = Some (f @ [(n, map_put k v m)])"
    using ini_okD(2) [OF Cons.prems(1), of n "f @ [(n, m)]" k v] Cons.prems(2) by (simp add: set_key_last)
  then show ?case using Cons.IH [of "map_put k v m"] Cons.prems by (simp add: p put_all_def)
qed (simp add: put_all_def)

definition range_template :: "string \<Rightarrow> str_map \<Rightarrow> nat \<times> int \<times> int \<Rightarrow> string \<times> str_map" where
  "range_template pre keys = (\<lambda>(i, l, r). (pre @ ''_'' @ show_nat i,
     map_put ''remote_port'' (show_int r) (map_put ''local_port'' (show_int l) (put_all keys []))))"

lemma digit_char_inj: "a < 10 \<Longrightarrow> b < 10 \<Longrightarrow> digit_char a = digit_char b \<Longrightarrow> a = b"
  by (metis digit_val_digit_char option.inject)

lemma show_nat_inj: "show_nat a = show_nat b \<longleftrightarrow> a = b"
proof
  show "show_nat a = show_nat b \<Longrightarrow> a = b"
  proof (induction a arbitrary: b rule: show_nat.induct)
    case (1 a)
    show ?case
    proof (cases "a < 10")
      case True
      then have "b < 10" using "1.prems" by (cases "b < 10") (simp_all add: show_nat_not_Nil [symmetric] show_nat.simps [of a] show_nat.simps [of b])
      then show ?thesis using "1.prems" True digit_char_inj by (simp add: show_nat.simps [of a] show_nat.simps [of b])
    next
      case False
      then have b: "\<not> b < 10" using "1.prems" by (cases "b < 10") (simp_all add: show_nat_not_Nil [symmetric] show_nat.simps [of a] show_nat.simps [of b])
      then have "show_nat (a div 10) = show_nat (b div 10)" "digit_char (a mod 10) = digit_char (b mod 10)"
        using "1.prems" False by (simp_all add: show_nat.simps [of a] show_nat.simps [of b])
      then have "a div 10 = b div 10" "a mod 10 = b mod 10" using "1.IH" [OF False] digit_char_inj by simp_all
      then show ?thesis by (metis div_mult_mod_eq)
    qed
  qed
qed simp

lemma range_templates_fresh:
  assumes "ini_ok lib" and "'''' \<notin> fst ` set keys" and "\<And>j. i \<le> j \<Longrightarrow> pre @ ''_'' @ show_nat j \<notin> fst ` set f"
  shows "range_templates lib pre keys i ports f =
    Inr (f @ map (range_template pre keys) (zip [i..<i + length ports] ports))"
  using assms(3)
proof (induction ports arbitrary: i f)
  case (Cons p ports)
  obtain l r where p: "p = (l, r)" by (cases p)
  let ?n = "pre @ ''_'' @ show_nat i"
  have new: "?n \<notin> fst ` set f" using Cons.prems by simp
  let ?m = "put_all keys []" let ?t = "range_template pre keys (i, l, r)"
  have s: "ni_NewSection lib ?n f = Some (f @ [(?n, [])])" using ini_okD(1) [OF assms(1)] new by simp
  have k1: "ni_NewKey lib ?n ''local_port'' (show_int l) (f @ [(?n, ?m)]) = Some (f @ [(?n, map_put ''local_port'' (show_int l) ?m)])"
    using ini_okD(2) [OF assms(1)] set_key_last [OF new] by simp
  have k2: "ni_NewKey lib ?n ''remote_port'' (show_int r) (f @ [(?n, map_put ''local_port'' (show_int l) ?m)]) = Some (f @ [?t])"
    using ini_okD(2) [OF assms(1)] set_key_last [OF new] by (simp add: range_template_def)
  have "range_templates lib pre keys i (p # ports) f = range_templates lib pre keys (Suc i) ports (f @ [?t])"
    using s k1 k2 copySection_last [OF assms(1) new assms(2)] by (simp add: p Let_def)
  also have "\<dots> = Inr ((f @ [?t]) @ map (range_template pre keys) (zip [Suc i..<Suc i + length ports] ports))"
    using Cons.prems by (intro Cons.IH) (auto simp: range_template_def show_nat_inj)
  also have "\<dots> = Inr (f @ map (range_template pre keys) (zip (i # [Suc i..<Suc i + length ports]) (p # ports)))"
    by (simp add: p)
  also have "i # [Suc i..<Suc i + length ports] = [i..<i + length (p # ports)]"
    using upt_conv_Cons [of i "i + length (p # ports)"] by (simp del: upt_Suc)
  finally show ?case .
qed simp

lemma ParseRangeNumbers_empty: "ParseRangeNumbers '''' \<noteq> Some (ns, None)"
  by (simp add: ParseRangeNumbers_def parse_range_def parse_int_def parse_sign_def trim_space_def trim_left_space_def
      trim_right_space_def Let_def)

section \<open>Properties\<close>

text \<open>
  (C11) A range section stands for as many proxies as it names ports: for a template with equally many
  local and remote ports, sections named after it are added at the end of the file, one for
  each pair of ports in order, with all other keys of the template; for a mismatch, an empty or
  a malformed range the file is refused.
\<close>

theorem range_expands:
  assumes "ini_ok lib" and "distinct (map fst keys)" and "'''' \<notin> fst ` set keys"
    and "\<And>j. trim_space p @ ''_'' @ show_nat j \<notin> fst ` set f"
    and "ParseRangeNumbers (section_key keys ''local_port'') = Some (ls, el)"
    and "ParseRangeNumbers (section_key keys ''remote_port'') = Some (rs, er)"
  shows "if el = None \<and> er = None \<and> length ls = length rs \<and> ls \<noteq> []
    then \<exists>ts. renderRangeProxyTemplates lib f (''range:'' @ p, keys) = Some (Inr (f @ ts)) \<and> length ts = length ls \<and>
      (\<forall>i < length ls. fst (ts ! i) = trim_space p @ ''_'' @ show_nat i \<and>
         section_key (snd (ts ! i)) ''local_port'' = show_int (ls ! i) \<and>
         section_key (snd (ts ! i)) ''remote_port'' = show_int (rs ! i) \<and>
         (\<forall>k. k \<notin> {''local_port'', ''remote_port''} \<longrightarrow> section_key (snd (ts ! i)) k = section_key keys k))
    else \<exists>e. renderRangeProxyTemplates lib f (''range:'' @ p, keys) = Some (Inl e)"
proof (cases "el = None \<and> er = None \<and> length ls = length rs \<and> ls \<noteq> []")
  case True
  let ?ts = "map (range_template (trim_space p) keys) (zip [0..<length ls] (zip ls rs))"
  have ne: "section_key keys ''local_port'' \<noteq> ''''" "section_key keys ''remote_port'' \<noteq> ''''"
    using assms(5,6) True ParseRangeNumbers_empty by metis+
  have nil: "ls \<noteq> []" "rs \<noteq> []" using True by auto
  have "range_templates lib (trim_space p) keys 0 (zip ls rs) f = Inr (f @ ?ts)"
    using range_templates_fresh [OF assms(1,3), of 0 "trim_space p" f "zip ls rs"] assms(4) True by simp
  then have "renderRangeProxyTemplates lib f (''range:'' @ p, keys) = Some (Inr (f @ ?ts))"
    using ne nil True assms(5,6) by (simp add: renderRangeProxyTemplates_def)
  moreover have "section_key (put_all keys []) k = section_key keys k" for k
    unfolding section_key_put_all [OF assms(2)]
    by (cases "k \<in> fst ` set keys") (simp_all add: section_key_def map_of_eq_None_iff [THEN iffD2])
  ultimately show ?thesis
    unfolding if_P [OF True] using True
    by (intro exI [of _ ?ts] conjI) (simp_all add: range_template_def section_key_put)
next
  case False
  then show ?thesis
    using assms(5,6) by (cases el; cases er) (auto simp: renderRangeProxyTemplates_def Let_def)
qed

definition demo_lib :: ini_lib where
  "demo_lib = \<lparr>ni_LoadSources = (\<lambda>_. None), ni_DefaultSection = ''DEFAULT'',
     ni_NewSection = (\<lambda>n f. Some (if n \<in> fst ` set f then f else f @ [(n, [])])),
     ni_NewKey = (\<lambda>n k v f. Some (set_key n k v f)),
     ni_MapToProxy = (\<lambda>_. Some), ni_MapToVisitor = (\<lambda>_. Some), ni_MapToServer = (\<lambda>_. Some), ni_MapToClient = (\<lambda>_. Some),
     ni_MapToPlugin = (\<lambda>_. Some), ni_contains = (\<lambda>xs x. x \<in> set xs), ni_validate = (\<lambda>_. None), ni_parse_float = (\<lambda>_ _. None)\<rparr>"

lemma demo_lib_ok: "ini_ok demo_lib"
  by (simp add: ini_ok_def demo_lib_def)

definition demo_range :: str_map where
  "demo_range = [(''type'', ''tcp''), (''local_port'', ''7''), (''remote_port'', ''9'')]"

lemma demo_range_ports: "ParseRangeNumbers ''7'' = Some ([7], None)" "ParseRangeNumbers ''9'' = Some ([9], None)"
  by (simp_all add: ParseRangeNumbers_def parse_range_def parse_int_def parse_sign_def digit_val_def trim_space_def
      trim_left_space_def trim_right_space_def space_runes_def Let_def)

theorem range_expands_witness:
  "\<exists>t. renderRangeProxyTemplates demo_lib [(''range:web'', demo_range)] (''range:web'', demo_range) = Some (Inr [(''range:web'', demo_range), t]) \<and>
     fst t = trim_space ''web'' @ ''_'' @ show_nat 0 \<and> section_key (snd t) ''remote_port'' = show_int 9 \<and> section_key (snd t) ''type'' = ''tcp''"
proof -
  have fresh: "trim_space ''web'' @ ''_'' @ show_nat j \<notin> fst ` set [(''range:web'', demo_range)]" for j
    by (simp add: trim_space_def trim_left_space_def trim_right_space_def space_runes_def)
  have p: "ParseRangeNumbers (section_key demo_range ''local_port'') = Some ([7], None)"
    "ParseRangeNumbers (section_key demo_range ''remote_port'') = Some ([9], None)"
    using demo_range_ports by (simp_all add: demo_range_def section_key_def)
  have k: "distinct (map fst demo_range)" "'''' \<notin> fst ` set demo_range" "section_key demo_range ''type'' = ''tcp''"
    by (simp_all add: demo_range_def section_key_def)
  from range_expands [OF demo_lib_ok k(1,2) fresh p] obtain ts where ts:
    "renderRangeProxyTemplates demo_lib [(''range:web'', demo_range)] (''range:'' @ ''web'', demo_range) = Some (Inr ([(''range:web'', demo_range)] @ ts))"
    "length ts = 1" "fst (ts ! 0) = trim_space ''web'' @ ''_'' @ show_nat 0" "section_key (snd (ts ! 0)) ''remote_port'' = show_int 9"
    "\<forall>k. k \<notin> {''local_port'', ''remote_port''} \<longrightarrow> section_key (snd (ts ! 0)) k = section_key demo_range k" by auto
  then obtain t where "ts = [t]" by (cases ts) auto
  with ts k(3) show ?thesis by (intro exI [of _ t]) simp
qed

section \<open>The loader\<close>

text \<open>The sections that are loaded as proxies and as visitors.\<close>

definition section_role :: "str_map \<Rightarrow> string" where
  "section_role keys = (if section_key keys ''role'' = '''' then ''server'' else section_key keys ''role'')"

definition proxy_section :: "ini_lib \<Rightarrow> string \<Rightarrow> string list \<Rightarrow> ini_file \<Rightarrow> string \<Rightarrow> proxy_conf \<Rightarrow> bool" where
  "proxy_section lib pre start f n c \<longleftrightarrow> (\<exists>name keys. (name, keys) \<in> set f \<and> \<not> section_skipped lib start name \<and> n = pre @ name \<and>
     section_role keys = ''server'' \<and> NewProxyConfFromIni (ni_parse_float lib) (ni_MapToProxy lib keys) pre name keys = Inr c)"

definition visitor_section :: "ini_lib \<Rightarrow> string \<Rightarrow> string list \<Rightarrow> ini_file \<Rightarrow> string \<Rightarrow> visitor_conf \<Rightarrow> bool" where
  "visitor_section lib pre start f n c \<longleftrightarrow> (\<exists>name keys. (name, keys) \<in> set f \<and> \<not> section_skipped lib start name \<and> n = pre @ name \<and>
     section_role keys = ''visitor'' \<and> NewVisitorConfFromIni (ni_contains lib) (ni_MapToVisitor lib keys) pre name keys = Inr c)"

lemma load_sections_cons:
  assumes "load_sections lib pre start ((name, keys) # f) ps vs = Inr (ps', vs')"
  obtains (skipped) "section_skipped lib start name" and "load_sections lib pre start f ps vs = Inr (ps', vs')"
  | (proxy) c where "\<not> section_skipped lib start name" and "section_role keys = ''server''"
      and "NewProxyConfFromIni (ni_parse_float lib) (ni_MapToProxy lib keys) pre name keys = Inr c"
      and "load_sections lib pre start f (ps(pre @ name \<mapsto> c)) vs = Inr (ps', vs')"
  | (visitor) c where "\<not> section_skipped lib start name" and "section_role keys = ''visitor''"
      and "NewVisitorConfFromIni (ni_contains lib) (ni_MapToVisitor lib keys) pre name keys = Inr c"
      and "load_sections lib pre start f ps (vs(pre @ name \<mapsto> c)) = Inr (ps', vs')"
  using assms by (auto simp: Let_def section_role_def split: if_splits sum.splits)

lemma section_tail:
  "proxy_section lib pre start (s # f) n c \<longleftrightarrow> proxy_section lib pre start [s] n c \<or> proxy_section lib pre start f n c"
  "visitor_section lib pre start (s # f) n d \<longleftrightarrow> visitor_section lib pre start [s] n d \<or> visitor_section lib pre start f n d"
  by (auto simp: proxy_section_def visitor_section_def)

lemma load_sections_spec:
  assumes "load_sections lib pre start f ps vs = Inr (ps', vs')" and "distinct (map fst f)"
    and "\<And>n. n \<in> fst ` set f \<Longrightarrow> ps (pre @ n) = None \<and> vs (pre @ n) = None"
  shows "(\<forall>n c. ps' n = Some c \<longleftrightarrow> ps n = Some c \<or> proxy_section lib pre start f n c) \<and>
    (\<forall>n c. vs' n = Some c \<longleftrightarrow> vs n = Some c \<or> visitor_section lib pre start f n c)"
  using assms
proof (induction f arbitrary: ps vs)
  case Nil
  then show ?case by (simp add: proxy_section_def visitor_section_def)
next
  case (Cons s f)
  obtain name keys where s: "s = (name, keys)" by (cases s)
  have new: "ps (pre @ name) = None" "vs (pre @ name) = None" using Cons.prems(3) [of name] by (auto simp: s)
  have name: "name \<notin> fst ` set f" "distinct (map fst f)" using Cons.prems(2) by (simp_all add: s)
  from Cons.prems(1)[unfolded s] show ?case
  proof (cases rule: load_sections_cons)
    case skipped
    then have "\<not> proxy_section lib pre start [s] n c" "\<not> visitor_section lib pre start [s] n d" for n c d
      by (auto simp: proxy_section_def visitor_section_def s)
    then show ?thesis using Cons.IH [OF skipped(2) name(2)] Cons.prems(3) unfolding section_tail [of _ _ _ s f] by simp
  next
    case (proxy c)
    then have "proxy_section lib pre start [s] n c' \<longleftrightarrow> n = pre @ name \<and> c' = c" "\<not> visitor_section lib pre start [s] n d" for n c' d
      by (auto simp: proxy_section_def visitor_section_def s)
    moreover have "(ps(pre @ name \<mapsto> c)) (pre @ n) = None \<and> vs (pre @ n) = None" if "n \<in> fst ` set f" for n
      using that Cons.prems(3) [of n] name(1) by auto
    ultimately show ?thesis
      using Cons.IH [OF proxy(4) name(2)] new(1) unfolding section_tail [of _ _ _ s f] by (auto simp: fun_upd_apply)
  next
    case (visitor c)
    then have "visitor_section lib pre start [s] n c' \<longleftrightarrow> n = pre @ name \<and> c' = c" "\<not> proxy_section lib pre start [s] n d" for n c' d
      by (auto simp: proxy_section_def visitor_section_def s)
    moreover have "ps (pre @ n) = None \<and> (vs(pre @ name \<mapsto> c)) (pre @ n) = None" if "n \<in> fst ` set f" for n
      using that Cons.prems(3) [of n] name(1) by auto
    ultimately show ?thesis
      using Cons.IH [OF visitor(4) name(2)] new(2) unfolding section_tail [of _ _ _ s f] by (auto simp: fun_upd_apply)
  qed
qed

text \<open>What the library guarantees of a file: the names of the sections differ, and no key is empty.\<close>

definition file_ok :: "ini_file \<Rightarrow> bool" where
  "file_ok f \<longleftrightarrow> distinct (map fst f) \<and> (\<forall>(n, keys) \<in> set f. '''' \<notin> fst ` set keys)"

lemma file_ok_new: "file_ok f \<Longrightarrow> file_ok (if n \<in> fst ` set f then f else f @ [(n, [])])"
  by (auto simp: file_ok_def)

lemma map_put_keys: "fst ` set (map_put k v m) = insert k (fst ` set m)"
  by (induction k v m rule: map_put.induct) auto

lemma file_ok_set_key: "file_ok f \<Longrightarrow> k \<noteq> '''' \<Longrightarrow> file_ok (set_key n k v f)"
  by (fastforce simp: file_ok_def set_key_def o_def case_prod_beta map_put_keys)

lemma copySection_ok:
  "ini_ok lib \<Longrightarrow> '''' \<notin> fst ` set keys \<Longrightarrow> file_ok f \<Longrightarrow> n \<in> fst ` set f \<Longrightarrow>
   file_ok (copySection lib keys n f) \<and> fst ` set (copySection lib keys n f) = fst ` set f"
proof (induction keys arbitrary: f)
  case (Cons p keys)
  obtain k v where p: "p = (k, v)" by (cases p)
  then have k: "k \<noteq> ''''" using Cons.prems(2) by auto
  have "copySection lib (p # keys) n f = copySection lib keys n (set_key n k v f)"
    using ini_okD(2) [OF Cons.prems(1,4) k] by (simp add: p)
  then show ?case
    using Cons.IH [of "set_key n k v f"] Cons.prems file_ok_set_key [OF Cons.prems(3) k] by simp
qed simp

lemma range_templates_ok:
  "ini_ok lib \<Longrightarrow> '''' \<notin> fst ` set keys \<Longrightarrow> file_ok f \<Longrightarrow> range_templates lib pre keys i ports f = Inr f' \<Longrightarrow> file_ok f'"
proof (induction ports arbitrary: i f)
  case (Cons p ports)
  obtain l r where p: "p = (l, r)" by (cases p)
  let ?n = "pre @ ''_'' @ show_nat i"
  define f1 where "f1 = (if ?n \<in> fst ` set f then f else f @ [(?n, [])])"
  have f1: "ni_NewSection lib ?n f = Some f1" "file_ok f1" "?n \<in> fst ` set f1"
    unfolding f1_def using ini_okD(1) [OF Cons.prems(1), of ?n f] file_ok_new [OF Cons.prems(3), of ?n] by simp_all
  define f2 where "f2 = copySection lib keys ?n f1"
  have f2: "file_ok f2" "?n \<in> fst ` set f2" using copySection_ok [OF Cons.prems(1,2) f1(2,3)] f1(3) by (simp_all add: f2_def)
  define f3 where "f3 = set_key ?n ''remote_port'' (show_int r) (set_key ?n ''local_port'' (show_int l) f2)"
  have f3: "file_ok f3" unfolding f3_def by (intro file_ok_set_key f2) simp_all
  have "ni_NewKey lib ?n ''local_port'' (show_int l) f2 = Some (set_key ?n ''local_port'' (show_int l) f2)"
    by (rule ini_okD(2) [OF Cons.prems(1) f2(2)]) simp
  moreover have "ni_NewKey lib ?n ''remote_port'' (show_int r) (set_key ?n ''local_port'' (show_int l) f2) = Some f3"
    unfolding f3_def by (rule ini_okD(2) [OF Cons.prems(1)]) (simp_all add: f2(2) del: append.simps append_Cons)
  ultimately have "range_templates lib pre keys (Suc i) ports f3 = Inr f'"
    using Cons.prems(4) f1(1) f2_def by (simp add: p Let_def)
  then show ?case using Cons.IH [OF Cons.prems(1,2) f3] by blast
qed simp

lemma render_ranges_ok:
  "ini_ok lib \<Longrightarrow> file_ok f \<Longrightarrow> render_ranges lib names f = Some (Inr f') \<Longrightarrow> file_ok f'"
proof (induction names arbitrary: f)
  case (Cons n names)
  let ?keys = "case map_of f n of None \<Rightarrow> [] | Some keys \<Rightarrow> keys"
  have keys: "'''' \<notin> fst ` set ?keys"
    using Cons.prems(2) by (auto simp: file_ok_def dest: map_of_SomeD split: option.splits)
  obtain f1 where f1: "renderRangeProxyTemplates lib f (n, ?keys) = Some (Inr f1)" "render_ranges lib names f1 = Some (Inr f')"
    using Cons.prems(3) by (auto split: option.splits sum.splits)
  then obtain pre ports where "range_templates lib pre ?keys 0 ports f = Inr f1"
    by (auto simp: renderRangeProxyTemplates_def Let_def split: if_splits option.splits prod.splits)
  from range_templates_ok [OF Cons.prems(1) keys Cons.prems(2) this] show ?case
    using Cons.IH [OF Cons.prems(1) _ f1(2)] by blast
qed simp

lemma decorate_name: "bc_ProxyName (fst (decorate pf pre name keys b)) = pre @ name"
  by (auto simp: decorate_def Let_def split: option.splits prod.splits)

lemma upd_base_name: "GetBaseConfig (upd_base g c) = g (GetBaseConfig c)"
  by (cases c) simp_all

lemma NewProxyConfFromIni_name:
  assumes "NewProxyConfFromIni pf mapTo pre name keys = Inr c"
  shows "bc_ProxyName (GetBaseConfig c) = pre @ name"
proof -
  obtain c0 c1 where u: "preUnmarshalFromIni pf mapTo c0 pre name keys = Inr c1" and c: "GetBaseConfig c = GetBaseConfig c1"
    using assms by (auto simp: NewProxyConfFromIni_def UnmarshalFromIni_def Let_def split: if_splits option.splits sum.splits proxy_conf.splits)
  from u obtain c2 b where "decorate pf pre name keys (GetBaseConfig c2) = (b, None)" "c1 = upd_base (\<lambda>_. b) c2"
    by (auto simp: preUnmarshalFromIni_def split: option.splits prod.splits)
  then show ?thesis using decorate_name [of pf pre name keys "GetBaseConfig c2"] by (simp add: c upd_base_name)
qed

text \<open>What a load that succeeds has gone through, and that it stores everything under its own name.\<close>

lemma LoadAll_sections:
  assumes "ini_ok lib" and "ni_LoadSources lib source = Some f0" and "file_ok f0"
    and "LoadAllProxyConfsFromIni lib user source start = Some (Inr (ps, vs))"
    and "pre = (if user = '''' then '''' else user @ ''.'')"
  obtains f where "render_ranges lib (filter (\<lambda>name. has_prefix name ''range:'') (map fst f0)) f0 = Some (Inr f)"
    and "distinct (map fst f)" and "load_sections lib pre start f Map.empty Map.empty = Inr (ps, vs)"
proof -
  obtain f where f: "render_ranges lib (filter (\<lambda>name. has_prefix name ''range:'') (map fst f0)) f0 = Some (Inr f)"
    and l: "load_sections lib pre start f Map.empty Map.empty = Inr (ps, vs)"
    using assms(2,4) unfolding assms(5) LoadAllProxyConfsFromIni_def
    by (cases "user = ''''") (auto simp: Let_def split: option.splits sum.splits)
  show ?thesis using that [OF f _ l] render_ranges_ok [OF assms(1,3) f] by (simp add: file_ok_def)
qed

lemma load_sections_keyed:
  assumes "load_sections lib pre start f Map.empty Map.empty = Inr (ps, vs)" and "distinct (map fst f)"
  shows "keyed ps \<and> vkeyed vs \<and> dom ps \<inter> dom vs = {}"
proof -
  note spec = load_sections_spec [OF assms]
  have "keyed ps" by (auto simp: keyed_def spec proxy_section_def dest: NewProxyConfFromIni_name)
  moreover have "vkeyed vs" by (auto simp: vkeyed_def spec visitor_section_def dest: visitor_section_sound)
  moreover have "\<not> (proxy_section lib pre start f n c \<and> visitor_section lib pre start f n v)" for n c v
    using eq_key_imp_eq_value [OF assms(2)] by (fastforce simp: proxy_section_def visitor_section_def)
  then have "dom ps \<inter> dom vs = {}" by (auto simp: dom_def spec)
  ultimately show ?thesis by simp
qed


definition demo_file :: ini_file where
  "demo_file = [(''common'', [(''user'', ''bob'')]), (''v'', [(''type'', ''stcp''), (''role'', ''visitor'')]), (''w'', [(''type'', ''stcp''), (''role'', ''visitor'')])]"

definition demo_loader :: ini_lib where
  "demo_loader = demo_lib\<lparr>ni_LoadSources := (\<lambda>_. Some demo_file),
     ni_MapToVisitor := (\<lambda>_ _. Some (STCPVisitorConf (zero_visitor\<lparr>bv_Role := ''visitor'', bv_BindPort := 9000, bv_ServerName := ''ssh''\<rparr>)))\<rparr>"


section \<open>The settings\<close>

text \<open>
  The settings of the server: a file that is read gives exactly the allowed ports it lists,
  once each range is expanded; the API server is used unless the file says \<open>api_enable = false\<close>,
  also if it says nothing, although the default is not to use it; and completing the settings
  gives the proxies an address to listen on and turns on TLS for a trusted CA.
\<close>

theorem server_settings_read:
  assumes "ni_LoadSources lib source = Some f" and "map_of f ''common'' = Some keys"
    and "ni_MapToServer lib keys GetDefaultServerConf = Some c" and "ss_AllowPorts c = {}"
    and "UnmarshalServerConfFromIni lib source = Some (Inr s)" and "s' = server_Complete s"
  shows "ss_AllowPorts s = (if section_key keys ''allow_ports'' = '''' then {}
      else set (fst (the (ParseRangeNumbers (section_key keys ''allow_ports''))))) \<and>
    (ss_EnableApi s \<longleftrightarrow> section_key keys ''api_enable'' \<noteq> ''false'') \<and> \<not> ss_EnableApi GetDefaultServerConf \<and>
    (ss_ProxyBindAddr s' = '''' \<longleftrightarrow> ss_ProxyBindAddr s = '''' \<and> ss_BindAddr s = '''') \<and>
    (ss_TLSOnly s' \<longleftrightarrow> ss_TLSOnly s \<or> ss_TLSTrustedCaFile s \<noteq> '''') \<and> ss_AllowPorts s' = ss_AllowPorts s"
proof -
  have complete: "(ss_ProxyBindAddr s' = '''' \<longleftrightarrow> ss_ProxyBindAddr s = '''' \<and> ss_BindAddr s = '''') \<and>
    (ss_TLSOnly s' \<longleftrightarrow> ss_TLSOnly s \<or> ss_TLSTrustedCaFile s \<noteq> '''') \<and> ss_AllowPorts s' = ss_AllowPorts s"
    by (simp add: assms(6) server_Complete_def Let_def)
  obtain opts where opts: "load_plugins lib f [] = Some opts"
    using assms(1-3,5) by (cases "load_plugins lib f []") (auto simp: UnmarshalServerConfFromIni_def Let_def split: if_splits option.splits)
  show ?thesis
  proof (cases "section_key keys ''allow_ports'' = ''''")
    case True
    then show ?thesis using assms(1-5) opts complete by (auto simp: UnmarshalServerConfFromIni_def GetDefaultServerConf_def)
  next
    case False
    then obtain ports where p: "ParseRangeNumbers (section_key keys ''allow_ports'') = Some (ports, None)"
      using assms(1-3,5) by (auto simp: UnmarshalServerConfFromIni_def Let_def split: option.splits)
    with False show ?thesis using assms(1-5) opts complete by (auto simp: UnmarshalServerConfFromIni_def GetDefaultServerConf_def)
  qed
qed

text \<open>
  What is accepted of a client's settings: heartbeats that can be answered in time, a known protocol
  and included files whose directories exist; a disabled heartbeat is accepted.
\<close>

theorem client_settings_valid:
  assumes "\<And>xs x. ni_contains lib xs x \<longleftrightarrow> x \<in> set xs"
  shows "client_Validate lib dir_exists c = None \<longleftrightarrow>
    (cs_HeartbeatTimeout c \<le> 0 \<or> cs_HeartbeatInterval c \<le> cs_HeartbeatTimeout c) \<and>
    cs_Protocol c \<in> {''tcp'', ''kcp'', ''quic'', ''websocket'', ''wss''} \<and>
    (\<forall>f \<in> set (cs_IncludeConfigFiles c). dir_exists f)"
  by (auto simp: client_Validate_def assms find_None_iff)

theorem server_settings_read_witness:
  "\<exists>s. UnmarshalServerConfFromIni demo_loader '''' = Some (Inr s) \<and> ss_EnableApi s \<and> ss_AllowPorts s = {} \<and>
     ss_ProxyBindAddr (server_Complete s) \<noteq> ''''"
proof -
  let ?s = "GetDefaultServerConf\<lparr>ss_EnableApi := True, ss_ApiBaseUrl := '''', ss_ApiToken := '''', ss_HTTPPlugins := []\<rparr>"
  have f: "ni_LoadSources demo_loader '''' = Some demo_file" "map_of demo_file ''common'' = Some [(''user'', ''bob'')]"
    "ni_MapToServer demo_loader [(''user'', ''bob'')] GetDefaultServerConf = Some GetDefaultServerConf"
    by (simp_all add: demo_loader_def demo_file_def demo_lib_def)
  have p: "load_plugins demo_loader demo_file [] = Some []" by (simp add: demo_file_def)
  have k: "section_key [(''user'', ''bob'')] k = (if k = ''user'' then ''bob'' else '''')" for k by (simp add: section_key_def)
  have u: "UnmarshalServerConfFromIni demo_loader '''' = Some (Inr ?s)"
    by (simp add: UnmarshalServerConfFromIni_def f p k)
  have a: "ss_AllowPorts GetDefaultServerConf = {}" "ss_BindAddr ?s \<noteq> ''''" by (simp_all add: GetDefaultServerConf_def)
  from server_settings_read [OF f a(1) u refl] show ?thesis
    using u a(2) by (intro exI [of _ ?s]) (simp add: k)
qed

end
