(* ===== verification/Frp_AdminApi.thy ===== *)
theory Frp_AdminApi
  imports Frp_Visitors Frp_Settings Frp_Dashboard "HOL-Library.Product_Lexorder"
begin

text \<open>
  The administration of the client (\<open>client/admin_api.go\<close>, with \<open>ReloadConf\<close> and
  \<open>GracefulClose\<close> of \<open>client/service.go\<close> and \<open>client/control.go\<close>, and \<open>HTTPAuthMiddleware\<close> of
  \<open>pkg/util/net/http.go\<close>): the answers that the pages of the client's dashboard read, the
  file that they edit, and the reload that puts it to work. Rendering the templates of
  a file is an argument. An answer \<open>None\<close> is a request that is never answered: the handler panics
  or does not return.
\<close>

section \<open>The state of the client\<close>

text \<open>
  \<open>fs_file\<close>: the configuration file, or the error of reading it; \<open>fs_ctl\<close>: the managers of
  the control, if there is one.
\<close>

record frpc_service =
  fs_cfgFile :: string
  fs_file :: "string + string"
  fs_ServerAddr :: string
  fs_pxyCfgs :: "string \<rightharpoonup> proxy_conf"
  fs_visitorCfgs :: "string \<rightharpoonup> visitor_conf"
  fs_ctl :: "(proxy_manager \<times> visitors_mgr) option"
  fs_exit :: bool

text \<open>
  The environment of a reload: the orders in which the maps are iterated, the errors of
  listening, the libraries and the text of an error.
\<close>

record reload_env =
  rl_old_proxies :: "string list"
  rl_new_proxies :: "string list"
  rl_old_visitors :: "string list"
  rl_new_visitors :: "string list"
  rl_listen :: "string \<Rightarrow> string option"
  rl_lib :: ini_lib
  rl_http_proxy :: string
  rl_dir_exists :: "string \<Rightarrow> bool"
  rl_includes :: "string list \<Rightarrow> string + string"
  rl_render :: "string \<Rightarrow> string + string"
  rl_text :: "settings_error \<Rightarrow> string"

definition ctl_ReloadConf ::
    "reload_env \<Rightarrow> (string \<rightharpoonup> proxy_conf) \<Rightarrow> (string \<rightharpoonup> visitor_conf) \<Rightarrow> proxy_manager \<times> visitors_mgr \<Rightarrow>
     (string option \<times> proxy_manager \<times> visitors_mgr) option" where
  "ctl_ReloadConf e pxyCfgs visitorCfgs ctl =
     (let vm = vm_Reload (rl_listen e) visitorCfgs (rl_old_visitors e) (rl_new_visitors e) (snd ctl)
      in case Frp_Client.Reload pxyCfgs (rl_old_proxies e) (rl_new_proxies e) (fst ctl) of
           None \<Rightarrow> None
         | Some pm \<Rightarrow> Some (None, pm, vm))"

definition svc_ReloadConf ::
    "reload_env \<Rightarrow> (string \<rightharpoonup> proxy_conf) \<Rightarrow> (string \<rightharpoonup> visitor_conf) \<Rightarrow> frpc_service \<Rightarrow>
     (string option \<times> frpc_service) option" where
  "svc_ReloadConf e pxyCfgs visitorCfgs s =
     (let s = s\<lparr>fs_pxyCfgs := pxyCfgs, fs_visitorCfgs := visitorCfgs\<rparr>
      in case fs_ctl s of
           None \<Rightarrow> Some (None, s)
         | Some ctl \<Rightarrow>
             (case ctl_ReloadConf e pxyCfgs visitorCfgs ctl of
                None \<Rightarrow> None
              | Some (err, ctl') \<Rightarrow> Some (err, s\<lparr>fs_ctl := Some ctl'\<rparr>)))"

text \<open>\<open>order\<close>: the order of the iteration over the proxies.\<close>

definition ctl_GracefulClose :: "string list \<Rightarrow> proxy_manager \<times> visitors_mgr \<Rightarrow> (proxy_manager \<times> visitors_mgr) option" where
  "ctl_GracefulClose order ctl = map_option (\<lambda>pm. (pm, vm_Close (snd ctl))) (pm_Close order (fst ctl))"

definition svc_GracefulClose :: "string list \<Rightarrow> frpc_service \<Rightarrow> frpc_service option" where
  "svc_GracefulClose order s =
     (let s = s\<lparr>fs_exit := True\<rparr>
      in case fs_ctl s of
           None \<Rightarrow> Some s
         | Some ctl \<Rightarrow> map_option (\<lambda>_. s\<lparr>fs_ctl := None\<rparr>) (ctl_GracefulClose order ctl))"

section \<open>Reload and stop\<close>

text \<open>\<open>GetRenderedConfFromFile\<close> of \<open>pkg/config/value.go\<close>.\<close>

definition GetRenderedConfFromFile :: "(string \<Rightarrow> string + string) \<Rightarrow> string + string \<Rightarrow> string + string" where
  "GetRenderedConfFromFile render file = (case file of Inl err \<Rightarrow> Inl err | Inr b \<Rightarrow> render b)"

definition parse_file :: "reload_env \<Rightarrow> string + string \<Rightarrow>
    (settings_error + client_settings \<times> (string \<rightharpoonup> proxy_conf) \<times> (string \<rightharpoonup> visitor_conf)) option" where
  "parse_file e file =
     ParseClientConfig (rl_lib e) (rl_http_proxy e) (rl_dir_exists e) (rl_includes e)
       (case GetRenderedConfFromFile (rl_render e) file of Inl _ \<Rightarrow> None | Inr c \<Rightarrow> Some c)"

definition apiReload :: "reload_env \<Rightarrow> frpc_service \<Rightarrow> ((int \<times> string) \<times> frpc_service) option" where
  "apiReload e s =
     (case parse_file e (fs_file s) of
        None \<Rightarrow> None
      | Some (Inl err) \<Rightarrow> Some ((400, rl_text e err), s)
      | Some (Inr (_, pxyCfgs, visitorCfgs)) \<Rightarrow>
          (case svc_ReloadConf e pxyCfgs visitorCfgs s of
             None \<Rightarrow> None
           | Some (Some err, s') \<Rightarrow> Some ((500, err), s')
           | Some (None, s') \<Rightarrow> Some ((200, ''''), s')))"

text \<open>The client is closed after the answer.\<close>

definition apiStop :: "string list \<Rightarrow> frpc_service \<Rightarrow> (int \<times> string) \<times> frpc_service option" where
  "apiStop order s = ((200, ''''), svc_GracefulClose order s)"

section \<open>The status of the proxies\<close>

definition phase_text :: "phase \<Rightarrow> string" where
  "phase_text p =
     (case p of PhaseNew \<Rightarrow> ''new'' | PhaseWaitStart \<Rightarrow> ''wait start'' | PhaseStartErr \<Rightarrow> ''start error''
      | PhaseRunning \<Rightarrow> ''running'' | PhaseCheckFailed \<Rightarrow> ''check failed'' | PhaseClosed \<Rightarrow> ''closed'')"

record proxy_status_resp =
  psr_Name :: string
  psr_Type :: string
  psr_Status :: string
  psr_Err :: string
  psr_LocalAddr :: string
  psr_Plugin :: string
  psr_RemoteAddr :: string

text \<open>\<open>contains\<close> stands for \<open>lo.Contains\<close>.\<close>

definition NewProxyStatusResp :: "(string list \<Rightarrow> string \<Rightarrow> bool) \<Rightarrow> working_status \<Rightarrow> string \<Rightarrow> proxy_status_resp" where
  "NewProxyStatusResp contains status serverAddr =
     (let l = bc_LocalSvrConf (GetBaseConfig (ws_Cfg status))
      in \<lparr>psr_Name = ws_Name status, psr_Type = ws_Type status, psr_Status = phase_text (ws_Phase status),
          psr_Err = ws_Err status,
          psr_LocalAddr = (if ls_LocalPort l \<noteq> 0 then join_host_port (ls_LocalIP l) (show_int (ls_LocalPort l)) else ''''),
          psr_Plugin = ls_Plugin l,
          psr_RemoteAddr =
            (if ws_Err status = ''''
             then if contains [''tcp'', ''udp''] (ws_Type status) then serverAddr @ ws_RemoteAddr status else ws_RemoteAddr status
             else '''')\<rparr>)"

text \<open>
  The answer is a map from types to lists. It is kept here in the order of its keys, in which it
  is encoded.
\<close>

fun status_append :: "proxy_status_resp \<Rightarrow> (string \<times> proxy_status_resp list) list \<Rightarrow> (string \<times> proxy_status_resp list) list" where
  "status_append p [] = [(psr_Type p, [p])]"
| "status_append p ((ty, ps) # res) =
     (if psr_Type p = ty then (ty, ps @ [p]) # res
      else if psr_Type p < ty then (psr_Type p, [p]) # (ty, ps) # res
      else (ty, ps) # status_append p res)"

definition sort_by_name :: "proxy_status_resp list \<Rightarrow> proxy_status_resp list" where
  "sort_by_name ps = (if length ps \<le> 1 then ps else sort_key psr_Name ps)"

definition status_json :: "proxy_status_resp \<Rightarrow> js_val" where
  "status_json p = JObj [(''name'', JStr (psr_Name p)), (''type'', JStr (psr_Type p)), (''status'', JStr (psr_Status p)),
     (''err'', JStr (psr_Err p)), (''local_addr'', JStr (psr_LocalAddr p)), (''plugin'', JStr (psr_Plugin p)),
     (''remote_addr'', JStr (psr_RemoteAddr p))]"

text \<open>Without a control the handler panics.\<close>

definition apiStatus :: "(string list \<Rightarrow> string \<Rightarrow> bool) \<Rightarrow> string list \<Rightarrow> frpc_service \<Rightarrow> js_val option" where
  "apiStatus contains order s =
     (case fs_ctl s of
        None \<Rightarrow> None
      | Some (pm, _) \<Rightarrow>
          let ps = GetAllProxyStatus order pm;
              res = fold (\<lambda>status. status_append (NewProxyStatusResp contains status (fs_ServerAddr s))) ps [];
              res = map (\<lambda>(ty, arrs). (ty, sort_by_name arrs)) res
          in Some (JObj (map (\<lambda>(ty, arrs). (ty, JArr (map status_json arrs))) res)))"

section \<open>The configuration file\<close>

abbreviation newline :: char where "newline \<equiv> CHR 0x0A"

definition is_token_row :: "string \<Rightarrow> bool" where
  "is_token_row row \<longleftrightarrow> has_prefix row ''token''"

text \<open>The rows of a text, trimmed, without those that start with \<open>token\<close>.\<close>

definition rows_without_token :: "string \<Rightarrow> string list" where
  "rows_without_token content = filter (\<lambda>row. \<not> is_token_row row) (map trim_space (go_split newline content))"

definition apiGetConfig :: "(string \<Rightarrow> string + string) \<Rightarrow> frpc_service \<Rightarrow> int \<times> string" where
  "apiGetConfig render s =
     (if fs_cfgFile s = '''' then (400, ''frpc has no config file path'')
      else case GetRenderedConfFromFile render (fs_file s) of
             Inl err \<Rightarrow> (400, err)
           | Inr content \<Rightarrow> (200, go_join [newline] (rows_without_token content)))"

text \<open>The first such row of the old file.\<close>

fun token_row :: "string list \<Rightarrow> string" where
  "token_row [] = ''''"
| "token_row (row # rows) = (let row = trim_space row in if is_token_row row then row else token_row rows)"

definition insert_token :: "string \<Rightarrow> string list \<Rightarrow> string list" where
  "insert_token token rows =
     (if token \<noteq> '''' then concat (map (\<lambda>row. row # (if has_prefix row ''[common]'' then [token] else [])) rows) else rows)"

text \<open>
  \<open>body\<close>: the body, or the error of reading it; \<open>write\<close>: if writing fails, the error and what the
  file is then.
\<close>

definition apiPutConfig :: "string + string \<Rightarrow> (string \<times> (string + string)) option \<Rightarrow> frpc_service \<Rightarrow> (int \<times> string) \<times> frpc_service" where
  "apiPutConfig body write s =
     (case body of
        Inl err \<Rightarrow> ((400, ''read request body error: '' @ err), s)
      | Inr body \<Rightarrow>
          if length body = 0 then ((400, ''body can't be empty''), s)
          else case fs_file s of
                 Inl err \<Rightarrow> ((400, err), s)
               | Inr content \<Rightarrow>
                   let token = token_row (go_split newline content);
                       content = go_join [newline] (insert_token token (rows_without_token body))
                   in case write of
                        Some (err, file) \<Rightarrow>
                          ((500, ''write content to frpc config file error: '' @ err), s\<lparr>fs_file := file\<rparr>)
                      | None \<Rightarrow> ((200, ''''), s\<lparr>fs_file := Inr content\<rparr>))"

section \<open>The requests\<close>

text \<open>\<open>auth\<close>: the user and the password of a request, if it has them.\<close>

definition Middleware :: "string \<Rightarrow> string \<Rightarrow> (string \<times> string) option \<Rightarrow> 'a \<Rightarrow> 'a \<Rightarrow> 'a" where
  "Middleware user passwd auth served refused =
     (if user = '''' \<and> passwd = '''' \<or>
         (case auth of None \<Rightarrow> False | Some (u, p) \<Rightarrow> ConstantTimeEqString u user \<and> ConstantTimeEqString p passwd)
      then served else refused)"

datatype admin_request = Healthz | GetReload | PostStop | GetStatusPage | GetConfig | PutConfigBody "string + string"

datatype admin_answer = Text int string | Json js_val

text \<open>The answer, if there is one, and the state afterwards, if nothing hangs or panics for good.\<close>

definition serve_admin ::
    "reload_env \<Rightarrow> string list \<Rightarrow> (string \<times> (string + string)) option \<Rightarrow> string \<Rightarrow> string \<Rightarrow> (string \<times> string) option \<Rightarrow>
     admin_request \<Rightarrow> frpc_service \<Rightarrow> admin_answer option \<times> frpc_service option" where
  "serve_admin e order write user passwd auth req s =
     (if req = Healthz then (Some (Text 200 ''''), Some s)
      else Middleware user passwd auth
        (case req of
           Healthz \<Rightarrow> (Some (Text 200 ''''), Some s)
         | GetReload \<Rightarrow>
             (case apiReload e s of
                None \<Rightarrow> (None, None) | Some ((code, text), s') \<Rightarrow> (Some (Text code text), Some s'))
         | PostStop \<Rightarrow> (case apiStop order s of ((code, text), s') \<Rightarrow> (Some (Text code text), s'))
         | GetStatusPage \<Rightarrow> (map_option Json (apiStatus (ni_contains (rl_lib e)) order s), Some s)
         | GetConfig \<Rightarrow> (case apiGetConfig (rl_render e) s of (code, text) \<Rightarrow> (Some (Text code text), Some s))
         | PutConfigBody body \<Rightarrow>
             (case apiPutConfig body write s of ((code, text), s') \<Rightarrow> (Some (Text code text), Some s')))
        (Some (Text 401 (''Unauthorized'' @ [newline])), Some s))"

section \<open>The status page\<close>

definition status_key :: "proxy_status_resp \<Rightarrow> string \<times> string" where
  "status_key p = (psr_Type p, psr_Name p)"

definition grouped :: "(string \<times> proxy_status_resp list) list \<Rightarrow> bool" where
  "grouped res \<longleftrightarrow> sorted_wrt (<) (map fst res) \<and> (\<forall>(ty, ps) \<in> set res. \<forall>p \<in> set ps. psr_Type p = ty)"

lemma status_append_keys: "fst ` set (status_append p res) = insert (psr_Type p) (fst ` set res)"
  by (induction p res rule: status_append.induct) auto

lemma status_append_grouped: "grouped res \<Longrightarrow> grouped (status_append p res)"
proof (induction p res rule: status_append.induct)
  case (2 p ty ps res)
  have keys: "\<forall>k \<in> fst ` set (status_append p res). k = psr_Type p \<or> k \<in> fst ` set res"
    by (simp add: status_append_keys)
  have g: "grouped res" using "2.prems" by (auto simp: grouped_def)
  show ?case
  proof (cases "psr_Type p = ty \<or> psr_Type p < ty")
    case True
    then show ?thesis using "2.prems" by (auto simp: grouped_def)
  next
    case False
    then have "grouped (status_append p res)" using "2.IH" g by auto
    moreover have "\<forall>k \<in> fst ` set (status_append p res). ty < k"
      using keys "2.prems" False by (fastforce simp: grouped_def)
    ultimately show ?thesis using "2.prems" False by (auto simp: grouped_def)
  qed
qed (simp add: grouped_def)

lemma status_append_mset: "mset (concat (map snd (status_append p res))) = add_mset p (mset (concat (map snd res)))"
  by (induction p res rule: status_append.induct) auto

lemma status_fold:
  "grouped res \<Longrightarrow> grouped (fold status_append ps res) \<and>
     mset (concat (map snd (fold status_append ps res))) = mset (concat (map snd res)) + mset ps"
  by (induction ps arbitrary: res) (simp_all add: status_append_grouped status_append_mset)

lemma sort_by_name_eq: "sort_by_name ps = sort_key psr_Name ps"
proof (cases ps)
  case (Cons p qs)
  then show ?thesis by (cases qs) (simp_all add: sort_by_name_def)
qed (simp add: sort_by_name_def)

lemma grouped_sorted:
  "grouped res \<Longrightarrow> sorted (map status_key (concat (map (\<lambda>(ty, ps). sort_by_name ps) res)))"
proof (induction res)
  case (Cons g res)
  obtain ty ps where g: "g = (ty, ps)" by (cases g)
  have ps: "\<forall>p \<in> set ps. psr_Type p = ty" using Cons.prems by (auto simp: grouped_def g)
  have rest: "\<forall>q \<in> set (concat (map (\<lambda>(ty, ps). sort_by_name ps) res)). ty < psr_Type q"
    using Cons.prems by (fastforce simp: grouped_def g sort_by_name_eq)
  have "sorted (map psr_Name (sort_by_name ps))" by (simp add: sort_by_name_eq)
  then have "sorted_wrt (\<lambda>p q. status_key p \<le> status_key q) (sort_by_name ps)"
    unfolding sorted_map
    by (rule sorted_wrt_mono_rel [rotated]) (use ps in \<open>simp add: status_key_def sort_by_name_eq\<close>)
  then have "sorted (map status_key (sort_by_name ps))" by (simp add: sorted_map)
  moreover have "grouped res" using Cons.prems by (auto simp: grouped_def)
  ultimately show ?case
    using Cons.IH ps rest by (simp add: g sorted_append) (force simp: status_key_def sort_by_name_eq)
qed simp

lemma push_status_arrays: "push_status (map (\<lambda>(k, vs). (k, JArr vs)) kvs) acc = (None, acc @ concat (map snd kvs))"
  by (induction kvs arbitrary: acc) auto

lemma sort_key_map: "inj_on f (g ` set xs) \<Longrightarrow> inj_on g (set xs) \<Longrightarrow> sort_key f (map g xs) = map g (sort_key (f \<circ> g) xs)"
  for f :: "'a \<Rightarrow> 'b :: linorder"
proof (rule sort_key_inj_key_eq)
  have "sorted (map (f \<circ> g) (sort_key (f \<circ> g) xs))" by (rule sorted_sort_key)
  then show "sorted (map f (map g (sort_key (f \<circ> g) xs)))" by simp
qed simp_all

lemma sort_key_cong:
  fixes f g :: "'a \<Rightarrow> 'b :: linorder"
  assumes "\<And>x. x \<in> set xs \<Longrightarrow> f x = g x" and "inj_on f (set xs)"
  shows "sort_key f xs = sort_key g xs"
proof (rule sort_key_inj_key_eq [OF _ assms(2)])
  have "map f (sort_key g xs) = map g (sort_key g xs)" using assms(1) by simp
  then show "sorted (map f (sort_key g xs))" by (simp only: sorted_sort_key)
qed simp

lemma apiStatus_rows:
  fixes order
  defines "ps \<equiv> \<lambda>contains pm addr. map (\<lambda>w. NewProxyStatusResp contains w addr) (GetAllProxyStatus order pm)"
  assumes "fs_ctl s = Some (pm, vm)" and "inj_on status_key (set (ps contains pm (fs_ServerAddr s)))"
  shows "status_fetchData (apiStatus contains order s) old =
    (map status_json (sort_key status_key (ps contains pm (fs_ServerAddr s))), False)"
proof -
  let ?ps = "ps contains pm (fs_ServerAddr s)"
  let ?res = "fold status_append ?ps []"
  let ?flat = "concat (map (\<lambda>(ty, ps). sort_by_name ps) ?res)"
  have g: "grouped ?res" and m: "mset (concat (map snd ?res)) = mset ?ps"
    using status_fold [of "[]" ?ps] by (simp_all add: grouped_def)
  have "mset (concat (map (\<lambda>(ty, ps). sort_by_name ps) res)) = mset (concat (map snd res))" for res :: "(string \<times> proxy_status_resp list) list"
    by (induction res) (auto simp: sort_by_name_eq)
  then have "sort_key status_key ?ps = ?flat"
    using m g assms(3) by (intro sort_key_inj_key_eq) (simp_all only: grouped_sorted)
  moreover have "map status_json ?flat = concat (map snd (map (\<lambda>(ty, ps). (ty, map status_json (sort_by_name ps))) res))" if "res = ?res" for res
    unfolding that map_concat by (simp add: comp_def case_prod_beta)
  moreover have "fold (\<lambda>status. status_append (NewProxyStatusResp contains status (fs_ServerAddr s))) (GetAllProxyStatus order pm) [] = ?res"
    unfolding ps_def fold_map by (simp add: comp_def)
  moreover have "map (\<lambda>(ty, arrs). (ty, JArr (map status_json arrs))) (map (\<lambda>(ty, arrs). (ty, sort_by_name arrs)) ?res) =
      map (\<lambda>(k, vs). (k, JArr vs)) (map (\<lambda>(ty, ps). (ty, map status_json (sort_by_name ps))) ?res)"
    by auto
  ultimately show ?thesis
    using assms(2) by (simp add: apiStatus_def status_fetchData_def push_status_arrays Let_def del: map_map)
qed

text \<open>The row of a proxy.\<close>

definition status_row :: "(string list \<Rightarrow> string \<Rightarrow> bool) \<Rightarrow> string \<Rightarrow> wrapper \<Rightarrow> js_val" where
  "status_row contains addr w = status_json (NewProxyStatusResp contains (GetStatus w) addr)"

lemma GetAllProxyStatus_map:
  "set order \<subseteq> dom (pm_proxies pm) \<Longrightarrow> GetAllProxyStatus order pm = map (\<lambda>n. GetStatus (the (pm_proxies pm n))) order"
  by (induction order) (auto simp: GetAllProxyStatus_def)

text \<open>
  The table of the status page (\<open>web/frpc/src/components/Overview.vue\<close>): the labels of its columns with the
  properties that they show, and the cells of a row.
\<close>

definition status_columns :: "(string \<times> string) list" where
  "status_columns =
     [(''name'', ''name''), (''type'', ''type''), (''local address'', ''local_addr''), (''plugin'', ''plugin''),
      (''remote address'', ''remote_addr''), (''status'', ''status''), (''info'', ''err'')]"

definition status_cells :: "js_val \<Rightarrow> (string \<times> js_val) list" where
  "status_cells row = map (\<lambda>(label, prop). (label, fld row prop)) status_columns"

lemma fld_status_json:
  "fld (status_json p) ''name'' = JStr (psr_Name p)" "fld (status_json p) ''type'' = JStr (psr_Type p)"
  "fld (status_json p) ''local_addr'' = JStr (psr_LocalAddr p)" "fld (status_json p) ''plugin'' = JStr (psr_Plugin p)"
  "fld (status_json p) ''remote_addr'' = JStr (psr_RemoteAddr p)" "fld (status_json p) ''status'' = JStr (psr_Status p)"
  "fld (status_json p) ''err'' = JStr (psr_Err p)"
  unfolding status_json_def fld_def js_get.simps sum.case by simp_all

lemma status_row_phase: "(''status'', JStr ''running'') \<in> set (status_cells (status_row contains addr w)) \<longleftrightarrow> InWorkConn w"
  by (cases "w_Phase w") (simp_all add: status_cells_def status_columns_def status_row_def fld_status_json
      NewProxyStatusResp_def GetStatus_def Let_def phase_text_def InWorkConn_def)

lemma status_row_info: "(''info'', JStr err) \<in> set (status_cells (status_row contains addr w)) \<longleftrightarrow> err = w_Err w"
  by (auto simp add: status_cells_def status_columns_def status_row_def fld_status_json NewProxyStatusResp_def GetStatus_def Let_def)

text \<open>
  (C12) The status page shows what runs: for a client with a control the page shows exactly one row for each
  proxy of the manager, ordered by type and name whatever the order of the iteration, each
  with the phase of the proxy, so that it reads as running exactly if the proxy passes work
  connections on, and its last error; for a client without a control it keeps its rows and shows a warning.
\<close>

theorem status_page_exact:
  assumes "\<And>pm vm. fs_ctl s = Some (pm, vm) \<Longrightarrow> distinct order \<and> set order = dom (pm_proxies pm) \<and>
      (\<forall>n w. pm_proxies pm n = Some w \<longrightarrow> w_Name w = n)"
  shows "status_fetchData (apiStatus contains order s) old =
    (case fs_ctl s of
       None \<Rightarrow> (old, True)
     | Some (pm, _) \<Rightarrow>
         (map (\<lambda>n. status_row contains (fs_ServerAddr s) (the (pm_proxies pm n)))
            (sort_key (\<lambda>n. (w_Type (the (pm_proxies pm n)), n)) order), False)) \<and>
    ((''status'', JStr ''running'') \<in> set (status_cells (status_row contains addr w)) \<longleftrightarrow> InWorkConn w) \<and>
    ((''info'', JStr err) \<in> set (status_cells (status_row contains addr w)) \<longleftrightarrow> err = w_Err w)"
proof (cases "fs_ctl s")
  case None
  then show ?thesis by (simp add: apiStatus_def status_fetchData_def status_row_phase status_row_info)
next
  case (Some ctl)
  obtain pm vm where ctl: "ctl = (pm, vm)" by (cases ctl)
  let ?w = "\<lambda>n. the (pm_proxies pm n)"
  let ?p = "\<lambda>n. NewProxyStatusResp contains (GetStatus (?w n)) (fs_ServerAddr s)"
  have ord: "distinct order" "set order = dom (pm_proxies pm)" and name: "n \<in> set order \<Longrightarrow> w_Name (?w n) = n" for n
    using assms [of pm vm] Some ctl by auto
  have p: "psr_Name (?p n) = w_Name (?w n)" "psr_Type (?p n) = w_Type (?w n)" for n
    by (simp_all add: NewProxyStatusResp_def GetStatus_def Let_def)
  have inj: "inj_on (\<lambda>n. status_key (?p n)) (set order)"
    by (rule inj_onI) (metis name p(1) prod.inject status_key_def)
  then have key: "inj_on status_key (set (map ?p order))"
    unfolding set_map by (intro inj_on_imageI) (simp add: comp_def)
  have ps: "map (\<lambda>w. NewProxyStatusResp contains w (fs_ServerAddr s)) (GetAllProxyStatus order pm) = map ?p order"
    by (simp add: GetAllProxyStatus_map ord(2))
  have "status_fetchData (apiStatus contains order s) old = (map status_json (sort_key status_key (map ?p order)), False)"
    using apiStatus_rows [of s pm vm contains order old] Some ctl key unfolding ps by simp
  also have "sort_key status_key (map ?p order) = map ?p (sort_key (status_key \<circ> ?p) order)"
    by (rule sort_key_map [OF key [unfolded set_map] inj_on_imageI2 [where f' = status_key]]) (use inj in \<open>simp add: comp_def\<close>)
  also have "sort_key (status_key \<circ> ?p) order = sort_key (\<lambda>n. (w_Type (?w n), n)) order"
    by (rule sort_key_cong) (use inj in \<open>simp_all add: status_key_def p name comp_def\<close>)
  finally show ?thesis by (simp add: Some ctl status_row_phase status_row_info) (simp add: status_row_def comp_def)
qed

text \<open>Two proxies, iterated in the opposite order of their names.\<close>

definition demo_service :: frpc_service where
  "demo_service = \<lparr>fs_cfgFile = ''frpc.ini'', fs_file = Inr '''', fs_ServerAddr = ''1.2.3.4'', fs_pxyCfgs = Map.empty,
     fs_visitorCfgs = Map.empty,
     fs_ctl = Some (NewProxyManager\<lparr>pm_proxies := [''web'' \<mapsto> demo_waiting\<lparr>w_Name := ''web''\<rparr>, ''ssh'' \<mapsto> demo_waiting\<lparr>w_Name := ''ssh''\<rparr>]\<rparr>,
       NewVisitorsMgr), fs_exit = False\<rparr>"

theorem status_page_exact_witness:
  "status_fetchData (apiStatus (\<lambda>xs x. x \<in> set xs) [''web'', ''ssh''] demo_service) [] =
     ([status_row (\<lambda>xs x. x \<in> set xs) ''1.2.3.4'' (demo_waiting\<lparr>w_Name := ''ssh''\<rparr>),
       status_row (\<lambda>xs x. x \<in> set xs) ''1.2.3.4'' (demo_waiting\<lparr>w_Name := ''web''\<rparr>)], False)"
proof -
  have pre: "distinct [''web'', ''ssh''] \<and> set [''web'', ''ssh''] = dom (pm_proxies pm) \<and> (\<forall>n w. pm_proxies pm n = Some w \<longrightarrow> w_Name w = n)"
    if "fs_ctl demo_service = Some (pm, vm)" for pm vm
    using that by (auto simp: demo_service_def NewProxyManager_def split: if_splits)
  note status_page_exact [where s = demo_service and order = "[''web'', ''ssh'']" and contains = "\<lambda>xs x. x \<in> set xs" and old = "[]", OF pre]
  then show ?thesis by (simp add: demo_service_def)
qed

section \<open>The configuration page\<close>

lemma trimmed_no_newline: "newline \<notin> set (trim_space row)" if "row \<in> set (go_split newline text)"
  using set_trim_space [of row] go_split_parts [OF that] by blast

definition rows_ok :: "string list \<Rightarrow> bool" where
  "rows_ok rows \<longleftrightarrow> (\<forall>row \<in> set rows. newline \<notin> set row \<and> trim_space row = row)"

lemma rows_without_token_ok: "rows_ok (rows_without_token text)"
  by (auto simp: rows_ok_def rows_without_token_def trimmed_no_newline)

lemma token_row_ok: "rows_ok [token_row (go_split newline text)]"
proof -
  have "token_row rows = '''' \<or> token_row rows \<in> trim_space ` set rows" for rows
    by (induction rows) (auto simp: Let_def)
  from this [of "go_split newline text"] show ?thesis by (auto simp: rows_ok_def trimmed_no_newline)
qed

lemma token_row_is: "token_row rows \<noteq> '''' \<Longrightarrow> is_token_row (token_row rows)"
  by (induction rows) (auto simp: Let_def split: if_splits)

text \<open>Reading rows that were written.\<close>

definition token_rows :: "string \<Rightarrow> string list" where
  "token_rows text = filter is_token_row (map trim_space (go_split newline text))"

lemma written_rows:
  assumes "rows_ok rows"
  shows "map trim_space (go_split newline (go_join [newline] rows)) = (if rows = [] then [''''] else rows)"
proof (cases "rows = []")
  case False
  have "map trim_space rows = rows" using assms by (simp add: rows_ok_def map_idI)
  then show ?thesis using False assms by (simp add: go_split_join rows_ok_def)
qed simp

lemma empty_row: "\<not> is_token_row ''''" "\<not> has_prefix '''' ''[common]''"
  by (simp_all add: is_token_row_def)

lemma read_written:
  assumes "rows_ok rows"
  shows "go_join [newline] (rows_without_token (go_join [newline] rows)) = go_join [newline] (filter (\<lambda>row. \<not> is_token_row row) rows)"
    and "token_rows (go_join [newline] rows) = filter is_token_row rows"
  by (simp_all add: rows_without_token_def token_rows_def written_rows [OF assms] empty_row)

lemma common_no_token: "has_prefix row ''[common]'' \<Longrightarrow> \<not> is_token_row row"
  by (cases row) (simp_all add: is_token_row_def)

lemma insert_token_spec:
  assumes "\<forall>row \<in> set rows. \<not> is_token_row row" and "token \<noteq> '''' \<Longrightarrow> is_token_row token"
  shows "filter (\<lambda>row. \<not> is_token_row row) (insert_token token rows) = rows"
    and "filter is_token_row (insert_token token rows) =
      (if token = '''' then [] else replicate (length (filter (\<lambda>row. has_prefix row ''[common]'') rows)) token)"
  using assms by (induction rows) (auto simp: insert_token_def)

lemma insert_token_ok: "rows_ok rows \<Longrightarrow> rows_ok [token] \<Longrightarrow> rows_ok (insert_token token rows)"
  by (auto simp: rows_ok_def insert_token_def split: if_splits)

lemma common_rows:
  "filter (\<lambda>row. has_prefix row ''[common]'') (rows_without_token text) =
   filter (\<lambda>row. has_prefix row ''[common]'') (map trim_space (go_split newline text))"
  using common_no_token by (auto simp: rows_without_token_def intro: filter_cong)

text \<open>
  (C13) Editing the configuration keeps its secret: the page is never shown a row that starts with \<open>token\<close>;
  after an upload it is shown the uploaded rows, trimmed and without such rows, whatever token
  they held, so that uploading what is shown changes nothing of it; and the token rows of
  the file are then exactly the first one of the old file, after every row that opens the
  common section, and so none at all if the upload has no such row.
\<close>

theorem config_put_get:
  assumes "fs_cfgFile s \<noteq> ''''" and "fs_file s = Inr old" and "body \<noteq> ''''"
    and "apiPutConfig (Inr body) None s = (answer, s')" and "\<And>c. fs_file s' = Inr c \<Longrightarrow> render c = Inr c"
  shows "fst answer = 200 \<and> apiGetConfig render s' = (200, go_join [newline] (rows_without_token body)) \<and>
    (apiGetConfig render s = (200, body) \<longrightarrow> apiGetConfig render s' = (200, body)) \<and>
    (apiGetConfig render t = (200, text) \<longrightarrow> token_rows text = []) \<and>
    (\<exists>new. fs_file s' = Inr new \<and>
       token_rows new = (let token = token_row (go_split newline old) in
         if token = '''' then []
         else replicate (length (filter (\<lambda>row. has_prefix row ''[common]'') (map trim_space (go_split newline body)))) token))"
proof -
  let ?token = "token_row (go_split newline old)" and ?shown = "\<lambda>text. go_join [newline] (rows_without_token text)"
  let ?rows = "insert_token ?token (rows_without_token body)"
  have none: "\<forall>row \<in> set (rows_without_token body). \<not> is_token_row row" for body by (simp add: rows_without_token_def)
  have res: "fs_file s' = Inr (go_join [newline] ?rows)" "fs_cfgFile s' = fs_cfgFile s" "fst answer = 200"
    using assms(2-4) by (auto simp: apiPutConfig_def Let_def)
  have ok: "rows_ok ?rows" by (intro insert_token_ok rows_without_token_ok token_row_ok)
  have get: "apiGetConfig render s' = (200, ?shown body)"
    using assms(1) res assms(5) [OF res(1)]
    by (simp add: apiGetConfig_def GetRenderedConfFromFile_def read_written(1) [OF ok] insert_token_spec(1) [OF none token_row_is])
  moreover have again: "?shown (?shown x) = ?shown x" "token_rows (?shown x) = []" for x
    using none [of x] by (simp_all add: read_written [OF rows_without_token_ok] filter_id_conv filter_empty_conv)
  moreover have "apiGetConfig render s = (200, body) \<Longrightarrow> body = ?shown body"
    using again(1) assms(1) by (auto simp: apiGetConfig_def split: sum.splits)
  moreover have "apiGetConfig render t = (200, text) \<Longrightarrow> token_rows text = []"
    using again(2) by (auto simp: apiGetConfig_def split: if_splits sum.splits)
  ultimately show ?thesis
    using res by (auto simp: read_written(2) [OF ok] insert_token_spec(2) [OF none token_row_is] common_rows Let_def)
qed

theorem config_put_get_witness:
  "apiGetConfig Inr (snd (apiPutConfig (Inr ''[common]'') None (demo_service\<lparr>fs_file := Inr ''token=k''\<rparr>))) = (200, ''[common]'') \<and>
   (\<exists>new. fs_file (snd (apiPutConfig (Inr ''[common]'') None (demo_service\<lparr>fs_file := Inr ''token=k''\<rparr>))) = Inr new \<and>
     token_rows new = [''token=k''])"
proof -
  have t: "trim_space ''[common]'' = ''[common]''" "trim_space ''token=k'' = ''token=k''" by code_simp+
  from config_put_get [of "demo_service\<lparr>fs_file := Inr ''token=k''\<rparr>" "''token=k''" "''[common]''", OF _ _ _ surjective_pairing, of Inr]
  show ?thesis by (simp add: demo_service_def rows_without_token_def t is_token_row_def)
qed

section \<open>The reload\<close>

lemma map_sum_Inr: "map_sum f g z = Inr y \<longleftrightarrow> (\<exists>x. z = Inr x \<and> g x = y)"
  by (cases z) auto

lemma parse_file_keyed:
  assumes "ini_ok (rl_lib e)" and "\<And>src f. ni_LoadSources (rl_lib e) src = Some f \<Longrightarrow> file_ok f"
    and "parse_file e file = Some (Inr (cfg, ps, vs))"
  shows "keyed ps \<and> vkeyed vs \<and> dom ps \<inter> dom vs = {}"
proof -
  let ?lib = "rl_lib e"
  obtain src where l: "LoadAllProxyConfsFromIni ?lib (cs_User cfg) src (cs_Start cfg) = Some (Inr (ps, vs))"
    using assms(3) by (auto simp: parse_file_def ParseClientConfig_def Let_def map_sum_Inr split: option.splits sum.splits)
  then obtain f0 where f0: "ni_LoadSources ?lib src = Some f0"
    by (cases "ni_LoadSources ?lib src") (simp_all add: LoadAllProxyConfsFromIni_def)
  from LoadAll_sections [OF assms(1) f0 assms(2) [OF f0] l refl] obtain f where
    "load_sections ?lib (if cs_User cfg = '''' then '''' else cs_User cfg @ ''.'') (cs_Start cfg) f Map.empty Map.empty = Inr (ps, vs)"
    "distinct (map fst f)" by blast
  then show ?thesis by (rule load_sections_keyed)
qed

text \<open>
  (C8) A reload puts the file to work, or changes nothing. A file that does not load is answered with its error, and
  the client stays as it is. One that loads is put to work at once and never fails halfway:
  whatever the order of the iterations, the client then has exactly the proxies and visitors of
  the file, each under its own name and no name twice; those whose configuration is unchanged
  are kept as they are, all others start afresh, and the server is asked to close exactly
  the proxies that were dropped or changed.
\<close>

theorem reload_from_file:
  assumes "ini_ok (rl_lib e)" and "\<forall>src f. ni_LoadSources (rl_lib e) src = Some f \<longrightarrow> file_ok f"
    and "fs_ctl s = Some (pm, vm)" and "pm_ok pm" and "dom (vs_visitors vm) \<subseteq> dom (vs_cfgs vm)"
    and "distinct (rl_old_proxies e)" and "set (rl_old_proxies e) = dom (pm_proxies pm)"
    and "distinct (rl_old_visitors e)" and "set (rl_old_visitors e) = dom (vs_cfgs vm)"
    and "parse_file e (fs_file s) = Some r"
    and "\<forall>cfg ps vs. r = Inr (cfg, ps, vs) \<longrightarrow> set (rl_new_proxies e) = dom ps \<and> set (rl_new_visitors e) = dom vs"
  shows "case r of
      Inl err \<Rightarrow> apiReload e s = Some ((400, rl_text e err), s)
    | Inr (cfg, ps, vs) \<Rightarrow>
        (\<exists>pm' vm'. apiReload e s = Some ((200, ''''), s\<lparr>fs_pxyCfgs := ps, fs_visitorCfgs := vs, fs_ctl := Some (pm', vm')\<rparr>) \<and>
           keyed ps \<and> vkeyed vs \<and> dom ps \<inter> dom vs = {} \<and>
           (\<forall>n. pm_proxies pm' n =
              (case ps n of
                 None \<Rightarrow> None
               | Some cfg \<Rightarrow> Some (case pm_proxies pm n of
                                      Some w \<Rightarrow> if w_Cfg w = cfg then w else NewWrapper cfg | None \<Rightarrow> NewWrapper cfg))) \<and>
           pm_sent pm' = pm_sent pm @ concat (map (dropped ps pm) (rl_old_proxies e)) \<and>
           vs_cfgs vm' = vs \<and>
           (\<forall>n. vs_visitors vm' n =
              (if vs n = vs_cfgs vm n then vs_visitors vm n else Option.bind (vs n) (started (rl_listen e)))))"
proof (cases r)
  case (Inl err)
  then show ?thesis using assms(10) by (simp add: apiReload_def)
next
  case (Inr res)
  obtain cfg ps vs where res: "r = Inr (cfg, ps, vs)" using Inr by (cases res) auto
  have keys: "keyed ps \<and> vkeyed vs \<and> dom ps \<inter> dom vs = {}"
    by (rule parse_file_keyed [OF assms(1)]) (use assms(2,10) res in blast)+
  note new = assms(11) [rule_format, OF res]
  let ?vm' = "vm_Reload (rl_listen e) vs (rl_old_visitors e) (rl_new_visitors e) vm"
  obtain pm' where pm': "Frp_Client.Reload ps (rl_old_proxies e) (rl_new_proxies e) pm = Some pm'"
    "\<And>n. pm_proxies pm' n = (case ps n of None \<Rightarrow> None | Some cfg \<Rightarrow> Some (case pm_proxies pm n of
        Some w \<Rightarrow> if w_Cfg w = cfg then w else NewWrapper cfg | None \<Rightarrow> NewWrapper cfg))"
    "pm_sent pm' = pm_sent pm @ concat (map (dropped ps pm) (rl_old_proxies e))"
    using reload_exact [OF assms(4,6,7), of "rl_new_proxies e" ps] new by blast
  have "vkeyed vs" using keys by blast
  from visitors_reload_exact [OF this assms(8,9) _ assms(5) refl] new keys
  have vm': "vs_cfgs ?vm' = vs \<and>
    (\<forall>n. vs_visitors ?vm' n = (if vs n = vs_cfgs vm n then vs_visitors vm n else Option.bind (vs n) (started (rl_listen e))))"
    by blast
  have "apiReload e s = Some ((200, ''''), s\<lparr>fs_pxyCfgs := ps, fs_visitorCfgs := vs, fs_ctl := Some (pm', ?vm')\<rparr>)"
    using assms(3,10) pm'(1) res by (simp add: apiReload_def svc_ReloadConf_def ctl_ReloadConf_def Let_def)
  then show ?thesis
    unfolding res sum.case prod.case
    by (intro exI [of _ pm'] exI [of _ ?vm'] conjI allI pm'(2,3) keys [THEN conjunct1] keys [THEN conjunct2, THEN conjunct1]
        keys [THEN conjunct2, THEN conjunct2] vm' [THEN conjunct1] vm' [THEN conjunct2, rule_format])
qed

text \<open>Both proxies are dropped; the visitors of the file are started.\<close>

definition demo_reload :: reload_env where
  "demo_reload = \<lparr>rl_old_proxies = [''ssh'', ''web''], rl_new_proxies = [], rl_old_visitors = [], rl_new_visitors = [''v'', ''w''],
     rl_listen = (\<lambda>_. None), rl_lib = demo_loader, rl_http_proxy = '''', rl_dir_exists = (\<lambda>_. True), rl_includes = (\<lambda>_. Inr ''''),
     rl_render = Inr, rl_text = (\<lambda>_. ''error'')\<rparr>"

definition demo_loaded :: "string \<Rightarrow> visitor_conf" where
  "demo_loaded n = STCPVisitorConf (base_visitor_unmarshalFromIni '''' n
     (zero_visitor\<lparr>bv_Role := ''visitor'', bv_BindPort := 9000, bv_ServerName := ''ssh''\<rparr>))"

lemma demo_section_conf:
  "NewVisitorConfFromIni (ni_contains demo_loader) (ni_MapToVisitor demo_loader [(''type'', ''stcp''), (''role'', ''visitor'')])
     '''' n [(''type'', ''stcp''), (''role'', ''visitor'')] = Inr (demo_loaded n)"
  by (simp add: NewVisitorConfFromIni_def DefaultVisitorConf_def demo_loader_def visitor_UnmarshalFromIni_def demo_loaded_def
      base_visitor_validate_def base_visitor_unmarshalFromIni_def zero_visitor_def)

lemma demo_parse:
  "\<exists>cfg. parse_file demo_reload (Inr '''') = Some (Inr (cfg, Map.empty, [''v'' \<mapsto> demo_loaded ''v'', ''w'' \<mapsto> demo_loaded ''w'']))"
proof -
  let ?cfg = "client_Complete (GetDefaultClientConf ''''\<lparr>cs_Metas := GetMapWithoutPrefix [(''user'', ''bob'')] ''meta_'',
    cs_Auth := (cs_Auth (GetDefaultClientConf ''''))\<lparr>ca_Oidc := (ca_Oidc (cs_Auth (GetDefaultClientConf '''')))\<lparr>
      oc_AdditionalEndpointParams := GetMapWithoutPrefix [(''user'', ''bob'')] ''oidc_additional_''\<rparr>\<rparr>\<rparr>)"
  have cfg: "cs_User ?cfg = ''''" "cs_Start ?cfg = []" "cs_IncludeConfigFiles ?cfg = []" "client_Validate demo_loader (\<lambda>_. True) ?cfg = None"
    by (simp_all add: client_Complete_def GetDefaultClientConf_def client_Validate_def demo_loader_def demo_lib_def)
  have un: "map_sum id client_Complete (UnmarshalClientConfFromIni demo_loader '''' '''') = Inr ?cfg"
    by (simp add: UnmarshalClientConfFromIni_def demo_loader_def demo_file_def demo_lib_def)
  have skip: "section_skipped demo_loader [] ''common''" "\<not> section_skipped demo_loader [] ''v''" "\<not> section_skipped demo_loader [] ''w''"
    by (simp_all add: section_skipped_def demo_loader_def demo_lib_def)
  have "load_sections demo_loader '''' [] demo_file Map.empty Map.empty =
      Inr (Map.empty, [''v'' \<mapsto> demo_loaded ''v'', ''w'' \<mapsto> demo_loaded ''w''])"
    by (simp add: demo_file_def skip section_key_def demo_section_conf)
  moreover have "filter (\<lambda>name. has_prefix name ''range:'') (map fst demo_file) = []" by (simp add: demo_file_def)
  moreover have "ni_LoadSources demo_loader src = Some demo_file" for src by (simp add: demo_loader_def)
  ultimately have "LoadAllProxyConfsFromIni demo_loader '''' src [] =
      Some (Inr (Map.empty, [''v'' \<mapsto> demo_loaded ''v'', ''w'' \<mapsto> demo_loaded ''w'']))" for src
    by (simp add: LoadAllProxyConfsFromIni_def)
  with un cfg show ?thesis
    by (intro exI [of _ ?cfg])
      (auto simp: parse_file_def demo_reload_def GetRenderedConfFromFile_def ParseClientConfig_def Let_def map_sum_def split: sum.splits)
qed

theorem reload_from_file_witness:
  "\<exists>pm' vm' s'. apiReload demo_reload demo_service = Some ((200, ''''), s') \<and> fs_ctl s' = Some (pm', vm') \<and>
     pm_proxies pm' = Map.empty \<and> pm_sent pm' = [SendCloseProxy ''ssh'', SendCloseProxy ''web''] \<and>
     vs_visitors vm' ''v'' = started (\<lambda>_. None) (demo_loaded ''v'')"
proof -
  obtain cfg where p: "parse_file demo_reload (fs_file demo_service) =
      Some (Inr (cfg, Map.empty, [''v'' \<mapsto> demo_loaded ''v'', ''w'' \<mapsto> demo_loaded ''w'']))"
    using demo_parse by (auto simp: demo_service_def)
  let ?pm = "NewProxyManager\<lparr>pm_proxies := [''web'' \<mapsto> demo_waiting\<lparr>w_Name := ''web''\<rparr>, ''ssh'' \<mapsto> demo_waiting\<lparr>w_Name := ''ssh''\<rparr>]\<rparr>"
  have ok: "ini_ok (rl_lib demo_reload)" using demo_lib_ok by (simp add: ini_ok_def demo_loader_def demo_reload_def)
  have fok: "\<forall>src f. ni_LoadSources (rl_lib demo_reload) src = Some f \<longrightarrow> file_ok f"
    by (auto simp: demo_reload_def demo_loader_def file_ok_def demo_file_def)
  have pok: "pm_ok ?pm" by (auto simp: pm_ok_def demo_waiting_def NewWrapper_def Let_def split: if_splits)
  have ctl: "fs_ctl demo_service = Some (?pm, NewVisitorsMgr)" by (simp add: demo_service_def)
  let ?vs = "[''v'' \<mapsto> demo_loaded ''v'', ''w'' \<mapsto> demo_loaded ''w'']"
  have side: "dom (vs_visitors NewVisitorsMgr) \<subseteq> dom (vs_cfgs NewVisitorsMgr)" "distinct (rl_old_proxies demo_reload)"
    "set (rl_old_proxies demo_reload) = dom (pm_proxies ?pm)" "distinct (rl_old_visitors demo_reload)"
    "set (rl_old_visitors demo_reload) = dom (vs_cfgs NewVisitorsMgr)"
    by (auto simp: NewVisitorsMgr_def demo_reload_def split: if_splits)
  have new: "\<forall>cfg' ps vs. Inr (cfg, Map.empty, ?vs) = (Inr (cfg', ps, vs) :: settings_error + _) \<longrightarrow>
      set (rl_new_proxies demo_reload) = dom ps \<and> set (rl_new_visitors demo_reload) = dom vs"
    by (auto simp: demo_reload_def split: if_splits)
  from reload_from_file [OF ok fok ctl pok side p new] obtain pm' vm' where
    r: "apiReload demo_reload demo_service = Some ((200, ''''), demo_service\<lparr>fs_pxyCfgs := Map.empty, fs_visitorCfgs := ?vs, fs_ctl := Some (pm', vm')\<rparr>)"
    and pm': "\<forall>n. pm_proxies pm' n = None" "pm_sent pm' = pm_sent ?pm @ concat (map (dropped Map.empty ?pm) (rl_old_proxies demo_reload))"
    and vm': "\<forall>n. vs_visitors vm' n = (if ?vs n = vs_cfgs NewVisitorsMgr n then vs_visitors NewVisitorsMgr n
      else Option.bind (?vs n) (started (rl_listen demo_reload)))"
    unfolding sum.case prod.case option.case by blast
  have "pm_proxies pm' = Map.empty" using pm'(1) by (simp add: fun_eq_iff)
  moreover have "pm_sent pm' = [SendCloseProxy ''ssh'', SendCloseProxy ''web'']"
    unfolding pm'(2) by (simp add: demo_reload_def dropped_def NewProxyManager_def)
  moreover have "vs_visitors vm' ''v'' = started (\<lambda>_. None) (demo_loaded ''v'')"
    unfolding vm' [rule_format] by (simp add: NewVisitorsMgr_def demo_reload_def)
  ultimately show ?thesis using r by (intro exI [of _ pm'] exI [of _ vm'] exI conjI) (assumption | simp)+
qed

section \<open>Who may ask\<close>

text \<open>
  If a user or a password is set, a request that does not carry both is refused and changes nothing,
  whatever it is, unless it only asks whether the client is alive.
\<close>

theorem admin_requests_guarded:
  assumes "user \<noteq> '''' \<or> passwd \<noteq> ''''" and "auth \<noteq> Some (user, passwd)" and "req \<noteq> Healthz"
  shows "serve_admin e order write user passwd auth req s = (Some (Text 401 (''Unauthorized'' @ [newline])), Some s)"
  using assms by (auto simp: serve_admin_def Middleware_def split: option.splits)

theorem admin_requests_guarded_witness:
  "serve_admin demo_reload [] None ''admin'' '''' (Some (''admin'', ''x'')) GetReload demo_service =
     (Some (Text 401 (''Unauthorized'' @ [newline])), Some demo_service)"
  by (rule admin_requests_guarded) simp_all

end
