(* ===== verification/Spec2Isabelle.thy ===== *)
theory Spec2Isabelle
  imports Frp_Router Frp_Util Frp_Vhost Frp_Ports Frp_HttpGroup Frp_Metrics Frp_Dashboard
    Frp_TcpGroup Frp_Auth Frp_Config Frp_Typing Frp_Link Frp_DashApi Frp_Plugins
    Frp_Visitors Frp_Settings Frp_AdminApi
begin

text \<open>
  A verification of frp (the ChmlFrp fork): a server, \<open>frps\<close>, that exposes the services of
  clients, \<open>frpc\<close>, which sit behind a firewall. A client logs in over one control connection
  and asks the server to start proxies; the server opens a port, a route of a virtual host or a
  secret listener for each, and for every connection of a user it takes a work connection of
  the client, over which the bytes flow. Both programs have a dashboard in the browser. The
  theories follow the packages; a theory opens with the files that it models, and the definitions
  have the names of the source where Isabelle allows it. This header says how the parts fit
  together, what is shown and what is left out.

  \<^bold>\<open>The parts, and where they are.\<close>

  \<^item> \<open>Frp_Prelude\<close>: what the code calls of the standard libraries of Go and JavaScript on strings, numbers
    and slices, with the lemmas that all theories share. \<open>Frp_Util\<close> (\<open>pkg/util/util\<close>,
    \<open>pkg/util/version\<close>): identifiers, number ranges, host names, versions.
  \<^item> The shared resources of the server. \<open>Frp_Router\<close> and \<open>Frp_Vhost\<close> (\<open>pkg/util/vhost\<close>): the routes of
    virtual hosts, the lookup with wildcards, authentication and routing of requests.
    \<open>Frp_Ports\<close> (\<open>server/ports\<close>): the free, used and reserved ports. \<open>Frp_HttpGroup\<close> and \<open>Frp_TcpGroup\<close>
    (\<open>server/group\<close>): load balancing over a route, a port or a multiplexed route. \<open>Frp_Auth\<close> (\<open>pkg/auth/token.go\<close>,
    \<open>server/visitor\<close>): tokens, and the listeners of secret proxies.
    \<open>Frp_Nathole\<close> (\<open>pkg/nathole\<close>): how two clients behind NATs are told to reach each other.
  \<^item> Configuration. \<open>Frp_Config\<close> (\<open>pkg/config/proxy.go\<close>, \<open>types.go\<close>): all types of proxies, from the ini
    section over the message to the server's validation. \<open>Frp_VisitorConf\<close> (\<open>visitor.go\<close>): the visitors.
    \<open>Frp_Settings\<close> (\<open>server.go\<close>, \<open>client.go\<close>, \<open>parse.go\<close>): the settings of both programs and the loading of a whole file,
    with its ranges.
  \<^item> The server. \<open>Frp_Proxy\<close> (\<open>server/proxy\<close>): starting and closing a proxy of each type over the shared
    resources. \<open>Frp_Api\<close> (\<open>pkg/api\<close>): the queries to the ChmlFrp API. \<open>Frp_Control\<close> (\<open>server/control.go\<close>, \<open>service.go\<close>):
    the control of a client, logins, registration and closing of proxies, work connections and
    forced closing. \<open>Frp_Sessions\<close>, \<open>Frp_Typing\<close>: what holds of it. \<open>Frp_Manager\<close>: the loop over
    the messages of a client with its heartbeat, and the first message of a connection.
    \<open>Frp_Plugins\<close> (\<open>pkg/plugin/server\<close>): the chain of plugins and its hooks.
  \<^item> The client. \<open>Frp_Client\<close> (\<open>client/proxy\<close>, \<open>client/health\<close>, \<open>client/control.go\<close>): the health monitor, the phases of
    a proxy, the manager with its reload, the messages of the server, reconnection. \<open>Frp_ClientRun\<close>: its runs.
    \<open>Frp_Visitors\<close> (\<open>client/visitor\<close>): the other end of secret proxies. \<open>Frp_AdminApi\<close> (\<open>client/admin_api.go\<close>): status page,
    editing of the configuration file, reload and stop.
  \<^item> Both together. \<open>Frp_Link\<close>: a client and its control, joined by the two queues of the control connection.
  \<^item> Statistics and dashboards. \<open>Frp_Calendar\<close> and \<open>Frp_Metrics\<close> (\<open>pkg/util/metric\<close>, \<open>pkg/metrics/mem\<close>): counters by day and
    the collector. \<open>Frp_DashApi\<close> (\<open>server/dashboard_api.go\<close>): the lists of proxies for the dashboard.
    \<open>Frp_Dashboard\<close> (\<open>web/frps\<close>, \<open>web/frpc\<close>): the scripts of the pages, in a small model of JavaScript values.

  \<^bold>\<open>How the code is translated.\<close> A struct is a record, a set of types behind an interface a datatype; a
  method takes the state and returns it updated. Where objects are shared, as the controls, proxies
  and groups of the server are, the state holds them under their key or number. An error is
  the left side of a sum or an option; a panic, and a loop that does not end, is the value \<open>None\<close> of an
  option. Machine integers are words or bounded integers where they can overflow (the round-robin counter,
  parsed numbers, traffic). Mutexes make the operations atomic; a goroutine is a step of a
  relation or an event of a loop. The order in which Go iterates over a map is an argument,
  and theorems hold for every order. Texts of errors that are not ASCII are replaced.

  \<^bold>\<open>What is an argument.\<close> The clock and the time zone; the operating system (whether a port can be
  bound, \<open>ce_\<close>, \<open>re_\<close> and \<open>rl_\<close> fields); random bytes; the MD5 digest (\<open>digest\<close>, injective where that is needed);
  the packages \<open>lo\<close> (\<open>lo_lib\<close>), ini (\<open>ini_lib\<close>, with \<open>ini_ok\<close> for what the loader relies on), the validator and
  the parsing of floating-point numbers (\<open>parse_float\<close>); the API server (\<open>api\<close>), the plugins (handlers), gopsutil;
  \<open>fetch\<close> and echarts in the browser.

  \<^bold>\<open>Interfaces.\<close> Four contracts are locales, each interpreted by the model:
  \<open>route_table\<close> (an index of routes answers like a finite map; \<open>vr\<close> by the router), \<open>port_pool\<close> (a pool hands out
  what is free; \<open>pool\<close> by the port manager), \<open>day_counter\<close> (a window of days sums a log of events; \<open>week\<close> by
  the date counter), and \<open>hosted_client\<close>, which extends \<open>request_stream\<close> and \<open>proxy_host\<close> (a client that
  only ever asks for what it has, and a host that holds what it was asked; \<open>frp\<close> by client and control).

  \<^bold>\<open>What is shown.\<close>

  \<^item> Across components: the server holds for a client exactly what its configuration asks for
    (\<open>Frp_Link\<close>); a connection through a visitor is joined exactly with the right key and for an allowed user
    (\<open>Frp_Visitors\<close>); a reload puts a file to work or changes nothing (\<open>Frp_AdminApi\<close>); the charts and
    lists of the dashboard show what was counted and what runs (\<open>Frp_Dashboard\<close>, \<open>Frp_DashApi\<close>); a plugin's refusal
    keeps a proxy from starting (\<open>Frp_Plugins\<close>).
  \<^item> Invariants of all reachable states, by rule induction: ports, groups, the tables of controls and
    proxies, the types of running proxies, the client's phases and requests, the visitors.
  \<^item> Functional behaviour on every branch: lookups return the best match, selections are fair, errors
    roll back, configurations survive their messages, files load exactly, silent clients are dropped.
  \<^item> Where the code does not do what it means to, a theorem that shows it: for example the
    \<open>serve_proxy_request_bypass\<close> of \<open>Frp_Vhost\<close>, \<open>spring_day_is_merged\<close> of \<open>Frp_Metrics\<close>, \<open>ParseRangeNumbers_diverges\<close> of
    \<open>Frp_Util\<close>, \<open>negative_pool_count\<close> of \<open>Frp_Sessions\<close>, \<open>fallback_misses_prefix\<close> of \<open>Frp_Visitors\<close>.

  \<^bold>\<open>Bounds.\<close> No recursion has an artificial limit: loops are structural or have a measure, except
  \<open>range_loop\<close> of \<open>Frp_Util\<close>, which is a partial function because the code's loop may not end, and \<open>strip_runes\<close> of the
  prelude, whose counter is the length of the string that it shortens in each round.

  \<^bold>\<open>Restrictions of the step relations.\<close> A login is one step, with its queries to the API server; forced
  closing is a step for live controls only (what it does to a stopped one is a theorem of its own);
  plugins in \<open>Frp_Link\<close> may admit or refuse but not rewrite; the two queues of a control connection lose nothing while
  it lives.

  \<^bold>\<open>Not modelled.\<close> Moving bytes: the goroutines that accept, dial, copy, encrypt, compress and limit,
  KCP, QUIC and TLS, and the packets of UDP proxies. Third-party verifiers (OIDC) and exporters (Prometheus).
  STUN and the exchange of packets when a hole is punched. The plugins of the client, which are servers made
  of library calls. Rendering of templates, parsing of ini text and of JSON text (values are modelled, not
  their text). Logging, flags, embedding of assets, the styling of the dashboards and their compiled bundles.
\<close>

end
